theory Spec2Isabelle
  imports Main "HOL-Library.Word"
begin

section \<open>Machine model\<close>

text \<open>
  The allocator of \<^verbatim>\<open>ObjectAllocator.cpp\<close> works on raw storage: it threads its
  free list and its page list through the bytes of the pages. The model therefore keeps
  a flat byte-addressed memory. An address is a natural number, \<open>0\<close> is the null
  pointer, \<^verbatim>\<open>unsigned\<close> is a 32-bit word and wraps.

  The memory is total: a load or a store succeeds at every address, also outside the
  buffers the system allocator handed out, where the behaviour of the program is
  undefined and it may crash. What is proved of a call that overruns its buffer is
  therefore proved of the model only; the theorems that state that a call returns carry
  hypotheses (a block count that is not 0, an object at least as large as a pointer, a
  page footprint below \<open>2^32\<close>) under which the stores of the page set-up stay inside the
  page.
\<close>

type_synonym byte = "8 word"
type_synonym u32 = "32 word"
type_synonym addr = nat
type_synonym memory = "addr \<Rightarrow> byte"

text \<open>
  \<^verbatim>\<open>ObjectAllocator.h\<close> is not among the sources. What the code takes from it and
  from the platform is a parameter of the model: \<^verbatim>\<open>sizeof(void*)\<close> and the five
  signature bytes.
\<close>

record platform =
  ptr_size :: nat
  UNALLOCATED_PATTERN :: byte
  ALLOCATED_PATTERN :: byte
  FREED_PATTERN :: byte
  PAD_PATTERN :: byte
  ALIGN_PATTERN :: byte

text \<open>The loop \<^verbatim>\<open>while(n--) { *p = v; ++p; }\<close>; the pointer ends at \<open>p + n\<close>.\<close>

primrec fill :: "memory \<Rightarrow> addr \<Rightarrow> nat \<Rightarrow> byte \<Rightarrow> memory" where
  "fill m p 0 v = m"
| "fill m p (Suc n) v = fill (m(p := v)) (Suc p) n v"

text \<open>
  A pointer stored in memory (\<^verbatim>\<open>p->Next = q\<close>) occupies \<^verbatim>\<open>sizeof(void*)\<close> bytes,
  least significant byte first; \<^verbatim>\<open>p->Next\<close> reads them back.
\<close>

primrec store_ptr :: "nat \<Rightarrow> memory \<Rightarrow> addr \<Rightarrow> addr \<Rightarrow> memory" where
  "store_ptr 0 m a q = m"
| "store_ptr (Suc n) m a q = store_ptr n (m(a := of_nat q)) (Suc a) (q div 256)"

primrec load_ptr :: "nat \<Rightarrow> memory \<Rightarrow> addr \<Rightarrow> addr" where
  "load_ptr 0 m a = 0"
| "load_ptr (Suc n) m a = unat (m a) + 256 * load_ptr n m (Suc a)"

text \<open>
  Where the code subtracts in \<^verbatim>\<open>size_t\<close> or in pointer arithmetic, the result wraps
  around the address space (\<^verbatim>\<open>size_t\<close> is taken to be as wide as a pointer): \<open>wrap\<close> is
  the address an integer denotes. Sums of a page address and offsets inside the page are
  left as they are.
\<close>

definition wrap :: "platform \<Rightarrow> int \<Rightarrow> addr" where
  "wrap P i = nat (i mod 256 ^ ptr_size P)"

section \<open>The allocator's data\<close>

record OAConfig =
  UseCPPMemManager :: bool
  ObjectsPerPage :: u32
  MaxPages :: u32
  DebugOn :: bool
  PadBytes :: u32
  HeaderBlocks :: u32
  Alignment :: u32
  LeftAlignSize :: u32
  InterAlignSize :: u32

record OAStats =
  ObjectSize :: u32
  PageSize :: u32
  FreeObjects :: u32
  ObjectsInUse :: u32
  PagesInUse :: u32
  MostObjects :: u32
  Allocations :: u32
  Deallocations :: u32

text \<open>
  The members of the class (the trailing underscore of their names dropped), together with the memory its pointers point into and the
  pointers the system allocator will hand out: \<open>sys_new\<close> lists what the coming calls
  of \<^verbatim>\<open>new\<close> return, \<open>0\<close> (or an exhausted list) meaning that no memory is left.
\<close>

record ObjectAllocator =
  Config :: OAConfig
  Stats :: OAStats
  chunk_size :: u32
  block_size :: u32
  page_list :: addr
  free_list :: addr
  mem :: memory
  sys_new :: "addr list"

datatype OAException =
  E_NO_MEMORY | E_NO_PAGES | E_BAD_ADDRESS | E_MULTIPLE_FREE | E_BAD_BOUNDARY
  | E_CORRUPTED_BLOCK

text \<open>
  A call returns, throws an \<open>OAException\<close>, or ends the process (\<open>Abort\<close>: a null
  pointer dereferenced, a division by zero, \<^verbatim>\<open>std::bad_alloc\<close> leaving a function
  declared \<^verbatim>\<open>throw(OAException)\<close>). A call that never returns is \<open>None\<close>.
\<close>

datatype 'a outcome = Return 'a | Throw OAException | Abort

definition new_char :: "ObjectAllocator \<Rightarrow> addr \<times> ObjectAllocator" where
  "new_char s = (case sys_new s of [] \<Rightarrow> (0, s) | a # rest \<Rightarrow> (a, s\<lparr>sys_new := rest\<rparr>))"

section \<open>SetSignatures\<close>

text \<open>
  \<^verbatim>\<open>if(n) { t = n; while(t--) { *p = v; ++p; } }\<close>: the guard only skips a loop of no
  iterations.
\<close>

definition stamp :: "memory \<times> addr \<Rightarrow> u32 \<Rightarrow> byte \<Rightarrow> memory \<times> addr" where
  "stamp mp n v = (fill (fst mp) (snd mp) (unat n) v, snd mp + unat n)"

function SetSignatures_blocks ::
  "platform \<Rightarrow> ObjectAllocator \<Rightarrow> u32 \<Rightarrow> memory \<times> addr \<Rightarrow> memory" where
  "SetSignatures_blocks P s i mp =
    (if i < ObjectsPerPage (Config s) then
       (if DebugOn (Config s) then
          (let mp1 = (fst mp, snd mp + ptr_size P);
               mp2 = stamp mp1 (ObjectSize (Stats s) - of_nat (ptr_size P))
                       (UNALLOCATED_PATTERN P);
               mp3 = stamp mp2 (PadBytes (Config s)) (PAD_PATTERN P)
           in if i = ObjectsPerPage (Config s) - 1
              then SetSignatures_blocks P s (i + 1) mp3
              else
                (let mp4 = stamp mp3 (InterAlignSize (Config s)) (ALIGN_PATTERN P);
                     mp5 = stamp mp4 (HeaderBlocks (Config s)) 0;
                     mp6 = stamp mp5 (PadBytes (Config s)) (PAD_PATTERN P)
                 in SetSignatures_blocks P s (i + 1) mp6))
        else
          (if i = ObjectsPerPage (Config s) - 1 then fst mp
           else
             (let mp1 = (fst mp, snd mp + unat (ObjectSize (Stats s)
                           + InterAlignSize (Config s) + PadBytes (Config s)));
                  mp2 = stamp mp1 (HeaderBlocks (Config s)) 0
              in SetSignatures_blocks P s (i + 1) mp2)))
     else fst mp)"
  by pat_completeness auto
termination
proof -
  have step: "unat k - unat (i + 1) < unat k - unat i" if "unat i < unat k" for i k :: u32
  proof -
    have "unat k < 2 ^ 32" using unsigned_less [of k] by simp
    with that have "unat i + unat (1::u32) < 2 ^ LENGTH(32)" by simp
    then have "unat (i + 1) = unat i + unat (1::u32)" by (simp only: unat_add_lem)
    with that show ?thesis by simp
  qed
  show ?thesis
    by (relation "measure (\<lambda>(P, s, i, mp). unat (ObjectsPerPage (Config s)) - unat i)")
      (auto simp: word_less_nat_alt step)
qed

text \<open>
  The part of \<^verbatim>\<open>SetSignatures\<close> before its loop, then the loop. With the debug flag
  off the code only skips the alignment bytes and writes the header bytes.
\<close>

definition SetSignatures :: "platform \<Rightarrow> ObjectAllocator \<Rightarrow> addr \<Rightarrow> memory" where
  "SetSignatures P s set_signatures =
    (let mp0 = (mem s, set_signatures + ptr_size P);
         mp1 =
           (if DebugOn (Config s) then
              (let mpa = (if LeftAlignSize (Config s) \<noteq> 0
                          then stamp mp0 (Alignment (Config s)) (ALIGN_PATTERN P) else mp0)
               in stamp mpa (HeaderBlocks (Config s)) 0)
            else
              stamp (fst mp0, snd mp0 + unat (LeftAlignSize (Config s)))
                (HeaderBlocks (Config s)) 0);
         mp2 = (if DebugOn (Config s) then stamp mp1 (PadBytes (Config s)) (PAD_PATTERN P)
                else mp1)
     in SetSignatures_blocks P s 0 mp2)"

section \<open>AllocatePage\<close>

text \<open>
  The loop that threads the blocks of the new page onto the free list. Its condition is
  \<^verbatim>\<open>i < ObjectsPerPage_ || commited_bytes >= PageSize_\<close>, so it need not end; it
  returns the final \<open>i\<close> with the state.
\<close>

definition populate_body :: "platform \<Rightarrow> u32 \<Rightarrow> addr \<times> ObjectAllocator \<Rightarrow> addr \<times> ObjectAllocator"
  where
  "populate_body P i ts =
    (let temp_free_list = fst ts; s = snd ts;
         ts1 =
           (if i < ObjectsPerPage (Config s) - 1 then
              (let t = temp_free_list + unat (ObjectSize (Stats s) + chunk_size s)
               in (t, s\<lparr>mem := store_ptr (ptr_size P) (mem s) t (free_list s),
                       free_list := t\<rparr>))
            else (temp_free_list, s));
         s1 = snd ts1
     in (fst ts1, s1\<lparr>Stats := (Stats s1)\<lparr>FreeObjects := FreeObjects (Stats s1) + 1\<rparr>\<rparr>))"

partial_function (option) populate ::
  "platform \<Rightarrow> u32 \<Rightarrow> u32 \<Rightarrow> addr \<times> ObjectAllocator \<Rightarrow> (u32 \<times> ObjectAllocator) option" where
  "populate P i commited_bytes ts =
    (if i < ObjectsPerPage (Config (snd ts)) \<or> commited_bytes \<ge> PageSize (Stats (snd ts))
     then populate P (i + 1) (commited_bytes + ObjectSize (Stats (snd ts)))
            (populate_body P i ts)
     else Some (i, snd ts))"

text \<open>
  \<^verbatim>\<open>AllocatePage\<close> from the successful \<^verbatim>\<open>new\<close> up to the loop: the signatures, the
  link to the previous page, and the first block as the whole free list.
\<close>

definition page_setup :: "platform \<Rightarrow> ObjectAllocator \<Rightarrow> addr \<Rightarrow> addr \<times> ObjectAllocator" where
  "page_setup P s3 NewPage =
    (let s4 = s3\<lparr>mem := SetSignatures P s3 NewPage\<rparr>;
         s5 = s4\<lparr>mem := store_ptr (ptr_size P) (mem s4) NewPage
                 (if PagesInUse (Stats s4) = 1 then 0 else page_list s4)\<rparr>;
         s6 = s5\<lparr>page_list := NewPage\<rparr>;
         temp_free_list = NewPage + ptr_size P
            + unat (chunk_size s6 - PadBytes (Config s6));
         s7 = s6\<lparr>free_list := temp_free_list\<rparr>;
         s8 = s7\<lparr>mem := store_ptr (ptr_size P) (mem s7) temp_free_list 0\<rparr>
     in (temp_free_list, s8))"

text \<open>The statistics \<^verbatim>\<open>AllocatePage\<close> updates before it asks for the buffer.\<close>

definition page_account :: "platform \<Rightarrow> ObjectAllocator \<Rightarrow> ObjectAllocator" where
  "page_account P s =
    (let s1 = s\<lparr>Stats := (Stats s)\<lparr>PageSize :=
                 ObjectsPerPage (Config s) * ObjectSize (Stats s) + of_nat (ptr_size P)
                   + ObjectsPerPage (Config s) * chunk_size s\<rparr>\<rparr>
     in s1\<lparr>Stats := (Stats s1)\<lparr>PagesInUse := PagesInUse (Stats s1) + 1\<rparr>\<rparr>)"

definition AllocatePage :: "platform \<Rightarrow> ObjectAllocator \<Rightarrow> (unit outcome \<times> ObjectAllocator) option"
  where
  "AllocatePage P s =
    (let s2 = page_account P s;
         NewPage = fst (new_char s2);
         s3 = snd (new_char s2)
     in if NewPage = 0 then Some (Throw E_NO_MEMORY, s3)
        else map_option (\<lambda>r. (Return (), snd r)) (populate P 0 0 (page_setup P s3 NewPage)))"

section \<open>The constructor\<close>

text \<open>
  Modelled from the spec: the default constructors of \<^verbatim>\<open>OAStats\<close> and
  \<^verbatim>\<open>OAConfig\<close> are in the absent header. The statistics start at zero (the spec's
  conservation property counts from a fresh allocator), and of the default configuration
  only the two alignment sizes outlive the constructor's assignments, until it sets
  them after the first page.
\<close>

definition OAStats_default :: OAStats where
  "OAStats_default = \<lparr>ObjectSize = 0, PageSize = 0, FreeObjects = 0, ObjectsInUse = 0,
     PagesInUse = 0, MostObjects = 0, Allocations = 0, Deallocations = 0\<rparr>"

definition OAConfig_default :: OAConfig where
  "OAConfig_default = \<lparr>UseCPPMemManager = False, ObjectsPerPage = 0, MaxPages = 0,
     DebugOn = False, PadBytes = 0, HeaderBlocks = 0, Alignment = 0, LeftAlignSize = 0,
     InterAlignSize = 0\<rparr>"

definition ctor_init :: "u32 \<Rightarrow> OAConfig \<Rightarrow> memory \<Rightarrow> addr list \<Rightarrow> ObjectAllocator" where
  "ctor_init ObjectSize' config m0 sys =
    (let chunk = PadBytes config * 2 + HeaderBlocks config + Alignment config
     in \<lparr>Config = OAConfig_default\<lparr>UseCPPMemManager := UseCPPMemManager config,
            ObjectsPerPage := ObjectsPerPage config, MaxPages := MaxPages config,
            DebugOn := DebugOn config, PadBytes := PadBytes config,
            HeaderBlocks := HeaderBlocks config, Alignment := Alignment config\<rparr>,
         Stats = OAStats_default\<lparr>ObjectSize := ObjectSize'\<rparr>,
         chunk_size = chunk, block_size = ObjectSize' + chunk,
         page_list = 0, free_list = 0, mem = m0, sys_new = sys\<rparr>)"

definition ObjectAllocator_ctor ::
  "platform \<Rightarrow> u32 \<Rightarrow> OAConfig \<Rightarrow> memory \<Rightarrow> addr list
    \<Rightarrow> (unit outcome \<times> ObjectAllocator) option" where
  "ObjectAllocator_ctor P ObjectSize' config m0 sys =
    (let s0 = ctor_init ObjectSize' config m0 sys
     in case (if \<not> UseCPPMemManager (Config s0) then AllocatePage P s0
              else Some (Return (), s0)) of
          None \<Rightarrow> None
        | Some (Return u, s1) \<Rightarrow>
            Some (Return (), s1\<lparr>Config := (Config s1)\<lparr>
                   LeftAlignSize := Alignment (Config s1),
                   InterAlignSize := Alignment (Config s1)\<rparr>\<rparr>)
        | Some (Throw e, s1) \<Rightarrow> Some (Throw e, s1)
        | Some (Abort, s1) \<Rightarrow> Some (Abort, s1))"

section \<open>Allocate\<close>

definition count_allocation :: "OAStats \<Rightarrow> OAStats" where
  "count_allocation st =
    (let st1 = st\<lparr>FreeObjects := FreeObjects st - 1,
                  ObjectsInUse := ObjectsInUse st + 1,
                  Allocations := Allocations st + 1\<rparr>
     in if MostObjects st1 < ObjectsInUse st1
        then st1\<lparr>MostObjects := MostObjects st1 + 1\<rparr> else st1)"

text \<open>
  \<^verbatim>\<open>Allocate\<close> from the head of the free list on: the block is unlinked, stamped and
  marked, and the statistics count it.
\<close>

definition pop_block :: "platform \<Rightarrow> ObjectAllocator \<Rightarrow> addr outcome \<times> ObjectAllocator" where
  "pop_block P s1 =
    (let temp = free_list s1
     in if temp = 0 then (Abort, s1)
        else
          (let s2 = s1\<lparr>free_list := load_ptr (ptr_size P) (mem s1) temp\<rparr>;
               s3 = (if DebugOn (Config s2)
                     then s2\<lparr>mem := fill (mem s2) temp (unat (ObjectSize (Stats s2)))
                              (ALLOCATED_PATTERN P)\<rparr>
                     else s2);
               s4 = (if HeaderBlocks (Config s3) \<noteq> 0
                     then s3\<lparr>mem := (mem s3)
                              (temp - unat (PadBytes (Config s3) + 1) := 1)\<rparr>
                     else s3)
           in (Return temp, s4\<lparr>Stats := count_allocation (Stats s4)\<rparr>)))"

definition Allocate :: "platform \<Rightarrow> ObjectAllocator \<Rightarrow> (addr outcome \<times> ObjectAllocator) option"
  where
  "Allocate P s =
    (if UseCPPMemManager (Config s) then
       (let new_mem = fst (new_char s); s1 = snd (new_char s)
        in if new_mem = 0 then Some (Abort, s1)
           else Some (Return new_mem, s1\<lparr>Stats := count_allocation (Stats s1)\<rparr>))
     else
       (case (if FreeObjects (Stats s) = 0 then
                (if PagesInUse (Stats s) = MaxPages (Config s)
                 then Some (Throw E_NO_PAGES, s) else AllocatePage P s)
              else Some (Return (), s)) of
          None \<Rightarrow> None
        | Some (Throw e, s1) \<Rightarrow> Some (Throw e, s1)
        | Some (Abort, s1) \<Rightarrow> Some (Abort, s1)
        | Some (Return u, s1) \<Rightarrow> Some (pop_block P s1)))"

section \<open>ValidateObject\<close>

text \<open>
  The distance from the start of a page to its first block as \<^verbatim>\<open>ValidateObject\<close> and
  \<^verbatim>\<open>DumpMemoryInUse\<close> compute it: \<^verbatim>\<open>sizeof(void*) + chunk_size_ - Config_.PadBytes_\<close>, a
  \<^verbatim>\<open>size_t\<close>.
\<close>

definition first_block_offset :: "platform \<Rightarrow> ObjectAllocator \<Rightarrow> nat" where
  "first_block_offset P s =
     wrap P (int (ptr_size P) + int (unat (chunk_size s)) - int (unat (PadBytes (Config s))))"

partial_function (option) on_free_list :: "nat \<Rightarrow> memory \<Rightarrow> addr \<Rightarrow> addr \<Rightarrow> bool option"
  where
  "on_free_list n m temp_walk temp =
    (if temp_walk = 0 then Some False
     else if temp_walk = temp then Some True
     else on_free_list n m (load_ptr n m temp_walk) temp)"

text \<open>
  The walk over the pages: it leaves with the page that holds the object, throws at the
  page numbered \<^verbatim>\<open>PagesInUse_\<close>, or runs off the end of the list with a null page.
\<close>

function find_page ::
  "platform \<Rightarrow> ObjectAllocator \<Rightarrow> addr \<Rightarrow> addr \<Rightarrow> u32 \<Rightarrow> addr outcome" where
  "find_page P s temp temp_walk page =
    (if temp_walk = 0 then Return 0
     else if temp > temp_walk \<and> temp < temp_walk + unat (PageSize (Stats s))
     then Return temp_walk
     else if page = PagesInUse (Stats s) then Throw E_BAD_ADDRESS
     else find_page P s temp (load_ptr (ptr_size P) (mem s) temp_walk) (page + 1))"
  by pat_completeness auto
termination
proof -
  have step: "unat (k - (i + 1)) < unat (k - i)" if "i \<noteq> k" for i k :: u32
  proof -
    from that have nz: "k - i \<noteq> 0" by simp
    then have "1 \<le> k - i" by (simp add: word_le_nat_alt unat_gt_0 Suc_le_eq)
    then have "unat (k - i - 1) = unat (k - i) - unat (1::u32)" by (rule unat_sub)
    moreover from nz have "0 < unat (k - i)" by (simp add: unat_gt_0)
    moreover have "k - (i + 1) = k - i - 1" by simp
    ultimately have "unat (k - (i + 1)) = unat (k - i) - 1 \<and> 0 < unat (k - i)"
      by (simp only: unsigned_1 simp_thms)
    then show ?thesis by arith
  qed
  show ?thesis
    by (relation "measure (\<lambda>(P, s, temp, temp_walk, page).
          unat (PagesInUse (Stats s) - page))") (auto simp: step)
qed

primrec pads_left_ok :: "memory \<Rightarrow> byte \<Rightarrow> addr \<Rightarrow> nat \<Rightarrow> bool" where
  "pads_left_ok m pat p 0 = True"
| "pads_left_ok m pat p (Suc n) = (m (p - 1) = pat \<and> pads_left_ok m pat (p - 1) n)"

primrec pads_right_ok :: "memory \<Rightarrow> byte \<Rightarrow> addr \<Rightarrow> nat \<Rightarrow> bool" where
  "pads_right_ok m pat p 0 = True"
| "pads_right_ok m pat p (Suc n) = (m p = pat \<and> pads_right_ok m pat (Suc p) n)"

text \<open>
  With usage headers the first test reads the byte at \<^verbatim>\<open>header_check - PadBytes_\<close>. When
  that pointer is null or has wrapped around below the null pointer (a null or tiny
  \<^verbatim>\<open>Object\<close>), the read faults: \<open>Abort\<close>. The first block of the page is found in
  \<^verbatim>\<open>size_t\<close> and pointer arithmetic, the distance to it is cut to \<^verbatim>\<open>unsigned\<close>.
\<close>

definition ValidateObject :: "platform \<Rightarrow> ObjectAllocator \<Rightarrow> addr \<Rightarrow> unit outcome option"
  where
  "ValidateObject P s Object =
    (case (if HeaderBlocks (Config s) \<noteq> 0
           then Some (mem s (Object - unat (PadBytes (Config s))) = 0)
           else on_free_list (ptr_size P) (mem s) (free_list s) Object) of
       None \<Rightarrow> None
     | Some already_freed \<Rightarrow>
         Some
          (if HeaderBlocks (Config s) \<noteq> 0 \<and> Object \<le> unat (PadBytes (Config s))
           then Abort
           else if already_freed then Throw E_MULTIPLE_FREE
           else if page_list s = 0 then Throw E_BAD_ADDRESS
           else
             (case find_page P s Object (page_list s) 1 of
                Throw e \<Rightarrow> Throw e
              | Abort \<Rightarrow> Abort
              | Return temp_walk \<Rightarrow>
                  (let block = wrap P (int temp_walk + int (first_block_offset P s));
                       distance = (of_int (int Object - int block) :: u32);
                       stride = ObjectSize (Stats s) + chunk_size s
                   in if stride = 0 then Abort
                      else if distance mod stride \<noteq> 0 then Throw E_BAD_BOUNDARY
                      else if \<not> pads_left_ok (mem s) (PAD_PATTERN P) Object
                                 (unat (PadBytes (Config s)))
                      then Throw E_CORRUPTED_BLOCK
                      else if \<not> pads_right_ok (mem s) (PAD_PATTERN P)
                                 (Object + unat (ObjectSize (Stats s)))
                                 (unat (PadBytes (Config s)))
                      then Throw E_CORRUPTED_BLOCK
                      else Return ()))))"

section \<open>Free\<close>

definition count_deallocation :: "OAStats \<Rightarrow> OAStats" where
  "count_deallocation st =
    st\<lparr>FreeObjects := FreeObjects st + 1, Deallocations := Deallocations st + 1,
       ObjectsInUse := ObjectsInUse st - 1\<rparr>"

definition Free :: "platform \<Rightarrow> ObjectAllocator \<Rightarrow> addr \<Rightarrow> (unit outcome \<times> ObjectAllocator) option"
  where
  "Free P s Object =
    (if UseCPPMemManager (Config s)
     then Some (Return (), s\<lparr>Stats := count_deallocation (Stats s)\<rparr>)
     else
       (case (if DebugOn (Config s) then ValidateObject P s Object else Some (Return ())) of
          None \<Rightarrow> None
        | Some (Throw e) \<Rightarrow> Some (Throw e, s)
        | Some Abort \<Rightarrow> Some (Abort, s)
        | Some (Return u) \<Rightarrow>
            (let s1 = (if DebugOn (Config s)
                       then s\<lparr>mem := fill (mem s) (Object + ptr_size P)
                                (unat (ObjectSize (Stats s) - of_nat (ptr_size P)))
                                (FREED_PATTERN P)\<rparr>
                       else s);
                 s2 = (if HeaderBlocks (Config s1) \<noteq> 0
                       then s1\<lparr>mem := (mem s1)
                                (Object - unat (PadBytes (Config s1) + 1) := 0)\<rparr>
                       else s1)
             in if Object = 0 then Some (Abort, s2)
                else
                  (let s3 = (if free_list s2 = 0
                             then s2\<lparr>free_list := Object,
                                    mem := store_ptr (ptr_size P) (mem s2) Object 0\<rparr>
                             else s2\<lparr>mem := store_ptr (ptr_size P) (mem s2) Object
                                             (free_list s2),
                                    free_list := Object\<rparr>)
                   in Some (Return (), s3\<lparr>Stats := count_deallocation (Stats s3)\<rparr>)))))"

section \<open>DumpMemoryInUse\<close>

text \<open>
  The callback is modelled by the list of its calls, in order: each call is the pair of
  its arguments.
\<close>

type_synonym dump = "u32 \<times> (addr \<times> u32) list"

primrec dump_headers ::
  "platform \<Rightarrow> ObjectAllocator \<Rightarrow> nat \<Rightarrow> nat \<Rightarrow> addr \<Rightarrow> dump \<Rightarrow> dump" where
  "dump_headers P s 0 i temp_block d = d"
| "dump_headers P s (Suc n) i temp_block d =
    (let t = (if i = 0
              then wrap P (int temp_block + int (first_block_offset P s))
              else temp_block + unat (block_size s))
     in dump_headers P s n (Suc i) t
          (if mem s (wrap P (int t - int (unat (PadBytes (Config s))) - 1)) = 1
           then (fst d + 1, snd d @ [(t + unat (PadBytes (Config s)), ObjectSize (Stats s))])
           else d))"

partial_function (option) scan_free_list ::
  "nat \<Rightarrow> memory \<Rightarrow> addr \<Rightarrow> addr \<Rightarrow> bool \<Rightarrow> bool option" where
  "scan_free_list n m temp_free t_block being_used =
    (if temp_free = 0 then Some being_used
     else scan_free_list n m (load_ptr n m temp_free) t_block
            (if temp_free = t_block then False else being_used))"

primrec dump_scans ::
  "platform \<Rightarrow> ObjectAllocator \<Rightarrow> nat \<Rightarrow> nat \<Rightarrow> addr \<Rightarrow> dump \<Rightarrow> dump option" where
  "dump_scans P s 0 i temp_block d = Some d"
| "dump_scans P s (Suc n) i temp_block d =
    (let t = (if i = 0
              then wrap P (int temp_block + int (first_block_offset P s))
              else temp_block + unat (block_size s))
     in case scan_free_list (ptr_size P) (mem s) (free_list s) t True of
          None \<Rightarrow> None
        | Some being_used \<Rightarrow>
            dump_scans P s n (Suc i) t
              (if being_used then (fst d + 1, snd d @ [(t, ObjectSize (Stats s))]) else d))"

partial_function (option) dump_pages ::
  "platform \<Rightarrow> ObjectAllocator \<Rightarrow> addr \<Rightarrow> dump \<Rightarrow> dump option" where
  "dump_pages P s temp_page_list d =
    (if temp_page_list = 0 then Some d
     else
       (case (if HeaderBlocks (Config s) \<noteq> 0
              then Some (dump_headers P s (unat (ObjectsPerPage (Config s))) 0
                           temp_page_list d)
              else dump_scans P s (unat (ObjectsPerPage (Config s))) 0 temp_page_list d) of
          None \<Rightarrow> None
        | Some d1 \<Rightarrow> dump_pages P s (load_ptr (ptr_size P) (mem s) temp_page_list) d1))"

definition DumpMemoryInUse :: "platform \<Rightarrow> ObjectAllocator \<Rightarrow> dump option" where
  "DumpMemoryInUse P s = dump_pages P s (page_list s) (0, [])"

section \<open>Sequences of calls\<close>

text \<open>
  A client's calls, and the allocator after a sequence of them in which every call
  returned: \<open>None\<close> as soon as one throws, aborts or does not return.
\<close>

datatype call = CallAllocate | CallFree addr

fun run :: "platform \<Rightarrow> call list \<Rightarrow> ObjectAllocator \<Rightarrow> ObjectAllocator option" where
  "run P [] s = Some s"
| "run P (CallAllocate # cs) s =
    (case Allocate P s of Some (Return p, s1) \<Rightarrow> run P cs s1 | _ \<Rightarrow> None)"
| "run P (CallFree p # cs) s =
    (case Free P s p of Some (Return u, s1) \<Rightarrow> run P cs s1 | _ \<Rightarrow> None)"


section \<open>Vocabulary of the properties\<close>

definition page_fits :: "platform \<Rightarrow> u32 \<Rightarrow> OAConfig \<Rightarrow> bool" where
  "page_fits P ObjectSize' config \<longleftrightarrow>
     0 < ptr_size P \<and>
     unat (ObjectsPerPage config)
       * (unat ObjectSize' + 2 * unat (PadBytes config) + unat (HeaderBlocks config)
          + unat (Alignment config))
       + ptr_size P < 2 ^ 32"

primrec populate_upto :: "platform \<Rightarrow> nat \<Rightarrow> addr \<times> ObjectAllocator \<Rightarrow> addr \<times> ObjectAllocator"
  where
  "populate_upto P 0 ts = ts"
| "populate_upto P (Suc n) ts = populate_body P (of_nat n) (populate_upto P n ts)"

definition block_addr :: "platform \<Rightarrow> ObjectAllocator \<Rightarrow> addr \<Rightarrow> nat \<Rightarrow> addr" where
  "block_addr P s page i =
     page + ptr_size P + unat (chunk_size s - PadBytes (Config s))
       + i * unat (ObjectSize (Stats s) + chunk_size s)"

primrec free_list_is :: "nat \<Rightarrow> memory \<Rightarrow> addr \<Rightarrow> addr list \<Rightarrow> bool" where
  "free_list_is n m p [] = (p = 0)"
| "free_list_is n m p (x # xs) = (p = x \<and> x \<noteq> 0 \<and> free_list_is n m (load_ptr n m x) xs)"

definition blocks_upto :: "platform \<Rightarrow> ObjectAllocator \<Rightarrow> addr \<Rightarrow> nat \<Rightarrow> addr list" where
  "blocks_upto P s page n = rev (map (block_addr P s page) [0..<n])"

definition layout_ok :: "platform \<Rightarrow> ObjectAllocator \<Rightarrow> bool" where
  "layout_ok P s \<longleftrightarrow>
     chunk_size s = PadBytes (Config s) * 2 + HeaderBlocks (Config s) + Alignment (Config s)
     \<and> page_fits P (ObjectSize (Stats s)) (Config s)"

definition stride :: "ObjectAllocator \<Rightarrow> nat" where
  "stride s = unat (ObjectSize (Stats s)) + 2 * unat (PadBytes (Config s))
     + unat (HeaderBlocks (Config s)) + unat (Alignment (Config s))"

definition page_state :: "platform \<Rightarrow> ObjectAllocator \<Rightarrow> ObjectAllocator" where
  "page_state P s = (page_account P s)\<lparr>sys_new := tl (sys_new s)\<rparr>"

definition pages_created :: "addr list \<Rightarrow> ObjectAllocator \<Rightarrow> nat" where
  "pages_created sys s = length sys - length (sys_new s)"

fun allocations :: "call list \<Rightarrow> nat" where
  "allocations [] = 0"
| "allocations (CallAllocate # cs) = Suc (allocations cs)"
| "allocations (CallFree p # cs) = allocations cs"

fun releases :: "call list \<Rightarrow> nat" where
  "releases [] = 0"
| "releases (CallAllocate # cs) = releases cs"
| "releases (CallFree p # cs) = Suc (releases cs)"

definition page_ok :: "platform \<Rightarrow> ObjectAllocator \<Rightarrow> addr \<Rightarrow> bool" where
  "page_ok P s a \<longleftrightarrow>
     a \<noteq> 0 \<and> a + (unat (ObjectsPerPage (Config s)) * stride s + ptr_size P) \<le> 256 ^ ptr_size P"

definition alloc_inv :: "platform \<Rightarrow> addr list \<Rightarrow> ObjectAllocator \<Rightarrow> nat \<Rightarrow> nat \<Rightarrow> ObjectAllocator \<Rightarrow> bool"
  where
  "alloc_inv P sys r c f s \<longleftrightarrow>
     Config s = Config r \<and> ObjectSize (Stats s) = ObjectSize (Stats r)
     \<and> chunk_size s = chunk_size r
     \<and> PagesInUse (Stats s) = of_nat c \<and> FreeObjects (Stats s) = of_nat f
     \<and> 1 \<le> c \<and> f \<le> unat (ObjectsPerPage (Config r)) \<and> sys_new s = drop c sys
     \<and> (\<exists>a. free_list_is (ptr_size P) (mem s) (free_list s) (blocks_upto P r a f))"

definition pool_ok :: "platform \<Rightarrow> ObjectAllocator \<Rightarrow> bool" where
  "pool_ok P r \<longleftrightarrow>
     \<not> UseCPPMemManager (Config r) \<and> layout_ok P r \<and> 0 < ObjectsPerPage (Config r)
     \<and> ptr_size P \<le> unat (ObjectSize (Stats r))"

definition P64 :: platform where
  "P64 = \<lparr>ptr_size = 8, UNALLOCATED_PATTERN = 0xAA, ALLOCATED_PATTERN = 0xBB,
     FREED_PATTERN = 0xCC, PAD_PATTERN = 0xDD, ALIGN_PATTERN = 0xEE\<rparr>"

definition cfg_guarded :: OAConfig where
  "cfg_guarded = \<lparr>UseCPPMemManager = False, ObjectsPerPage = 2, MaxPages = 2,
     DebugOn = True, PadBytes = 2, HeaderBlocks = 1, Alignment = 0, LeftAlignSize = 0,
     InterAlignSize = 0\<rparr>"

definition M1 :: memory where
  "M1 = store_ptr 8 (store_ptr 8 (store_ptr 8
          (fill (fill (fill (fill (fill (fill (\<lambda>_. 0) 4104 1 0) 4105 2 0xDD) 4115 2 0xDD)
             4117 1 0) 4118 2 0xDD) 4128 2 0xDD)
          4096 0) 4107 0) 4120 4107"

definition S1 :: ObjectAllocator where
  "S1 = \<lparr>Config = cfg_guarded,
     Stats = \<lparr>ObjectSize = 8, PageSize = 34, FreeObjects = 2, ObjectsInUse = 0,
       PagesInUse = 1, MostObjects = 0, Allocations = 0, Deallocations = 0\<rparr>,
     chunk_size = 5, block_size = 13, page_list = 4096, free_list = 4120, mem = M1,
     sys_new = []\<rparr>"

definition M2 :: memory where "M2 = (fill M1 4120 8 0xBB)(4117 := 1)"

definition S2 :: ObjectAllocator where
  "S2 = S1\<lparr>free_list := 4107, mem := M2,
     Stats := \<lparr>ObjectSize = 8, PageSize = 34, FreeObjects = 1, ObjectsInUse = 1,
       PagesInUse = 1, MostObjects = 1, Allocations = 1, Deallocations = 0\<rparr>\<rparr>"

definition M3 :: memory where "M3 = store_ptr 8 (M2(4117 := 0)) 4120 4107"

definition S3 :: ObjectAllocator where
  "S3 = S2\<lparr>free_list := 4120, mem := M3,
     Stats := \<lparr>ObjectSize = 8, PageSize = 34, FreeObjects = 2, ObjectsInUse = 0,
       PagesInUse = 1, MostObjects = 1, Allocations = 1, Deallocations = 1\<rparr>\<rparr>"

definition M4 :: memory where "M4 = store_ptr 8 (M3(4117 := 0)) 4120 4120"

definition S4 :: ObjectAllocator where
  "S4 = S3\<lparr>mem := M4,
     Stats := \<lparr>ObjectSize = 8, PageSize = 34, FreeObjects = 3, ObjectsInUse = 0xFFFFFFFF,
       PagesInUse = 1, MostObjects = 1, Allocations = 1, Deallocations = 2\<rparr>\<rparr>"





definition cfg_wrap :: OAConfig where
  "cfg_wrap = \<lparr>UseCPPMemManager = False, ObjectsPerPage = 1, MaxPages = 1,
     DebugOn = False, PadBytes = 0, HeaderBlocks = 0, Alignment = 2147483641,
     LeftAlignSize = 0, InterAlignSize = 0\<rparr>"

definition W0 :: ObjectAllocator where
  "W0 = \<lparr>Config = cfg_wrap,
     Stats = \<lparr>ObjectSize = 2147483648, PageSize = 1, FreeObjects = 0, ObjectsInUse = 0,
       PagesInUse = 1, MostObjects = 0, Allocations = 0, Deallocations = 0\<rparr>,
     chunk_size = 2147483641, block_size = 4294967289, page_list = 4096,
     free_list = 2147487745,
     mem = store_ptr 8 (store_ptr 8 (\<lambda>_. 0) 4096 0) 2147487745 0,
     sys_new = []\<rparr>"

definition W1 :: ObjectAllocator where
  "W1 = W0\<lparr>Config := cfg_wrap\<lparr>LeftAlignSize := 2147483641, InterAlignSize := 2147483641\<rparr>,
     Stats := (Stats W0)\<lparr>FreeObjects := 2\<rparr>\<rparr>"

definition W2 :: ObjectAllocator where
  "W2 = W1\<lparr>free_list := 0,
     Stats := (Stats W1)\<lparr>FreeObjects := 1, ObjectsInUse := 1, Allocations := 1,
       MostObjects := 1\<rparr>\<rparr>"

text \<open>objects smaller than a pointer\<close>

definition cfg_tiny :: OAConfig where
  "cfg_tiny = \<lparr>UseCPPMemManager = False, ObjectsPerPage = 4, MaxPages = 1,
     DebugOn = False, PadBytes = 0, HeaderBlocks = 0, Alignment = 0,
     LeftAlignSize = 0, InterAlignSize = 0\<rparr>"

definition Y :: memory where
  "Y = store_ptr 8 (store_ptr 8 (store_ptr 8 (store_ptr 8 (store_ptr 8 (\<lambda>_. 0) 4096 0)
         4104 0) 4105 4104) 4106 4105) 4107 4106"

definition Y1 :: ObjectAllocator where
  "Y1 = \<lparr>Config = cfg_tiny,
     Stats = \<lparr>ObjectSize = 1, PageSize = 12, FreeObjects = 4, ObjectsInUse = 0,
       PagesInUse = 1, MostObjects = 0, Allocations = 0, Deallocations = 0\<rparr>,
     chunk_size = 0, block_size = 1, page_list = 4096, free_list = 4107, mem = Y,
     sys_new = []\<rparr>"

definition Y2 :: ObjectAllocator where
  "Y2 = Y1\<lparr>free_list := 4106,
     Stats := (Stats Y1)\<lparr>FreeObjects := 3, ObjectsInUse := 1, Allocations := 1,
       MostObjects := 1\<rparr>\<rparr>"

definition Y3 :: ObjectAllocator where
  "Y3 = Y1\<lparr>free_list := 1051145,
     Stats := (Stats Y1)\<lparr>FreeObjects := 2, ObjectsInUse := 2, Allocations := 2,
       MostObjects := 2\<rparr>\<rparr>"

definition Y4 :: ObjectAllocator where
  "Y4 = Y1\<lparr>free_list := 0,
     Stats := (Stats Y1)\<lparr>FreeObjects := 1, ObjectsInUse := 3, Allocations := 3,
       MostObjects := 3\<rparr>\<rparr>"

section \<open>More states of the guarded allocator\<close>

definition S2b :: ObjectAllocator where
  "S2b = S2\<lparr>free_list := 0, mem := (fill M2 4107 8 0xBB)(4104 := 1),
     Stats := \<lparr>ObjectSize = 8, PageSize = 34, FreeObjects = 0, ObjectsInUse = 2,
       PagesInUse = 1, MostObjects = 2, Allocations = 2, Deallocations = 0\<rparr>\<rparr>"

definition S2c :: ObjectAllocator where
  "S2c = S2b\<lparr>Stats := \<lparr>ObjectSize = 8, PageSize = 34, FreeObjects = 0, ObjectsInUse = 2,
       PagesInUse = 2, MostObjects = 2, Allocations = 2, Deallocations = 0\<rparr>\<rparr>"

definition S5 :: ObjectAllocator where
  "S5 = S3\<lparr>free_list := 4107, mem := (fill M3 4120 8 0xBB)(4117 := 1),
     Stats := \<lparr>ObjectSize = 8, PageSize = 34, FreeObjects = 1, ObjectsInUse = 1,
       PagesInUse = 1, MostObjects = 1, Allocations = 2, Deallocations = 1\<rparr>\<rparr>"

section \<open>Scenarios\<close>

text \<open>A fresh allocator, one block allocated, and that block released twice: what the
  second release does.\<close>

definition release_twice ::
  "platform \<Rightarrow> u32 \<Rightarrow> OAConfig \<Rightarrow> memory \<Rightarrow> addr list \<Rightarrow> unit outcome option" where
  "release_twice P os config m0 sys =
    (case ObjectAllocator_ctor P os config m0 sys of
       Some (Return u, s1) \<Rightarrow>
         (case Allocate P s1 of
            Some (Return p, s2) \<Rightarrow>
              (case Free P s2 p of
                 Some (Return v, s3) \<Rightarrow> map_option fst (Free P s3 p)
               | _ \<Rightarrow> None)
          | _ \<Rightarrow> None)
     | _ \<Rightarrow> None)"

text \<open>A fresh allocator and one block allocated: the pointer \<^verbatim>\<open>Allocate\<close> returned, and
  what \<^verbatim>\<open>DumpMemoryInUse\<close> then returns and passes to its callback.\<close>

definition dump_after_allocate ::
  "platform \<Rightarrow> u32 \<Rightarrow> OAConfig \<Rightarrow> memory \<Rightarrow> addr list \<Rightarrow> (addr \<times> dump) option" where
  "dump_after_allocate P os config m0 sys =
    (case ObjectAllocator_ctor P os config m0 sys of
       Some (Return u, s1) \<Rightarrow>
         (case Allocate P s1 of
            Some (Return p, s2) \<Rightarrow> map_option (Pair p) (DumpMemoryInUse P s2)
          | _ \<Rightarrow> None)
     | _ \<Rightarrow> None)"


definition cfg_pass :: OAConfig where
  "cfg_pass = \<lparr>UseCPPMemManager = True, ObjectsPerPage = 2, MaxPages = 2,
     DebugOn = True, PadBytes = 2, HeaderBlocks = 1, Alignment = 0, LeftAlignSize = 0,
     InterAlignSize = 0\<rparr>"

definition PT0 :: ObjectAllocator where
  "PT0 = \<lparr>Config = cfg_pass,
     Stats = \<lparr>ObjectSize = 8, PageSize = 0, FreeObjects = 0, ObjectsInUse = 0,
       PagesInUse = 0, MostObjects = 0, Allocations = 0, Deallocations = 0\<rparr>,
     chunk_size = 5, block_size = 13, page_list = 0, free_list = 0, mem = (\<lambda>_. 0),
     sys_new = [4096]\<rparr>"

definition PT1 :: ObjectAllocator where
  "PT1 = PT0\<lparr>sys_new := [],
     Stats := \<lparr>ObjectSize = 8, PageSize = 0, FreeObjects = 4294967295, ObjectsInUse = 1,
       PagesInUse = 0, MostObjects = 1, Allocations = 1, Deallocations = 0\<rparr>\<rparr>"

definition PT2 :: ObjectAllocator where
  "PT2 = PT1\<lparr>
     Stats := \<lparr>ObjectSize = 8, PageSize = 0, FreeObjects = 0, ObjectsInUse = 0,
       PagesInUse = 0, MostObjects = 1, Allocations = 1, Deallocations = 1\<rparr>\<rparr>"

definition page_bytes :: "platform \<Rightarrow> u32 \<Rightarrow> OAConfig \<Rightarrow> nat" where
  "page_bytes P os config =
     unat (ObjectsPerPage config)
       * (unat os + 2 * unat (PadBytes config) + unat (HeaderBlocks config)
          + unat (Alignment config))
       + ptr_size P"

definition cfg_many :: OAConfig where
  "cfg_many = \<lparr>UseCPPMemManager = False, ObjectsPerPage = 1, MaxPages = 0,
     DebugOn = False, PadBytes = 0, HeaderBlocks = 0, Alignment = 0, LeftAlignSize = 0,
     InterAlignSize = 0\<rparr>"

definition sys_many :: "addr list" where
  "sys_many = map (\<lambda>i. 4096 + 16 * i) [0..<2 ^ 32]"

section \<open>What a page looks like after its creation\<close>





section \<open>Properties\<close>

lemma fill_apply: "fill m p n v x = (if p \<le> x \<and> x < p + n then v else m x)"
  by (induction n arbitrary: m p) auto

lemma store_ptr_outside: "x < a \<or> a + n \<le> x \<Longrightarrow> store_ptr n m a q x = m x"
  by (induction n arbitrary: m a q) auto

lemma load_ptr_cong: "(\<And>k. k < n \<Longrightarrow> m' (a + k) = m (a + k)) \<Longrightarrow> load_ptr n m' a = load_ptr n m a"
proof (induction n arbitrary: a)
  case 0 then show ?case by simp
next
  case (Suc n)
  have "m' a = m a" using Suc.prems [of 0] by simp
  moreover have "load_ptr n m' (Suc a) = load_ptr n m (Suc a)"
  proof (rule Suc.IH)
    fix k assume "k < n"
    then show "m' (Suc a + k) = m (Suc a + k)" using Suc.prems [of "Suc k"] by simp
  qed
  ultimately show ?case by simp
qed

lemma load_store_same: "load_ptr n (store_ptr n m a q) a = q mod 256 ^ n"
proof (induction n arbitrary: m a q)
  case 0 then show ?case by simp
next
  case (Suc n)
  have "store_ptr n (m(a := of_nat q)) (Suc a) (q div 256) a = (of_nat q :: byte)"
    by (simp add: store_ptr_outside)
  moreover have "unat (of_nat q :: byte) = q mod 256"
    by (simp add: unat_of_nat)
  ultimately show ?case
    by (simp add: Suc.IH mod_mult2_eq)
qed

lemma load_store_other:
  "b + n \<le> a \<or> a + n \<le> b \<Longrightarrow> load_ptr n (store_ptr n m a q) b = load_ptr n m b"
  by (rule load_ptr_cong) (auto simp: store_ptr_outside)

lemma unat_of_nat_u32: "n < 2 ^ 32 \<Longrightarrow> unat (of_nat n :: u32) = n"
  by (simp add: unat_of_nat)

lemma populate_body_frame:
  "Config (snd (populate_body P i ts)) = Config (snd ts)"
  "Stats (snd (populate_body P i ts))
     = (Stats (snd ts))\<lparr>FreeObjects := FreeObjects (Stats (snd ts)) + 1\<rparr>"
  "chunk_size (snd (populate_body P i ts)) = chunk_size (snd ts)"
  "block_size (snd (populate_body P i ts)) = block_size (snd ts)"
  "page_list (snd (populate_body P i ts)) = page_list (snd ts)"
  "sys_new (snd (populate_body P i ts)) = sys_new (snd ts)"
  by (simp_all add: populate_body_def Let_def)

lemma populate_upto_frame:
  "Config (snd (populate_upto P n ts)) = Config (snd ts)"
  "Stats (snd (populate_upto P n ts))
     = (Stats (snd ts))\<lparr>FreeObjects := FreeObjects (Stats (snd ts)) + of_nat n\<rparr>"
  "chunk_size (snd (populate_upto P n ts)) = chunk_size (snd ts)"
  "block_size (snd (populate_upto P n ts)) = block_size (snd ts)"
  "page_list (snd (populate_upto P n ts)) = page_list (snd ts)"
  "sys_new (snd (populate_upto P n ts)) = sys_new (snd ts)"
  by (induction n) (simp_all add: populate_body_frame add.assoc)

lemma populate_unroll:
  assumes "n \<le> unat (ObjectsPerPage (Config (snd ts)))"
  shows "populate P 0 0 ts
    = populate P (of_nat n) (of_nat n * ObjectSize (Stats (snd ts))) (populate_upto P n ts)"
  using assms
proof (induction n)
  case 0
  then show ?case by simp
next
  case (Suc n)
  let ?K = "ObjectsPerPage (Config (snd ts))"
  from Suc.prems have n: "n < unat ?K" by simp
  have "unat ?K < 2 ^ 32" using unsigned_less [of ?K] by simp
  with n have "unat (of_nat n :: u32) = n" by (simp add: unat_of_nat_u32)
  with n have lt: "(of_nat n :: u32) < ?K" by (simp add: word_less_nat_alt)
  have "populate P 0 0 ts
      = populate P (of_nat n) (of_nat n * ObjectSize (Stats (snd ts))) (populate_upto P n ts)"
    using Suc by simp
  also have "\<dots> = populate P (of_nat n + 1)
       (of_nat n * ObjectSize (Stats (snd ts)) + ObjectSize (Stats (snd ts)))
       (populate_body P (of_nat n) (populate_upto P n ts))"
    using lt by (subst populate.simps) (simp add: populate_upto_frame)
  also have "\<dots> = populate P (of_nat (Suc n)) (of_nat (Suc n) * ObjectSize (Stats (snd ts)))
       (populate_upto P (Suc n) ts)"
    by (simp add: algebra_simps)
  finally show ?case .
qed

lemma populate_result:
  assumes "unat (ObjectsPerPage (Config (snd ts))) * unat (ObjectSize (Stats (snd ts)))
             < unat (PageSize (Stats (snd ts)))"
  shows "populate P 0 0 ts
    = Some (ObjectsPerPage (Config (snd ts)),
            snd (populate_upto P (unat (ObjectsPerPage (Config (snd ts)))) ts))"
proof -
  let ?K = "ObjectsPerPage (Config (snd ts))"
  let ?OS = "ObjectSize (Stats (snd ts))"
  let ?ts' = "populate_upto P (unat ?K) ts"
  have "unat (PageSize (Stats (snd ts))) < 2 ^ 32"
    using unsigned_less [of "PageSize (Stats (snd ts))"] by simp
  with assms have "unat ?K * unat ?OS < 2 ^ LENGTH(32)" by simp
  then have "unat (?K * ?OS) = unat ?K * unat ?OS" by (simp only: unat_mult_lem)
  with assms have "\<not> PageSize (Stats (snd ts)) \<le> ?K * ?OS"
    by (simp add: word_le_nat_alt)
  then have "populate P ?K (?K * ?OS) ?ts' = Some (?K, snd ?ts')"
    by (subst populate.simps) (simp add: populate_upto_frame)
  moreover have "populate P 0 0 ts = populate P (of_nat (unat ?K)) (of_nat (unat ?K) * ?OS) ?ts'"
    by (rule populate_unroll) simp
  ultimately show ?thesis by simp
qed

lemma free_list_is_frame:
  "free_list_is n m p xs \<Longrightarrow> (\<And>x k. x \<in> set xs \<Longrightarrow> k < n \<Longrightarrow> m' (x + k) = m (x + k))
    \<Longrightarrow> free_list_is n m' p xs"
proof (induction xs arbitrary: p)
  case Nil then show ?case by simp
next
  case (Cons x xs)
  have "load_ptr n m' x = load_ptr n m x"
    by (rule load_ptr_cong) (simp add: Cons.prems(2))
  with Cons show ?case by simp
qed

lemma page_setup_frame:
  "Config (snd (page_setup P s a)) = Config s"
  "Stats (snd (page_setup P s a)) = Stats s"
  "chunk_size (snd (page_setup P s a)) = chunk_size s"
  "block_size (snd (page_setup P s a)) = block_size s"
  "page_list (snd (page_setup P s a)) = a"
  "sys_new (snd (page_setup P s a)) = sys_new s"
  "free_list (snd (page_setup P s a)) = block_addr P s a 0"
  "fst (page_setup P s a) = block_addr P s a 0"
  by (simp_all add: page_setup_def Let_def block_addr_def)

lemma page_setup_chain:
  "0 < ptr_size P \<Longrightarrow>
   free_list_is (ptr_size P) (mem (snd (page_setup P s a))) (block_addr P s a 0)
     (blocks_upto P s a 1)"
  by (simp add: page_setup_def Let_def block_addr_def blocks_upto_def load_store_same)

lemma block_addr_frame:
  "Config s' = Config s \<Longrightarrow> ObjectSize (Stats s') = ObjectSize (Stats s)
    \<Longrightarrow> chunk_size s' = chunk_size s \<Longrightarrow> block_addr P s' = block_addr P s"
  by (simp add: block_addr_def fun_eq_iff)

lemma block_addr_Suc:
  "block_addr P s a (Suc i) = block_addr P s a i + unat (ObjectSize (Stats s) + chunk_size s)"
  by (simp add: block_addr_def)

lemma block_addr_mono:
  "i \<le> j \<Longrightarrow> block_addr P s a i + (j - i) * unat (ObjectSize (Stats s) + chunk_size s)
     = block_addr P s a j"
proof -
  assume "i \<le> j"
  then have "i * unat (ObjectSize (Stats s) + chunk_size s)
      + (j - i) * unat (ObjectSize (Stats s) + chunk_size s)
    = j * unat (ObjectSize (Stats s) + chunk_size s)"
    by (simp flip: add_mult_distrib)
  then show ?thesis by (simp add: block_addr_def)
qed

text \<open>The state after the first n rounds of the loop, n at most the blocks of a page.\<close>

lemma populate_upto_chain:
  fixes P s a
  defines "k \<equiv> unat (ObjectsPerPage (Config s))"
  defines "ts0 \<equiv> page_setup P s a"
  assumes ps: "0 < ptr_size P"
    and stride: "ptr_size P \<le> unat (ObjectSize (Stats s) + chunk_size s)"
    and range: "block_addr P s a (k - 1) < 256 ^ ptr_size P"
    and n: "n \<le> k" and k: "0 < k"
  shows "fst (populate_upto P n ts0) = block_addr P s a (min n (k - 1))
    \<and> free_list (snd (populate_upto P n ts0)) = block_addr P s a (min n (k - 1))
    \<and> free_list_is (ptr_size P) (mem (snd (populate_upto P n ts0)))
         (block_addr P s a (min n (k - 1))) (blocks_upto P s a (Suc (min n (k - 1))))"
  using n
proof (induction n)
  case 0
  then show ?case
    using page_setup_chain [OF ps, of s a]
    by (simp add: ts0_def page_setup_frame)
next
  case (Suc n)
  let ?ts = "populate_upto P n ts0"
  let ?s = "snd ?ts"
  let ?st = "unat (ObjectSize (Stats s) + chunk_size s)"
  from Suc.prems have nk: "n < k" by simp
  then have mn: "min n (k - 1) = n" by simp
  from Suc nk have IH: "fst ?ts = block_addr P s a n" "free_list ?s = block_addr P s a n"
    "free_list_is (ptr_size P) (mem ?s) (block_addr P s a n) (blocks_upto P s a (Suc n))"
    by (simp_all add: mn)
  have fr: "Config ?s = Config s" "ObjectSize (Stats ?s) = ObjectSize (Stats s)"
    "chunk_size ?s = chunk_size s"
    by (simp_all add: populate_upto_frame ts0_def page_setup_frame)
  have "unat (ObjectsPerPage (Config s)) < 2 ^ 32"
    using unsigned_less [of "ObjectsPerPage (Config s)"] by simp
  with nk have un: "unat (of_nat n :: u32) = n" by (simp add: unat_of_nat_u32 k_def)
  from k have "1 \<le> ObjectsPerPage (Config s)"
    by (simp add: word_le_nat_alt k_def)
  then have uk: "unat (ObjectsPerPage (Config s) - 1) = k - 1"
    by (simp add: unat_sub k_def)
  have cond: "(of_nat n :: u32) < ObjectsPerPage (Config s) - 1 \<longleftrightarrow> n < k - 1"
    by (simp add: word_less_nat_alt un uk)
  show ?case
  proof (cases "n < k - 1")
    case True
    then have m1: "min (Suc n) (k - 1) = Suc n" by simp
    let ?t = "block_addr P s a (Suc n)"
    have body: "populate_body P (of_nat n) ?ts
      = (?t, ?s\<lparr>mem := store_ptr (ptr_size P) (mem ?s) ?t (block_addr P s a n),
               free_list := ?t,
               Stats := (Stats ?s)\<lparr>FreeObjects := FreeObjects (Stats ?s) + 1\<rparr>\<rparr>)"
      using True by (simp add: populate_body_def Let_def cond fr IH block_addr_Suc)
    have "Suc n \<le> k - 1" using True by simp
    then have "block_addr P s a (Suc n) \<le> block_addr P s a (k - 1)"
      using block_addr_mono [of "Suc n" "k - 1" P s a] by linarith
    with range have tr: "?t < 256 ^ ptr_size P" by simp
    have "block_addr P s a n \<le> ?t" by (simp add: block_addr_Suc)
    with tr have lr: "block_addr P s a n mod 256 ^ ptr_size P = block_addr P s a n" by simp
    have tnz: "?t \<noteq> 0" using ps by (simp add: block_addr_def)
    have below: "x + ptr_size P \<le> ?t" if "x \<in> set (blocks_upto P s a (Suc n))" for x
    proof -
      from that obtain i where i: "i \<le> n" "x = block_addr P s a i"
        unfolding blocks_upto_def by (auto simp del: upt_Suc simp: less_Suc_eq_le)
      have "block_addr P s a i + (Suc n - i) * ?st = ?t"
        using i by (intro block_addr_mono) simp
      moreover have "1 * ?st \<le> (Suc n - i) * ?st"
        by (rule mult_le_mono1) (use i in simp)
      ultimately show ?thesis using stride i by linarith
    qed
    have "free_list_is (ptr_size P)
        (store_ptr (ptr_size P) (mem ?s) ?t (block_addr P s a n))
        (block_addr P s a n) (blocks_upto P s a (Suc n))"
    proof (rule free_list_is_frame [OF IH(3)])
      fix x k' assume "x \<in> set (blocks_upto P s a (Suc n))" "k' < ptr_size P"
      with below [of x] show "store_ptr (ptr_size P) (mem ?s) ?t (block_addr P s a n) (x + k')
          = mem ?s (x + k')"
        by (simp add: store_ptr_outside)
    qed
    then have "free_list_is (ptr_size P)
        (store_ptr (ptr_size P) (mem ?s) ?t (block_addr P s a n))
        ?t (blocks_upto P s a (Suc (Suc n)))"
      using tnz by (simp add: blocks_upto_def load_store_same lr)
    then show ?thesis
      using m1 by (simp add: body)
  next
    case False
    with nk have nk1: "n = k - 1" by simp
    then have m1: "min (Suc n) (k - 1) = n" by simp
    have body: "populate_body P (of_nat n) ?ts
      = (fst ?ts, ?s\<lparr>Stats := (Stats ?s)\<lparr>FreeObjects := FreeObjects (Stats ?s) + 1\<rparr>\<rparr>)"
      using False by (simp add: populate_body_def Let_def cond fr)
    show ?thesis
      using IH m1 by (simp add: body)
  qed
qed

lemma u32_of_nat_unat: "(of_nat (unat w) :: u32) = w"
  by simp

lemma unat_chunk_le:
  "layout_ok P s \<Longrightarrow> unat (chunk_size s)
     \<le> 2 * unat (PadBytes (Config s)) + unat (HeaderBlocks (Config s))
       + unat (Alignment (Config s))"
proof -
  assume "layout_ok P s"
  then have "chunk_size s = of_nat (2 * unat (PadBytes (Config s))
       + unat (HeaderBlocks (Config s)) + unat (Alignment (Config s)))"
    by (simp add: layout_ok_def)
  then have "unat (chunk_size s) = (2 * unat (PadBytes (Config s))
       + unat (HeaderBlocks (Config s)) + unat (Alignment (Config s))) mod 2 ^ 32"
    by (simp only: unat_of_nat) simp
  then show ?thesis by simp
qed

lemma page_size_unat:
  assumes "layout_ok P s"
  shows "unat (ObjectsPerPage (Config s) * ObjectSize (Stats s) + of_nat (ptr_size P)
            + ObjectsPerPage (Config s) * chunk_size s)
       = unat (ObjectsPerPage (Config s)) * unat (ObjectSize (Stats s)) + ptr_size P
            + unat (ObjectsPerPage (Config s)) * unat (chunk_size s)"
proof -
  let ?k = "unat (ObjectsPerPage (Config s))" and ?os = "unat (ObjectSize (Stats s))"
    and ?c = "unat (chunk_size s)"
  have "?k * ?c \<le> ?k * (2 * unat (PadBytes (Config s)) + unat (HeaderBlocks (Config s))
       + unat (Alignment (Config s)))"
    using unat_chunk_le [OF assms] by simp
  moreover have "?k * (?os + 2 * unat (PadBytes (Config s)) + unat (HeaderBlocks (Config s))
       + unat (Alignment (Config s))) + ptr_size P < 2 ^ 32"
    using assms by (simp add: layout_ok_def page_fits_def)
  ultimately have lt: "?k * ?os + ptr_size P + ?k * ?c < 2 ^ 32"
    by (simp add: algebra_simps)
  have "ObjectsPerPage (Config s) * ObjectSize (Stats s) + of_nat (ptr_size P)
            + ObjectsPerPage (Config s) * chunk_size s
     = (of_nat (?k * ?os + ptr_size P + ?k * ?c) :: u32)"
    by simp
  then show ?thesis using lt by (simp only: unat_of_nat_u32)
qed

lemma loop_exit:
  assumes "layout_ok P s"
  shows "unat (ObjectsPerPage (Config s)) * unat (ObjectSize (Stats s))
     < unat (ObjectsPerPage (Config s) * ObjectSize (Stats s) + of_nat (ptr_size P)
            + ObjectsPerPage (Config s) * chunk_size s)"
proof -
  from assms have "0 < ptr_size P" by (simp add: layout_ok_def page_fits_def)
  then show ?thesis by (simp add: page_size_unat [OF assms])
qed

text \<open>The arithmetic of a page with at least one block.\<close>

lemma layout_unat:
  assumes "layout_ok P s" and "0 < ObjectsPerPage (Config s)"
  shows "unat (chunk_size s) = 2 * unat (PadBytes (Config s))
            + unat (HeaderBlocks (Config s)) + unat (Alignment (Config s))"
    and "unat (chunk_size s - PadBytes (Config s)) = unat (PadBytes (Config s))
            + unat (HeaderBlocks (Config s)) + unat (Alignment (Config s))"
    and "unat (ObjectSize (Stats s) + chunk_size s) = stride s"
    and "unat (PadBytes (Config s) + 1) = unat (PadBytes (Config s)) + 1"
    and "stride s < 2 ^ 32"
proof -
  let ?k = "unat (ObjectsPerPage (Config s))"
  from assms(2) have k: "1 \<le> ?k" by (simp add: word_less_nat_alt)
  have fits: "?k * stride s + ptr_size P < 2 ^ 32" and ps: "0 < ptr_size P"
    using assms(1) by (simp_all add: layout_ok_def page_fits_def stride_def)
  have "stride s \<le> ?k * stride s"
    using mult_le_mono1 [OF k, of "stride s"] by (simp only: nat_mult_1)
  with fits ps show st: "stride s < 2 ^ 32" by linarith
  have c: "chunk_size s = of_nat (2 * unat (PadBytes (Config s))
       + unat (HeaderBlocks (Config s)) + unat (Alignment (Config s)))"
    using assms(1) by (simp add: layout_ok_def)
  have lt: "2 * unat (PadBytes (Config s))
       + unat (HeaderBlocks (Config s)) + unat (Alignment (Config s)) < 2 ^ 32"
    using st by (simp add: stride_def)
  show uc: "unat (chunk_size s) = 2 * unat (PadBytes (Config s))
            + unat (HeaderBlocks (Config s)) + unat (Alignment (Config s))"
    unfolding c by (rule unat_of_nat_u32 [OF lt])
  have "PadBytes (Config s) \<le> chunk_size s"
    by (simp add: word_le_nat_alt uc)
  then show "unat (chunk_size s - PadBytes (Config s)) = unat (PadBytes (Config s))
            + unat (HeaderBlocks (Config s)) + unat (Alignment (Config s))"
    by (simp add: unat_sub uc)
  have "ObjectSize (Stats s) + chunk_size s = (of_nat (stride s) :: u32)"
    by (simp add: stride_def c)
  with st show "unat (ObjectSize (Stats s) + chunk_size s) = stride s"
    by (simp only: unat_of_nat_u32)
  have "unat (PadBytes (Config s)) + unat (1::u32) < 2 ^ LENGTH(32)"
    using st by (simp add: stride_def)
  then have "unat (PadBytes (Config s) + 1) = unat (PadBytes (Config s)) + unat (1::u32)"
    by (simp only: unat_add_lem)
  then show "unat (PadBytes (Config s) + 1) = unat (PadBytes (Config s)) + 1" by simp
qed

lemma block_addr_eq:
  assumes "layout_ok P s" and "0 < ObjectsPerPage (Config s)"
  shows "block_addr P s a i = a + ptr_size P + unat (PadBytes (Config s))
            + unat (HeaderBlocks (Config s)) + unat (Alignment (Config s)) + i * stride s"
  by (simp add: block_addr_def layout_unat [OF assms])

lemma page_account_frame:
  "Config (page_account P s) = Config s"
  "Stats (page_account P s) = (Stats s)\<lparr>PageSize :=
       ObjectsPerPage (Config s) * ObjectSize (Stats s) + of_nat (ptr_size P)
        + ObjectsPerPage (Config s) * chunk_size s,
     PagesInUse := PagesInUse (Stats s) + 1\<rparr>"
  "chunk_size (page_account P s) = chunk_size s"
  "block_size (page_account P s) = block_size s"
  "page_list (page_account P s) = page_list s"
  "free_list (page_account P s) = free_list s"
  "mem (page_account P s) = mem s"
  "sys_new (page_account P s) = sys_new s"
  by (simp_all add: page_account_def Let_def)

lemma page_state_frame:
  "Config (page_state P s) = Config s"
  "Stats (page_state P s) = (Stats s)\<lparr>PageSize :=
       ObjectsPerPage (Config s) * ObjectSize (Stats s) + of_nat (ptr_size P)
        + ObjectsPerPage (Config s) * chunk_size s,
     PagesInUse := PagesInUse (Stats s) + 1\<rparr>"
  "chunk_size (page_state P s) = chunk_size s"
  "block_size (page_state P s) = block_size s"
  "sys_new (page_state P s) = tl (sys_new s)"
  by (simp_all add: page_state_def page_account_frame)

lemma AllocatePage_success:
  assumes lay: "layout_ok P s" and sys: "sys_new s = a # rest" and a: "a \<noteq> 0"
  shows "AllocatePage P s = Some (Return (),
     snd (populate_upto P (unat (ObjectsPerPage (Config s))) (page_setup P (page_state P s) a)))"
proof -
  let ?ts = "page_setup P (page_state P s) a"
  have nc: "new_char (page_account P s) = (a, page_state P s)"
    using sys by (simp add: new_char_def page_state_def page_account_frame)
  have "unat (ObjectsPerPage (Config (snd ?ts))) * unat (ObjectSize (Stats (snd ?ts)))
      < unat (PageSize (Stats (snd ?ts)))"
    using loop_exit [OF lay] by (simp add: page_setup_frame page_state_frame)
  then have "populate P 0 0 ?ts = Some (ObjectsPerPage (Config (snd ?ts)),
            snd (populate_upto P (unat (ObjectsPerPage (Config (snd ?ts)))) ?ts))"
    by (rule populate_result)
  then show ?thesis
    using a by (simp add: AllocatePage_def Let_def nc page_setup_frame page_state_frame)
qed

lemma AllocatePage_failure:
  assumes "sys_new s = [] \<or> hd (sys_new s) = 0"
  shows "AllocatePage P s = Some (Throw E_NO_MEMORY, (page_account P s)\<lparr>sys_new := tl (sys_new s)\<rparr>)"
  using assms
  by (cases "sys_new s") (auto simp: AllocatePage_def Let_def new_char_def page_account_frame)

lemma count_allocation_simps:
  "FreeObjects (count_allocation st) = FreeObjects st - 1"
  "ObjectsInUse (count_allocation st) = ObjectsInUse st + 1"
  "Allocations (count_allocation st) = Allocations st + 1"
  "Deallocations (count_allocation st) = Deallocations st"
  "PagesInUse (count_allocation st) = PagesInUse st"
  "PageSize (count_allocation st) = PageSize st"
  "ObjectSize (count_allocation st) = ObjectSize st"
  by (simp_all add: count_allocation_def Let_def)

lemma count_deallocation_simps:
  "FreeObjects (count_deallocation st) = FreeObjects st + 1"
  "ObjectsInUse (count_deallocation st) = ObjectsInUse st - 1"
  "Allocations (count_deallocation st) = Allocations st"
  "Deallocations (count_deallocation st) = Deallocations st + 1"
  "PagesInUse (count_deallocation st) = PagesInUse st"
  "PageSize (count_deallocation st) = PageSize st"
  "ObjectSize (count_deallocation st) = ObjectSize st"
  by (simp_all add: count_deallocation_def)

lemma pop_block_frame:
  assumes "pop_block P s = (Return p, s')"
  shows "Config s' = Config s" "Stats s' = count_allocation (Stats s)"
    "chunk_size s' = chunk_size s" "block_size s' = block_size s"
    "page_list s' = page_list s" "sys_new s' = sys_new s"
  using assms by (auto simp: pop_block_def Let_def split: if_splits)

lemma pop_block_no_throw: "pop_block P s \<noteq> (Throw e, s')"
  by (simp add: pop_block_def Let_def)

lemma AllocatePage_cases:
  assumes "AllocatePage P s = Some (r, s')"
  shows "(r = Throw E_NO_MEMORY \<and> s' = (page_account P s)\<lparr>sys_new := tl (sys_new s)\<rparr>
           \<and> (sys_new s = [] \<or> hd (sys_new s) = 0))
       \<or> (r = Return () \<and> sys_new s \<noteq> [] \<and> hd (sys_new s) \<noteq> 0
           \<and> (\<exists>i ts. populate P 0 0 (page_setup P (page_state P s) (hd (sys_new s))) = Some (i, s')))"
proof (cases "sys_new s = [] \<or> hd (sys_new s) = 0")
  case True
  with assms show ?thesis by (simp add: AllocatePage_failure)
next
  case False
  then obtain a rest where sys: "sys_new s = a # rest" and a: "a \<noteq> 0"
    by (cases "sys_new s") auto
  have nc: "new_char (page_account P s) = (a, page_state P s)"
    using sys by (simp add: new_char_def page_state_def page_account_frame)
  from assms a show ?thesis
    by (auto simp: AllocatePage_def Let_def nc sys)
qed

lemma layout_ok_cong:
  "Config s' = Config s \<Longrightarrow> chunk_size s' = chunk_size s
    \<Longrightarrow> ObjectSize (Stats s') = ObjectSize (Stats s) \<Longrightarrow> layout_ok P s' = layout_ok P s"
  by (simp add: layout_ok_def)

lemma AllocatePage_counts:
  assumes lay: "layout_ok P s" and ret: "AllocatePage P s = Some (Return u, s')"
  shows "Config s' = Config s" "chunk_size s' = chunk_size s" "block_size s' = block_size s"
    "Stats s' = (Stats s)\<lparr>PageSize :=
       ObjectsPerPage (Config s) * ObjectSize (Stats s) + of_nat (ptr_size P)
        + ObjectsPerPage (Config s) * chunk_size s,
       PagesInUse := PagesInUse (Stats s) + 1,
       FreeObjects := FreeObjects (Stats s) + ObjectsPerPage (Config s)\<rparr>"
    "sys_new s' = tl (sys_new s)" "page_list s' = hd (sys_new s)"
    "hd (sys_new s) \<noteq> 0" "sys_new s \<noteq> []"
proof -
  from AllocatePage_cases [OF ret] have ne: "sys_new s \<noteq> []" and a: "hd (sys_new s) \<noteq> 0"
    by auto
  then obtain b rest where sys: "sys_new s = b # rest"
    by (cases "sys_new s") auto
  with a have "b \<noteq> 0" by simp
  from AllocatePage_success [OF lay sys this] ret
  have s': "s' = snd (populate_upto P (unat (ObjectsPerPage (Config s)))
      (page_setup P (page_state P s) (hd (sys_new s))))"
    by (simp add: sys)
  show "Config s' = Config s" "chunk_size s' = chunk_size s" "block_size s' = block_size s"
    "page_list s' = hd (sys_new s)"
    by (simp_all add: s' populate_upto_frame page_setup_frame page_state_frame)
  show "Stats s' = (Stats s)\<lparr>PageSize :=
       ObjectsPerPage (Config s) * ObjectSize (Stats s) + of_nat (ptr_size P)
        + ObjectsPerPage (Config s) * chunk_size s,
       PagesInUse := PagesInUse (Stats s) + 1,
       FreeObjects := FreeObjects (Stats s) + ObjectsPerPage (Config s)\<rparr>"
    by (simp add: s' populate_upto_frame page_setup_frame page_state_frame)
  show "sys_new s' = tl (sys_new s)"
    by (simp add: s' populate_upto_frame page_setup_frame page_state_frame)
  show "hd (sys_new s) \<noteq> 0" by (rule a)
  show "sys_new s \<noteq> []" by (rule ne)
qed

lemma Allocate_counts:
  assumes np: "\<not> UseCPPMemManager (Config s)" and lay: "layout_ok P s"
    and ret: "Allocate P s = Some (Return p, s')"
  obtains c where "Config s' = Config s" "chunk_size s' = chunk_size s"
    "ObjectSize (Stats s') = ObjectSize (Stats s)"
    "ObjectsInUse (Stats s') = ObjectsInUse (Stats s) + 1"
    "length (sys_new s) = length (sys_new s') + c"
    "FreeObjects (Stats s') + 1
       = FreeObjects (Stats s) + of_nat c * ObjectsPerPage (Config s)"
    "PagesInUse (Stats s') = PagesInUse (Stats s) + of_nat c"
proof (cases "FreeObjects (Stats s) = 0")
  case False
  with np ret have "pop_block P s = (Return p, s')"
    by (simp add: Allocate_def)
  note f = pop_block_frame [OF this]
  show ?thesis
    by (rule that [of 0]) (simp_all add: f count_allocation_simps)
next
  case True
  have "\<exists>s1. AllocatePage P s = Some (Return (), s1) \<and> pop_block P s1 = (Return p, s')"
  proof (cases "AllocatePage P s")
    case None
    with np ret True show ?thesis by (simp add: Allocate_def split: if_splits)
  next
    case (Some rs)
    obtain r s1 where rs: "rs = (r, s1)" by (cases rs)
    show ?thesis
    proof (cases r)
      case (Return u)
      with np ret True Some rs show ?thesis by (simp add: Allocate_def split: if_splits)
    next
      case (Throw e)
      with np ret True Some rs show ?thesis by (simp add: Allocate_def split: if_splits)
    next
      case Abort
      with np ret True Some rs show ?thesis by (simp add: Allocate_def split: if_splits)
    qed
  qed
  then obtain s1 where ap: "AllocatePage P s = Some (Return (), s1)"
    and pb: "pop_block P s1 = (Return p, s')"
    by (elim exE conjE)
  note f1 = AllocatePage_counts [OF lay ap]
  note f2 = pop_block_frame [OF pb]
  have len: "length (sys_new s) = length (sys_new s') + 1"
    using f1(8) by (cases "sys_new s") (simp_all add: f1(5) f2)
  show ?thesis
    by (rule that [of 1]) (simp_all add: len f1(1-4) f2 count_allocation_simps)
qed

lemma Free_counts:
  assumes np: "\<not> UseCPPMemManager (Config s)"
    and ret: "Free P s p = Some (Return u, s')"
  shows "Config s' = Config s \<and> chunk_size s' = chunk_size s
    \<and> ObjectSize (Stats s') = ObjectSize (Stats s)
    \<and> ObjectsInUse (Stats s') = ObjectsInUse (Stats s) - 1
    \<and> FreeObjects (Stats s') = FreeObjects (Stats s) + 1
    \<and> PagesInUse (Stats s') = PagesInUse (Stats s)
    \<and> sys_new s' = sys_new s"
  using assms
  by (auto simp: Free_def Let_def count_deallocation_simps
      split: if_splits option.splits outcome.splits)

lemma run_counts:
  assumes "\<not> UseCPPMemManager (Config s)" and "layout_ok P s" and "run P cs s = Some s'"
  shows "Config s' = Config s \<and> layout_ok P s'
    \<and> length (sys_new s') \<le> length (sys_new s)
    \<and> ObjectsInUse (Stats s') + of_nat (releases cs)
         = ObjectsInUse (Stats s) + of_nat (allocations cs)
    \<and> FreeObjects (Stats s') + ObjectsInUse (Stats s')
         = FreeObjects (Stats s) + ObjectsInUse (Stats s)
           + of_nat (length (sys_new s) - length (sys_new s')) * ObjectsPerPage (Config s)
    \<and> PagesInUse (Stats s')
         = PagesInUse (Stats s) + of_nat (length (sys_new s) - length (sys_new s'))"
  using assms
proof (induction P cs s rule: run.induct)
  case (1 P s)
  then show ?case by simp
next
  case (2 P cs s)
  from "2.prems"(3) obtain p s1 where al: "Allocate P s = Some (Return p, s1)"
    and rest: "run P cs s1 = Some s'"
    by (auto split: option.splits outcome.splits)
  obtain c where
    a: "Config s1 = Config s" "chunk_size s1 = chunk_size s"
      "ObjectSize (Stats s1) = ObjectSize (Stats s)"
      "ObjectsInUse (Stats s1) = ObjectsInUse (Stats s) + 1"
      "length (sys_new s) = length (sys_new s1) + c"
      "FreeObjects (Stats s1) + 1 = FreeObjects (Stats s) + of_nat c * ObjectsPerPage (Config s)"
      "PagesInUse (Stats s1) = PagesInUse (Stats s) + of_nat c"
    by (rule Allocate_counts [OF "2.prems"(1,2) al])
  have lay1: "layout_ok P s1" using "2.prems"(2) a by (simp add: layout_ok_def)
  have np1: "\<not> UseCPPMemManager (Config s1)" using "2.prems"(1) a by simp
  from "2.IH" [OF al refl refl np1 lay1 rest]
  have ih: "Config s' = Config s1" "layout_ok P s'"
    "length (sys_new s') \<le> length (sys_new s1)"
    "ObjectsInUse (Stats s') + of_nat (releases cs)
         = ObjectsInUse (Stats s1) + of_nat (allocations cs)"
    "FreeObjects (Stats s') + ObjectsInUse (Stats s')
         = FreeObjects (Stats s1) + ObjectsInUse (Stats s1)
           + of_nat (length (sys_new s1) - length (sys_new s')) * ObjectsPerPage (Config s1)"
    "PagesInUse (Stats s')
         = PagesInUse (Stats s1) + of_nat (length (sys_new s1) - length (sys_new s'))"
    by simp_all
  have len: "length (sys_new s) - length (sys_new s')
      = (length (sys_new s1) - length (sys_new s')) + c"
    using a(5) ih(3) by simp
  have fo: "FreeObjects (Stats s1) + ObjectsInUse (Stats s1)
      = FreeObjects (Stats s) + ObjectsInUse (Stats s) + of_nat c * ObjectsPerPage (Config s)"
    using a(6) by (simp add: a(4) algebra_simps)
  have "ObjectsInUse (Stats s') + of_nat (releases (CallAllocate # cs))
         = ObjectsInUse (Stats s) + of_nat (allocations (CallAllocate # cs))"
    by (simp add: ih(4) a(4))
  moreover have "FreeObjects (Stats s') + ObjectsInUse (Stats s')
         = FreeObjects (Stats s) + ObjectsInUse (Stats s)
           + of_nat (length (sys_new s) - length (sys_new s')) * ObjectsPerPage (Config s)"
    by (simp add: ih(5) fo len a(1) distrib_right)
  moreover have "PagesInUse (Stats s')
         = PagesInUse (Stats s) + of_nat (length (sys_new s) - length (sys_new s'))"
    by (simp add: ih(6) a(7) len)
  moreover have "length (sys_new s') \<le> length (sys_new s)"
    using ih(3) a(5) by simp
  ultimately show ?case
    using ih(1,2) a(1) by simp
next
  case (3 P p cs s)
  from "3.prems"(3) obtain u s1 where fr: "Free P s p = Some (Return u, s1)"
    and rest: "run P cs s1 = Some s'"
    by (auto split: option.splits outcome.splits)
  from Free_counts [OF "3.prems"(1) fr] have
    a: "Config s1 = Config s" "chunk_size s1 = chunk_size s"
      "ObjectSize (Stats s1) = ObjectSize (Stats s)"
      "ObjectsInUse (Stats s1) = ObjectsInUse (Stats s) - 1"
      "FreeObjects (Stats s1) = FreeObjects (Stats s) + 1"
      "PagesInUse (Stats s1) = PagesInUse (Stats s)"
      "sys_new s1 = sys_new s"
    by simp_all
  have lay1: "layout_ok P s1" using "3.prems"(2) a by (simp add: layout_ok_def)
  have np1: "\<not> UseCPPMemManager (Config s1)" using "3.prems"(1) a by simp
  from "3.IH" [OF fr refl refl np1 lay1 rest]
  show ?case
    by (simp add: a algebra_simps)
qed

lemma ctor_init_simps:
  "Config (ctor_init os config m0 sys) = config\<lparr>LeftAlignSize := 0, InterAlignSize := 0\<rparr>"
  "Stats (ctor_init os config m0 sys) = OAStats_default\<lparr>ObjectSize := os\<rparr>"
  "chunk_size (ctor_init os config m0 sys)
     = PadBytes config * 2 + HeaderBlocks config + Alignment config"
  "block_size (ctor_init os config m0 sys)
     = os + (PadBytes config * 2 + HeaderBlocks config + Alignment config)"
  "page_list (ctor_init os config m0 sys) = 0"
  "free_list (ctor_init os config m0 sys) = 0"
  "mem (ctor_init os config m0 sys) = m0"
  "sys_new (ctor_init os config m0 sys) = sys"
  by (simp_all add: ctor_init_def Let_def OAConfig_default_def)

lemma ctor_init_layout:
  "page_fits P os config \<Longrightarrow> layout_ok P (ctor_init os config m0 sys)"
  by (simp add: layout_ok_def page_fits_def ctor_init_simps OAStats_default_def)

lemma ctor_cases:
  assumes "ObjectAllocator_ctor P os config m0 sys = Some (Return u, s)"
  shows "(UseCPPMemManager config \<and>
          s = (ctor_init os config m0 sys)\<lparr>Config := config\<lparr>LeftAlignSize := Alignment config,
                InterAlignSize := Alignment config\<rparr>\<rparr>)
       \<or> (\<not> UseCPPMemManager config \<and>
          (\<exists>s1. AllocatePage P (ctor_init os config m0 sys) = Some (Return (), s1)
             \<and> s = s1\<lparr>Config := (Config s1)\<lparr>LeftAlignSize := Alignment (Config s1),
                   InterAlignSize := Alignment (Config s1)\<rparr>\<rparr>))"
proof (cases "UseCPPMemManager config")
  case True
  with assms show ?thesis
    by (auto simp: ObjectAllocator_ctor_def Let_def ctor_init_simps)
next
  case False
  show ?thesis
  proof (cases "AllocatePage P (ctor_init os config m0 sys)")
    case None
    with assms False show ?thesis
      by (simp add: ObjectAllocator_ctor_def Let_def ctor_init_simps)
  next
    case (Some rs)
    obtain r s1 where rs: "rs = (r, s1)" by (cases rs)
    from assms False Some rs show ?thesis
      by (cases r) (simp_all add: ObjectAllocator_ctor_def Let_def ctor_init_simps)
  qed
qed

lemma ctor_pooled:
  assumes np: "\<not> UseCPPMemManager config" and fits: "page_fits P os config"
    and ret: "ObjectAllocator_ctor P os config m0 sys = Some (Return u, s)"
  shows "\<not> UseCPPMemManager (Config s)" "layout_ok P s"
    "ObjectsPerPage (Config s) = ObjectsPerPage config"
    "MaxPages (Config s) = MaxPages config"
    "PagesInUse (Stats s) = 1" "FreeObjects (Stats s) = ObjectsPerPage config"
    "ObjectsInUse (Stats s) = 0" "page_list s = hd sys" "hd sys \<noteq> 0" "sys \<noteq> []"
    "sys_new s = tl sys"
proof -
  from ctor_cases [OF ret] np obtain s1
    where ap: "AllocatePage P (ctor_init os config m0 sys) = Some (Return (), s1)"
      and s: "s = s1\<lparr>Config := (Config s1)\<lparr>LeftAlignSize := Alignment (Config s1),
                   InterAlignSize := Alignment (Config s1)\<rparr>\<rparr>"
    by auto
  note f = AllocatePage_counts [OF ctor_init_layout [OF fits] ap]
  show "\<not> UseCPPMemManager (Config s)" "ObjectsPerPage (Config s) = ObjectsPerPage config"
    "MaxPages (Config s) = MaxPages config"
    "PagesInUse (Stats s) = 1" "FreeObjects (Stats s) = ObjectsPerPage config"
    "ObjectsInUse (Stats s) = 0" "page_list s = hd sys" "hd sys \<noteq> 0" "sys \<noteq> []"
    "sys_new s = tl sys"
    using np f(7,8) by (simp_all add: s f(1-6) ctor_init_simps OAStats_default_def)
  have "layout_ok P s1"
    using ctor_init_layout [OF fits, of m0 sys]
    by (simp add: layout_ok_def f(1-4) ctor_init_simps)
  then show "layout_ok P s"
    by (simp add: s layout_ok_def page_fits_def)
qed

lemma stride_cong:
  "Config s' = Config s \<Longrightarrow> ObjectSize (Stats s') = ObjectSize (Stats s) \<Longrightarrow> stride s' = stride s"
  by (simp add: stride_def)

lemma block_addr_cong:
  "Config s' = Config s \<Longrightarrow> ObjectSize (Stats s') = ObjectSize (Stats s)
    \<Longrightarrow> chunk_size s' = chunk_size s \<Longrightarrow> block_addr P s' a i = block_addr P s a i"
  by (simp add: block_addr_def)

lemma blocks_upto_cong:
  "Config s' = Config s \<Longrightarrow> ObjectSize (Stats s') = ObjectSize (Stats s)
    \<Longrightarrow> chunk_size s' = chunk_size s \<Longrightarrow> blocks_upto P s' a n = blocks_upto P s a n"
  by (simp add: blocks_upto_def block_addr_cong [of s' s] cong: map_cong)

lemma blocks_upto_Suc:
  "blocks_upto P s a (Suc n) = block_addr P s a n # blocks_upto P s a n"
  by (simp add: blocks_upto_def)

lemma blocks_upto_mem:
  "x \<in> set (blocks_upto P s a n) \<longleftrightarrow> (\<exists>i<n. x = block_addr P s a i)"
  unfolding blocks_upto_def by (auto simp del: upt_Suc)

lemma AllocatePage_chain:
  assumes ok: "pool_ok P s" and sys: "sys_new s = a # rest" and pg: "page_ok P s a"
  shows "\<exists>s'. AllocatePage P s = Some (Return (), s')
    \<and> populate P 0 0 (page_setup P (page_state P s) a) = Some (ObjectsPerPage (Config s), s')
    \<and> free_list_is (ptr_size P) (mem s') (free_list s')
         (blocks_upto P s a (unat (ObjectsPerPage (Config s))))"
proof -
  let ?k = "unat (ObjectsPerPage (Config s))"
  let ?s3 = "page_state P s"
  from ok have lay: "layout_ok P s" and K: "0 < ObjectsPerPage (Config s)"
    and os: "ptr_size P \<le> unat (ObjectSize (Stats s))"
    by (simp_all add: pool_ok_def)
  from pg have a: "a \<noteq> 0" and range: "a + (?k * stride s + ptr_size P) \<le> 256 ^ ptr_size P"
    by (simp_all add: page_ok_def)
  from lay have ps: "0 < ptr_size P" by (simp add: layout_ok_def page_fits_def)
  from K have k: "0 < ?k" by (simp add: word_less_nat_alt)
  note lu = layout_unat [OF lay K]
  have fr: "Config ?s3 = Config s" "ObjectSize (Stats ?s3) = ObjectSize (Stats s)"
    "chunk_size ?s3 = chunk_size s"
    by (simp_all add: page_state_frame)
  have ba: "block_addr P ?s3 a i = block_addr P s a i" for i
    by (rule block_addr_cong [OF fr])
  have bu: "blocks_upto P ?s3 a n = blocks_upto P s a n" for n
    by (rule blocks_upto_cong [OF fr])
  have st: "ptr_size P \<le> unat (ObjectSize (Stats ?s3) + chunk_size ?s3)"
    using os by (simp add: fr lu stride_def)
  have "(?k - 1) * stride s + stride s = ?k * stride s"
    using k by (cases "?k") simp_all
  moreover have "unat (PadBytes (Config s)) + unat (HeaderBlocks (Config s))
      + unat (Alignment (Config s)) < stride s"
    using os ps by (simp add: stride_def)
  ultimately have "block_addr P s a (?k - 1) < a + (?k * stride s + ptr_size P)"
    by (simp add: block_addr_eq [OF lay K])
  with range have rg: "block_addr P ?s3 a (unat (ObjectsPerPage (Config ?s3)) - 1)
      < 256 ^ ptr_size P"
    by (simp add: ba fr)
  have kk: "0 < unat (ObjectsPerPage (Config ?s3))" using k by (simp add: fr)
  from populate_upto_chain [OF ps st rg order_refl kk]
  have ch: "free_list (snd (populate_upto P ?k (page_setup P ?s3 a))) = block_addr P s a (?k - 1)"
    "free_list_is (ptr_size P) (mem (snd (populate_upto P ?k (page_setup P ?s3 a))))
       (block_addr P s a (?k - 1)) (blocks_upto P s a ?k)"
    using k by (simp_all add: fr ba bu)
  let ?ts = "page_setup P ?s3 a"
  have "unat (ObjectsPerPage (Config (snd ?ts))) * unat (ObjectSize (Stats (snd ?ts)))
      < unat (PageSize (Stats (snd ?ts)))"
    using loop_exit [OF lay] by (simp add: page_setup_frame page_state_frame)
  then have pop: "populate P 0 0 ?ts = Some (ObjectsPerPage (Config s),
            snd (populate_upto P ?k ?ts))"
    using populate_result [of ?ts P] by (simp add: page_setup_frame fr)
  show ?thesis
    using AllocatePage_success [OF lay sys a] pop ch by simp
qed

lemma of_nat_u32_inj:
  "m < 2 ^ 32 \<Longrightarrow> n < 2 ^ 32 \<Longrightarrow> (of_nat m :: u32) = of_nat n \<Longrightarrow> m = n"
  by (metis unat_of_nat_u32)

lemma pop_step:
  assumes ok: "pool_ok P r" and inv: "alloc_inv P sys r c (Suc j) s"
  shows "\<exists>p s'. pop_block P s = (Return p, s') \<and> alloc_inv P sys r c j s'"
proof -
  from ok have lay: "layout_ok P r" and K: "0 < ObjectsPerPage (Config r)"
    and os: "ptr_size P \<le> unat (ObjectSize (Stats r))"
    by (simp_all add: pool_ok_def)
  note lu = layout_unat [OF lay K]
  from inv obtain a where
    fr: "Config s = Config r" "ObjectSize (Stats s) = ObjectSize (Stats r)"
      "chunk_size s = chunk_size r"
    and cnt: "PagesInUse (Stats s) = of_nat c" "FreeObjects (Stats s) = of_nat (Suc j)"
      "1 \<le> c" "Suc j \<le> unat (ObjectsPerPage (Config r))" "sys_new s = drop c sys"
    and ch: "free_list_is (ptr_size P) (mem s) (free_list s) (blocks_upto P r a (Suc j))"
    by (auto simp: alloc_inv_def)
  let ?t = "block_addr P r a j"
  from ch have fl: "free_list s = ?t" and tnz: "?t \<noteq> 0"
    and rest: "free_list_is (ptr_size P) (mem s) (load_ptr (ptr_size P) (mem s) ?t)
        (blocks_upto P r a j)"
    by (simp_all add: blocks_upto_Suc)
  let ?m3 = "if DebugOn (Config r)
      then fill (mem s) ?t (unat (ObjectSize (Stats r))) (ALLOCATED_PATTERN P) else mem s"
  let ?m4 = "if HeaderBlocks (Config r) \<noteq> 0
      then ?m3(?t - unat (PadBytes (Config r) + 1) := 1) else ?m3"
  have gap: "x + k' < ?t \<and> (HeaderBlocks (Config r) \<noteq> 0
        \<longrightarrow> x + k' < ?t - unat (PadBytes (Config r) + 1))"
    if x: "x \<in> set (blocks_upto P r a j)" and k': "k' < ptr_size P" for x k'
  proof -
    from x obtain i where i: "i < j" "x = block_addr P r a i"
      by (auto simp: blocks_upto_mem)
    have "Suc i * stride r \<le> j * stride r"
      by (rule mult_le_mono1) (use i in simp)
    then have le: "i * stride r + stride r \<le> j * stride r" by simp
    have st1: "ptr_size P \<le> stride r" using os by (simp add: stride_def)
    have st2: "ptr_size P + unat (PadBytes (Config r)) + 1 \<le> stride r"
      if "HeaderBlocks (Config r) \<noteq> 0"
    proof -
      from that have "0 < unat (HeaderBlocks (Config r))" by (simp add: unat_gt_0)
      with os show ?thesis by (simp add: stride_def)
    qed
    show ?thesis
      using le st1 st2 k' by (auto simp: i block_addr_eq [OF lay K] lu)
  qed
  have ch4: "free_list_is (ptr_size P) ?m4 (load_ptr (ptr_size P) (mem s) ?t)
        (blocks_upto P r a j)"
  proof (rule free_list_is_frame [OF rest])
    fix x k' assume "x \<in> set (blocks_upto P r a j)" "k' < ptr_size P"
    from gap [OF this] show "?m4 (x + k') = mem s (x + k')"
      by (auto simp: fill_apply)
  qed
  have "unat (ObjectsPerPage (Config r)) < 2 ^ 32"
    using unsigned_less [of "ObjectsPerPage (Config r)"] by simp
  let ?s' = "s\<lparr>free_list := load_ptr (ptr_size P) (mem s) ?t, mem := ?m4,
      Stats := count_allocation (Stats s)\<rparr>"
  have pb: "pop_block P s = (Return ?t, ?s')"
    using tnz by (simp add: pop_block_def Let_def fl fr)
  have "alloc_inv P sys r c j ?s'"
    using cnt ch4 fr by (auto simp: alloc_inv_def count_allocation_simps)
  with pb show ?thesis by blast
qed

lemma page_step:
  assumes ok: "pool_ok P r" and inv: "alloc_inv P sys r c 0 s"
    and c: "c < length sys" and pg: "page_ok P r (sys ! c)"
  shows "\<exists>s'. AllocatePage P s = Some (Return (), s')
    \<and> alloc_inv P sys r (Suc c) (unat (ObjectsPerPage (Config r))) s'"
proof -
  from inv have
    fr: "Config s = Config r" "ObjectSize (Stats s) = ObjectSize (Stats r)"
      "chunk_size s = chunk_size r"
    and cnt: "PagesInUse (Stats s) = of_nat c" "FreeObjects (Stats s) = 0"
      "1 \<le> c" "sys_new s = drop c sys"
    by (auto simp: alloc_inv_def)
  have oks: "pool_ok P s"
    using ok by (simp add: pool_ok_def layout_ok_def fr)
  have sys: "sys_new s = sys ! c # drop (Suc c) sys"
    using c by (simp add: cnt Cons_nth_drop_Suc)
  have pgs: "page_ok P s (sys ! c)"
    using pg by (simp add: page_ok_def fr stride_cong [OF fr(1,2)])
  from oks have lay: "layout_ok P s" by (simp add: pool_ok_def)
  from AllocatePage_chain [OF oks sys pgs] obtain s'
    where ap: "AllocatePage P s = Some (Return (), s')"
      and ch: "free_list_is (ptr_size P) (mem s') (free_list s')
         (blocks_upto P s (sys ! c) (unat (ObjectsPerPage (Config s))))"
    by blast
  note f = AllocatePage_counts [OF lay ap]
  have "blocks_upto P s (sys ! c) n = blocks_upto P r (sys ! c) n" for n
    by (rule blocks_upto_cong [OF fr])
  with ch have ch': "free_list_is (ptr_size P) (mem s') (free_list s')
         (blocks_upto P r (sys ! c) (unat (ObjectsPerPage (Config r))))"
    by (simp add: fr)
  have "alloc_inv P sys r (Suc c) (unat (ObjectsPerPage (Config r))) s'"
    unfolding alloc_inv_def
    using ch' by (auto simp: f(1-5) fr cnt drop_Suc tl_drop)
  with ap show ?thesis by blast
qed

lemma Allocate_step:
  assumes ok: "pool_ok P r" and inv: "alloc_inv P sys r c f s"
    and pg: "f = 0 \<Longrightarrow> of_nat c \<noteq> MaxPages (Config r) \<and> c < length sys \<and> page_ok P r (sys ! c)"
  shows "\<exists>p s'. Allocate P s = Some (Return p, s')
    \<and> alloc_inv P sys r (if f = 0 then Suc c else c)
         (if f = 0 then unat (ObjectsPerPage (Config r)) - 1 else f - 1) s'"
proof -
  let ?k = "unat (ObjectsPerPage (Config r))"
  from inv have fr: "Config s = Config r" and cnt: "PagesInUse (Stats s) = of_nat c"
    "FreeObjects (Stats s) = of_nat f" "f \<le> ?k"
    by (auto simp: alloc_inv_def)
  from ok have np: "\<not> UseCPPMemManager (Config s)" and K: "0 < ObjectsPerPage (Config r)"
    by (simp_all add: pool_ok_def fr)
  from K have k: "0 < ?k" by (simp add: word_less_nat_alt)
  have k32: "?k < 2 ^ 32" using unsigned_less [of "ObjectsPerPage (Config r)"] by simp
  show ?thesis
  proof (cases f)
    case 0
    from pg [OF 0] have mp: "of_nat c \<noteq> MaxPages (Config r)" and c: "c < length sys"
      and pok: "page_ok P r (sys ! c)" by simp_all
    from inv 0 have inv0: "alloc_inv P sys r c 0 s" by simp
    from page_step [OF ok inv0 c pok] obtain s1
      where ap: "AllocatePage P s = Some (Return (), s1)"
        and inv1: "alloc_inv P sys r (Suc c) ?k s1" by blast
    from k have "?k = Suc (?k - 1)" by simp
    with inv1 have "alloc_inv P sys r (Suc c) (Suc (?k - 1)) s1" by simp
    from pop_step [OF ok this] obtain p s'
      where pb: "pop_block P s1 = (Return p, s')"
        and inv': "alloc_inv P sys r (Suc c) (?k - 1) s'" by blast
    have "Allocate P s = Some (Return p, s')"
      using np mp by (simp add: Allocate_def cnt 0 fr ap pb)
    with inv' 0 show ?thesis by simp
  next
    case (Suc j)
    from cnt(3) k32 Suc have "unat (of_nat (Suc j) :: u32) = Suc j"
      by (intro unat_of_nat_u32) simp
    then have "(of_nat (Suc j) :: u32) \<noteq> 0"
      by (metis Zero_not_Suc unat_0)
    then have nz: "FreeObjects (Stats s) \<noteq> 0" unfolding cnt(2) Suc .
    from inv Suc have "alloc_inv P sys r c (Suc j) s" by simp
    from pop_step [OF ok this] obtain p s'
      where pb: "pop_block P s = (Return p, s')"
        and inv': "alloc_inv P sys r c j s'" by blast
    have "Allocate P s = Some (Return p, s')"
      using np nz by (simp add: Allocate_def pb)
    with inv' Suc show ?thesis by simp
  qed
qed

lemma alloc_many:
  assumes ok: "pool_ok P r"
    and avail: "\<And>c'. 1 \<le> c' \<Longrightarrow> c' < C \<Longrightarrow>
        of_nat c' \<noteq> MaxPages (Config r) \<and> c' < length sys \<and> page_ok P r (sys ! c')"
  shows "alloc_inv P sys r c f s \<Longrightarrow> c \<le> C
    \<Longrightarrow> c * unat (ObjectsPerPage (Config r)) - f + n \<le> C * unat (ObjectsPerPage (Config r))
    \<Longrightarrow> \<exists>s' c' f'. run P (replicate n CallAllocate) s = Some s' \<and> alloc_inv P sys r c' f' s'
          \<and> c' \<le> C
          \<and> c' * unat (ObjectsPerPage (Config r)) - f'
              = c * unat (ObjectsPerPage (Config r)) - f + n"
proof (induction n arbitrary: s c f)
  case 0
  then show ?case by auto
next
  case (Suc n)
  let ?k = "unat (ObjectsPerPage (Config r))"
  from ok have K: "0 < ObjectsPerPage (Config r)" by (simp add: pool_ok_def)
  then have k: "0 < ?k" by (simp add: word_less_nat_alt)
  from Suc.prems(1) have c1: "1 \<le> c" and fk: "f \<le> ?k" by (auto simp: alloc_inv_def)
  have "1 * ?k \<le> c * ?k" by (rule mult_le_mono1) (rule c1)
  then have ck: "?k \<le> c * ?k" by simp
  have step: "f = 0 \<Longrightarrow> of_nat c \<noteq> MaxPages (Config r) \<and> c < length sys \<and> page_ok P r (sys ! c)"
  proof -
    assume "f = 0"
    with Suc.prems(3) have "c * ?k < C * ?k" by linarith
    then have "c < C" by simp
    with avail [OF c1] show ?thesis by simp
  qed
  let ?c1 = "if f = 0 then Suc c else c"
  let ?f1 = "if f = 0 then ?k - 1 else f - 1"
  from Allocate_step [OF ok Suc.prems(1) step] obtain p s1
    where al: "Allocate P s = Some (Return p, s1)"
      and inv1: "alloc_inv P sys r ?c1 ?f1 s1"
    by blast
  have fck: "f \<le> c * ?k" using fk ck by linarith
  have sk: "Suc c * ?k = c * ?k + ?k" by simp
  have used: "?c1 * ?k - ?f1 = Suc (c * ?k - f)"
  proof (cases "f = 0")
    case True
    have "c * ?k + ?k - (?k - 1) = Suc (c * ?k)" using k by linarith
    with True sk show ?thesis by simp
  next
    case False
    then have "c * ?k - (f - 1) = Suc (c * ?k - f)" using fck by linarith
    with False show ?thesis by simp
  qed
  have cC: "?c1 \<le> C"
  proof (cases "f = 0")
    case True
    with Suc.prems(3) have "c * ?k < C * ?k" by linarith
    then have "c < C" by simp
    with True show ?thesis by simp
  next
    case False
    with Suc.prems(2) show ?thesis by simp
  qed
  have bound: "?c1 * ?k - ?f1 + n \<le> C * ?k"
    using Suc.prems(3) by (simp only: used)
  from Suc.IH [OF inv1 cC bound] obtain s' c' f'
    where "run P (replicate n CallAllocate) s1 = Some s'" "alloc_inv P sys r c' f' s'"
      "c' \<le> C" "c' * ?k - f' = ?c1 * ?k - ?f1 + n"
    by blast
  then show ?case
    using al used by (intro exI [of _ s'] exI [of _ c'] exI [of _ f']) simp
qed

lemma Allocate_page_limit:
  assumes "\<not> UseCPPMemManager (Config s)" and "FreeObjects (Stats s) = 0"
    and "PagesInUse (Stats s) = MaxPages (Config s)"
  shows "Allocate P s = Some (Throw E_NO_PAGES, s)"
  using assms by (simp add: Allocate_def)

lemma Allocate_page_limit_only:
  assumes "Allocate P s = Some (Throw E_NO_PAGES, s')"
  shows "PagesInUse (Stats s) = MaxPages (Config s)"
proof (rule ccontr)
  assume ne: "PagesInUse (Stats s) \<noteq> MaxPages (Config s)"
  have np: "\<not> UseCPPMemManager (Config s)"
    using assms by (auto simp: Allocate_def Let_def split: if_splits)
  show False
  proof (cases "FreeObjects (Stats s) = 0")
    case False
    with assms np show False by (simp add: Allocate_def pop_block_no_throw)
  next
    case True
    show False
    proof (cases "AllocatePage P s")
      case None
      with assms np True ne show False by (simp add: Allocate_def)
    next
      case (Some rs)
      obtain r s1 where rs: "rs = (r, s1)" by (cases rs)
      from AllocatePage_cases [of P s r s1] Some rs
      have "r = Throw E_NO_MEMORY \<or> r = Return ()" by auto
      with assms np True ne Some rs show False
        by (auto simp: Allocate_def pop_block_no_throw)
    qed
  qed
qed

text \<open>The constructed allocator, as the start of a run of allocations.\<close>

lemma ctor_alloc_inv:
  assumes np: "\<not> UseCPPMemManager config" and fits: "page_fits P os config"
    and K: "0 < ObjectsPerPage config" and os: "ptr_size P \<le> unat os"
    and sys: "sys = a # rest" and a: "a \<noteq> 0"
    and range: "a + (unat (ObjectsPerPage config)
        * (unat os + 2 * unat (PadBytes config) + unat (HeaderBlocks config)
           + unat (Alignment config)) + ptr_size P) \<le> 256 ^ ptr_size P"
  shows "\<exists>s0. ObjectAllocator_ctor P os config m0 sys = Some (Return (), s0)
    \<and> pool_ok P s0 \<and> alloc_inv P sys s0 1 (unat (ObjectsPerPage config)) s0
    \<and> Config s0 = config\<lparr>LeftAlignSize := Alignment config,
          InterAlignSize := Alignment config\<rparr>
    \<and> ObjectSize (Stats s0) = os"
proof -
  let ?i = "ctor_init os config m0 sys"
  have lay: "layout_ok P ?i" by (rule ctor_init_layout [OF fits])
  have oki: "pool_ok P ?i"
    using np K os lay by (simp add: pool_ok_def ctor_init_simps OAStats_default_def)
  have sysi: "sys_new ?i = a # rest" by (simp add: ctor_init_simps sys)
  have pgi: "page_ok P ?i a"
    using a range by (simp add: page_ok_def stride_def ctor_init_simps OAStats_default_def)
  from AllocatePage_chain [OF oki sysi pgi] obtain s1
    where ap: "AllocatePage P ?i = Some (Return (), s1)"
      and ch: "free_list_is (ptr_size P) (mem s1) (free_list s1)
         (blocks_upto P ?i a (unat (ObjectsPerPage (Config ?i))))"
    by blast
  note f = AllocatePage_counts [OF lay ap]
  let ?s0 = "s1\<lparr>Config := (Config s1)\<lparr>LeftAlignSize := Alignment (Config s1),
                   InterAlignSize := Alignment (Config s1)\<rparr>\<rparr>"
  have ctor: "ObjectAllocator_ctor P os config m0 sys = Some (Return (), ?s0)"
    using np by (simp add: ObjectAllocator_ctor_def Let_def ctor_init_simps ap)
  have cfg: "Config ?s0 = config\<lparr>LeftAlignSize := Alignment config,
          InterAlignSize := Alignment config\<rparr>"
    by (simp add: f(1) ctor_init_simps)
  have st: "Stats ?s0 = (Stats s1)" by simp
  have ok0: "pool_ok P ?s0"
    using oki
    by (simp add: pool_ok_def layout_ok_def page_fits_def f(1-4) ctor_init_simps
        OAStats_default_def)
  have "blocks_upto P ?s0 a n = blocks_upto P ?i a n" for n
    by (simp add: blocks_upto_def block_addr_def f(1-4) ctor_init_simps OAStats_default_def)
  with ch have ch0: "free_list_is (ptr_size P) (mem ?s0) (free_list ?s0)
         (blocks_upto P ?s0 a (unat (ObjectsPerPage config)))"
    by (simp add: ctor_init_simps)
  have "alloc_inv P sys ?s0 1 (unat (ObjectsPerPage config)) ?s0"
    unfolding alloc_inv_def
    using ch0
    by (auto simp: f(1-5) ctor_init_simps OAStats_default_def sys)
  with ctor ok0 cfg show ?thesis
    by (intro exI [of _ ?s0]) (simp add: f(4) ctor_init_simps OAStats_default_def)
qed

lemma stamp_simps:
  "fst (stamp mp n v) = fill (fst mp) (snd mp) (unat n) v"
  "snd (stamp mp n v) = snd mp + unat n"
  by (simp_all add: stamp_def)

lemma u32_succ: "i < (k::u32) \<Longrightarrow> unat (i + 1) = Suc (unat i)"
proof -
  assume "i < k"
  then have "unat i < unat k" by (simp add: word_less_nat_alt)
  moreover have "unat k < 2 ^ 32" using unsigned_less [of k] by simp
  ultimately have "unat i + unat (1::u32) < 2 ^ LENGTH(32)" by simp
  then have "unat (i + 1) = unat i + unat (1::u32)" by (simp only: unat_add_lem)
  then show ?thesis by simp
qed

lemma blocks_plain_unfold:
  assumes "\<not> DebugOn (Config s)"
  shows "SetSignatures_blocks P s i mp =
    (if i < ObjectsPerPage (Config s) \<and> i + 1 \<noteq> ObjectsPerPage (Config s)
     then SetSignatures_blocks P s (i + 1)
            (fill (fst mp) (snd mp + unat (ObjectSize (Stats s) + InterAlignSize (Config s)
                + PadBytes (Config s))) (unat (HeaderBlocks (Config s))) 0,
             snd mp + unat (ObjectSize (Stats s) + InterAlignSize (Config s)
                + PadBytes (Config s)) + unat (HeaderBlocks (Config s)))
     else fst mp)"
proof -
  have e: "i = ObjectsPerPage (Config s) - 1 \<longleftrightarrow> i + 1 = ObjectsPerPage (Config s)"
    by (simp add: eq_diff_eq)
  show ?thesis
    by (subst SetSignatures_blocks.simps)
      (simp add: assms e Let_def stamp_def del: SetSignatures_blocks.simps)
qed



lemma blocks_exit:
  "\<not> i < ObjectsPerPage (Config s) \<Longrightarrow> SetSignatures_blocks P s i mp = fst mp"
  by (subst SetSignatures_blocks.simps) (simp del: SetSignatures_blocks.simps)

lemma blocks_debug_unfold:
  fixes P s
  defines "ps \<equiv> ptr_size P"
    and "u \<equiv> unat (ObjectSize (Stats s) - of_nat (ptr_size P))"
    and "pd \<equiv> unat (PadBytes (Config s))"
    and "ia \<equiv> unat (InterAlignSize (Config s))"
    and "h \<equiv> unat (HeaderBlocks (Config s))"
  assumes dbg: "DebugOn (Config s)" and i: "i < ObjectsPerPage (Config s)"
  shows "SetSignatures_blocks P s i (m, p) =
    (if i + 1 = ObjectsPerPage (Config s)
     then fill (fill m (p + ps) u (UNALLOCATED_PATTERN P)) (p + ps + u) pd (PAD_PATTERN P)
     else SetSignatures_blocks P s (i + 1)
       (fill (fill (fill (fill (fill m (p + ps) u (UNALLOCATED_PATTERN P))
                (p + ps + u) pd (PAD_PATTERN P))
             (p + ps + u + pd) ia (ALIGN_PATTERN P))
          (p + ps + u + pd + ia) h 0)
          (p + ps + u + pd + ia + h) pd (PAD_PATTERN P),
        p + ps + u + pd + ia + h + pd))"
proof -
  have e: "i = ObjectsPerPage (Config s) - 1 \<longleftrightarrow> i + 1 = ObjectsPerPage (Config s)"
    by (simp add: eq_diff_eq)
  show ?thesis
  proof (cases "i + 1 = ObjectsPerPage (Config s)")
    case True
    then have x: "\<not> i + 1 < ObjectsPerPage (Config s)" by simp
    show ?thesis
      by (subst SetSignatures_blocks.simps)
        (simp add: dbg i e True Let_def stamp_def blocks_exit ps_def u_def pd_def
          del: SetSignatures_blocks.simps)
  next
    case False
    show ?thesis
      by (subst SetSignatures_blocks.simps)
        (simp add: dbg i e False Let_def stamp_def ps_def u_def pd_def ia_def h_def
          add.assoc del: SetSignatures_blocks.simps)
  qed
qed

lemma blocks_debug_frame:
  assumes dbg: "DebugOn (Config s)" and x: "x < p + ptr_size P"
  shows "SetSignatures_blocks P s i (m, p) x = m x"
  using x
proof (induction "unat (ObjectsPerPage (Config s)) - unat i" arbitrary: i m p)
  case 0
  then have "\<not> i < ObjectsPerPage (Config s)" by (simp add: word_less_nat_alt)
  then show ?case by (simp add: blocks_exit del: SetSignatures_blocks.simps)
next
  case (Suc n)
  show ?case
  proof (cases "i < ObjectsPerPage (Config s)")
    case False
    then show ?thesis by (simp add: blocks_exit del: SetSignatures_blocks.simps)
  next
    case True
    show ?thesis
    proof (cases "i + 1 = ObjectsPerPage (Config s)")
      case last: True
      show ?thesis
        using Suc.prems
        by (simp add: blocks_debug_unfold [OF dbg True] last fill_apply
            del: SetSignatures_blocks.simps)
    next
      case more: False
      from True have "unat (i + 1) = Suc (unat i)"
        using u32_succ [of i "ObjectsPerPage (Config s)"] by simp
      with Suc(2) have n: "n = unat (ObjectsPerPage (Config s)) - unat (i + 1)" by simp
      show ?thesis
        using Suc.prems
        by (simp add: blocks_debug_unfold [OF dbg True] more Suc(1) [OF n] fill_apply
            del: SetSignatures_blocks.simps)
    qed
  qed
qed



lemma populate_upto_mem:
  fixes P s a
  defines "k \<equiv> unat (ObjectsPerPage (Config s))"
  defines "ts0 \<equiv> page_setup P s a"
  assumes k: "0 < k" and n: "n \<le> k"
    and x: "\<And>i. i < k \<Longrightarrow> x < block_addr P s a i \<or> block_addr P s a i + ptr_size P \<le> x"
  shows "fst (populate_upto P n ts0) = block_addr P s a (min n (k - 1))
    \<and> mem (snd (populate_upto P n ts0)) x = mem (snd ts0) x"
  using n
proof (induction n)
  case 0
  then show ?case by (simp add: ts0_def page_setup_frame)
next
  case (Suc n)
  let ?ts = "populate_upto P n ts0"
  let ?s = "snd ?ts"
  from Suc.prems have nk: "n < k" by simp
  then have mn: "min n (k - 1) = n" by simp
  from Suc nk have IH: "fst ?ts = block_addr P s a n" "mem ?s x = mem (snd ts0) x"
    by (simp_all add: mn)
  have fr: "Config ?s = Config s" "ObjectSize (Stats ?s) = ObjectSize (Stats s)"
    "chunk_size ?s = chunk_size s"
    by (simp_all add: populate_upto_frame ts0_def page_setup_frame)
  have "unat (ObjectsPerPage (Config s)) < 2 ^ 32"
    using unsigned_less [of "ObjectsPerPage (Config s)"] by simp
  with nk have un: "unat (of_nat n :: u32) = n" by (simp add: unat_of_nat_u32 k_def)
  from k have "1 \<le> ObjectsPerPage (Config s)"
    by (simp add: word_le_nat_alt k_def)
  then have uk: "unat (ObjectsPerPage (Config s) - 1) = k - 1"
    by (simp add: unat_sub k_def)
  have cond: "(of_nat n :: u32) < ObjectsPerPage (Config s) - 1 \<longleftrightarrow> n < k - 1"
    by (simp add: word_less_nat_alt un uk)
  show ?case
  proof (cases "n < k - 1")
    case True
    then have m1: "min (Suc n) (k - 1) = Suc n" by simp
    let ?t = "block_addr P s a (Suc n)"
    have body: "populate_body P (of_nat n) ?ts
      = (?t, ?s\<lparr>mem := store_ptr (ptr_size P) (mem ?s) ?t (free_list ?s),
               free_list := ?t,
               Stats := (Stats ?s)\<lparr>FreeObjects := FreeObjects (Stats ?s) + 1\<rparr>\<rparr>)"
      using True by (simp add: populate_body_def Let_def cond fr IH block_addr_Suc)
    from True have "Suc n < k" by simp
    from x [OF this] have "store_ptr (ptr_size P) (mem ?s) ?t (free_list ?s) x = mem ?s x"
      by (rule store_ptr_outside)
    then show ?thesis
      using m1 IH by (simp add: body)
  next
    case False
    with nk have nk1: "n = k - 1" by simp
    then have m1: "min (Suc n) (k - 1) = n" by simp
    have body: "populate_body P (of_nat n) ?ts
      = (fst ?ts, ?s\<lparr>Stats := (Stats ?s)\<lparr>FreeObjects := FreeObjects (Stats ?s) + 1\<rparr>\<rparr>)"
      using False by (simp add: populate_body_def Let_def cond fr)
    show ?thesis
      using IH m1 by (simp add: body)
  qed
qed

lemma page_setup_mem:
  assumes "x < a \<or> a + ptr_size P \<le> x"
    and "x < block_addr P s a 0 \<or> block_addr P s a 0 + ptr_size P \<le> x"
  shows "mem (snd (page_setup P s a)) x = SetSignatures P s a x"
  using assms by (simp add: page_setup_def Let_def block_addr_def store_ptr_outside)

lemma page_state_mem: "mem (page_state P s) = mem s"
  by (simp add: page_state_def page_account_frame)

text \<open>The memory after a page was created: outside the link words, what
  \<^verbatim>\<open>SetSignatures\<close> left.\<close>

lemma AllocatePage_mem:
  fixes P s a
  defines "k \<equiv> unat (ObjectsPerPage (Config s))"
  assumes lay: "layout_ok P s" and k: "0 < k"
    and sys: "sys_new s = a # rest" and a: "a \<noteq> 0"
  obtains s' where "AllocatePage P s = Some (Return (), s')"
    and "\<And>x. x < a \<or> a + ptr_size P \<le> x
          \<Longrightarrow> (\<And>i. i < k \<Longrightarrow> x < block_addr P s a i \<or> block_addr P s a i + ptr_size P \<le> x)
          \<Longrightarrow> mem s' x = SetSignatures P (page_state P s) a x"
proof -
  let ?s3 = "page_state P s"
  let ?s' = "snd (populate_upto P k (page_setup P ?s3 a))"
  have ba: "block_addr P ?s3 a i = block_addr P s a i" for i
    by (rule block_addr_cong) (simp_all add: page_state_frame)
  have k3: "unat (ObjectsPerPage (Config ?s3)) = k" by (simp add: page_state_frame k_def)
  have 1: "AllocatePage P s = Some (Return (), ?s')"
    unfolding k_def by (rule AllocatePage_success [OF lay sys a])
  have 2: "mem ?s' x = SetSignatures P ?s3 a x"
    if xa: "x < a \<or> a + ptr_size P \<le> x"
      and xb: "\<And>i. i < k \<Longrightarrow> x < block_addr P s a i \<or> block_addr P s a i + ptr_size P \<le> x"
    for x
  proof -
    have "mem ?s' x = mem (snd (page_setup P ?s3 a)) x"
      using populate_upto_mem [where s = ?s3 and n = k and P = P and x = x and a = a] k xb
      by (simp add: k3 ba)
    moreover have "mem (snd (page_setup P ?s3 a)) x = SetSignatures P ?s3 a x"
      using xa xb [OF k] by (intro page_setup_mem) (simp_all add: ba)
    ultimately show ?thesis by simp
  qed
  from 1 2 show thesis by (rule that)
qed

lemma blocks_debug_above:
  fixes P s
  defines "ps \<equiv> ptr_size P"
    and "u \<equiv> unat (ObjectSize (Stats s) - of_nat (ptr_size P))"
    and "pd \<equiv> unat (PadBytes (Config s))"
    and "ia \<equiv> unat (InterAlignSize (Config s))"
    and "h \<equiv> unat (HeaderBlocks (Config s))"
  assumes dbg: "DebugOn (Config s)"
    and x: "p + (unat (ObjectsPerPage (Config s)) - unat i) * (ps + u + pd + ia + h + pd)
              \<le> x + (ia + h + pd)"
  shows "SetSignatures_blocks P s i (m, p) x = m x"
  using x
proof (induction "unat (ObjectsPerPage (Config s)) - unat i" arbitrary: i m p)
  case 0
  then have "\<not> i < ObjectsPerPage (Config s)" by (simp add: word_less_nat_alt)
  then show ?case by (simp add: blocks_exit del: SetSignatures_blocks.simps)
next
  case (Suc n)
  let ?K = "ObjectsPerPage (Config s)"
  let ?D = "ps + u + pd + ia + h + pd"
  from Suc(2) have i: "i < ?K" by (simp add: word_less_nat_alt)
  then have si: "unat (i + 1) = Suc (unat i)" using u32_succ [of i ?K] by simp
  with Suc(2) have n: "n = unat ?K - unat (i + 1)" by simp
  from Suc(2) Suc.prems have xs: "p + Suc n * ?D \<le> x + (ia + h + pd)" by simp
  show ?case
  proof (cases "i + 1 = ?K")
    case True
    with si Suc(2) have "n = 0" by simp
    with xs have "p + ps + u + pd \<le> x" by simp
    moreover have "SetSignatures_blocks P s i (m, p)
        = fill (fill m (p + ps) u (UNALLOCATED_PATTERN P)) (p + ps + u) pd (PAD_PATTERN P)"
      unfolding ps_def u_def pd_def
      by (subst blocks_debug_unfold [OF dbg i]) (simp add: True
          del: SetSignatures_blocks.simps)
    ultimately show ?thesis by (simp add: fill_apply)
  next
    case False
    then have "unat (i + 1) \<noteq> unat ?K" by (simp add: word_unat_eq_iff)
    with i si have "Suc (unat i) < unat ?K" by (simp add: word_less_nat_alt)
    with Suc(2) obtain n' where n': "n = Suc n'" by (cases n) simp_all
    let ?m6 = "fill (fill (fill (fill (fill m (p + ps) u (UNALLOCATED_PATTERN P))
                (p + ps + u) pd (PAD_PATTERN P))
             (p + ps + u + pd) ia (ALIGN_PATTERN P))
          (p + ps + u + pd + ia) h 0)
          (p + ps + u + pd + ia + h) pd (PAD_PATTERN P)"
    have eq: "SetSignatures_blocks P s i (m, p)
        = SetSignatures_blocks P s (i + 1) (?m6, p + ?D)"
      unfolding ps_def u_def pd_def ia_def h_def
      by (subst blocks_debug_unfold [OF dbg i]) (simp add: False add.assoc
          del: SetSignatures_blocks.simps)
    have "p + ?D + (unat ?K - unat (i + 1)) * ?D \<le> x + (ia + h + pd)"
      using xs n by simp
    from Suc(1) [OF n this] have "SetSignatures_blocks P s (i + 1) (?m6, p + ?D) x = ?m6 x" .
    moreover have "p + ?D \<le> x" using xs n' by simp
    then have "?m6 x = m x" by (simp add: fill_apply)
    ultimately show ?thesis by (simp only: eq)
  qed
qed

lemma unat_sum3_le: "unat (a + b + c :: u32) \<le> unat a + unat b + unat c"
proof -
  have "unat (a + b + c) \<le> unat (a + b) + unat c"
    by (simp add: unat_word_ariths(1))
  moreover have "unat (a + b) \<le> unat a + unat b"
    by (simp add: unat_word_ariths(1))
  ultimately show ?thesis by simp
qed

lemma blocks_plain_frame:
  fixes P s
  defines "dm \<equiv> unat (ObjectSize (Stats s)) + unat (InterAlignSize (Config s))
      + unat (PadBytes (Config s)) + unat (HeaderBlocks (Config s))"
  assumes nd: "\<not> DebugOn (Config s)"
    and x: "x < p \<or> p + (unat (ObjectsPerPage (Config s)) - 1 - unat i) * dm \<le> x"
  shows "SetSignatures_blocks P s i (m, p) x = m x"
  using x
proof (induction "unat (ObjectsPerPage (Config s)) - unat i" arbitrary: i m p)
  case 0
  then have "\<not> i < ObjectsPerPage (Config s)" by (simp add: word_less_nat_alt)
  then show ?case by (simp add: blocks_exit del: SetSignatures_blocks.simps)
next
  case (Suc n)
  let ?K = "ObjectsPerPage (Config s)"
  let ?d = "unat (ObjectSize (Stats s) + InterAlignSize (Config s) + PadBytes (Config s))"
  let ?h = "unat (HeaderBlocks (Config s))"
  from Suc(2) have i: "i < ?K" by (simp add: word_less_nat_alt)
  then have si: "unat (i + 1) = Suc (unat i)" using u32_succ [of i ?K] by simp
  with Suc(2) have n: "n = unat ?K - unat (i + 1)" by simp
  show ?case
  proof (cases "i + 1 = ?K")
    case True
    with i show ?thesis
      by (subst blocks_plain_unfold [OF nd]) simp
  next
    case False
    then have "unat (i + 1) \<noteq> unat ?K" by (simp add: word_unat_eq_iff)
    with i si have lt: "Suc (unat i) < unat ?K" by (simp add: word_less_nat_alt)
    have eq: "SetSignatures_blocks P s i (m, p)
        = SetSignatures_blocks P s (i + 1) (fill m (p + ?d) ?h 0, p + ?d + ?h)"
      using i False by (subst blocks_plain_unfold [OF nd]) simp
    have d: "?d + ?h \<le> dm" using unat_sum3_le [of "ObjectSize (Stats s)"
        "InterAlignSize (Config s)" "PadBytes (Config s)"] by (simp add: dm_def)
    from lt obtain r where r: "unat ?K - 1 - unat i = Suc r"
      and r': "unat ?K - 1 - unat (i + 1) = r"
      using si by (cases "unat ?K - 1 - unat i") simp_all
    from Suc.prems r have c: "x < p \<or> p + dm + r * dm \<le> x" by (simp add: add.assoc)
    have "x < p + ?d + ?h \<or> p + ?d + ?h + (unat ?K - 1 - unat (i + 1)) * dm \<le> x"
      using c d unfolding r' by linarith
    from Suc(1) [OF n this]
    have "SetSignatures_blocks P s (i + 1) (fill m (p + ?d) ?h 0, p + ?d + ?h) x
        = fill m (p + ?d) ?h 0 x" .
    moreover have "x < p + ?d \<or> p + ?d + ?h \<le> x" using c d by linarith
    then have "fill m (p + ?d) ?h 0 x = m x" by (auto simp add: fill_apply)
    ultimately show ?thesis by (simp only: eq)
  qed
qed

lemma SetSignatures_frame:
  fixes P s a
  defines "k \<equiv> unat (ObjectsPerPage (Config s))"
  defines "st \<equiv> unat (ObjectSize (Stats s)) + 2 * unat (PadBytes (Config s))
      + unat (HeaderBlocks (Config s)) + unat (Alignment (Config s))"
  assumes sz: "ptr_size P \<le> unat (ObjectSize (Stats s))" and k: "0 < k"
    and la: "unat (LeftAlignSize (Config s)) \<le> unat (Alignment (Config s))"
    and ia: "unat (InterAlignSize (Config s)) \<le> unat (Alignment (Config s))"
    and x: "x < a + ptr_size P \<or> a + ptr_size P + k * st \<le> x"
  shows "SetSignatures P s a x = mem s x"
proof -
  let ?ps = "ptr_size P" and ?os = "unat (ObjectSize (Stats s))"
    and ?pd = "unat (PadBytes (Config s))" and ?al = "unat (Alignment (Config s))"
    and ?h = "unat (HeaderBlocks (Config s))" and ?ia = "unat (InterAlignSize (Config s))"
    and ?l = "unat (LeftAlignSize (Config s))"
  let ?u = "unat (ObjectSize (Stats s) - of_nat (ptr_size P))"
  have "?os < 2 ^ 32" using unsigned_less [of "ObjectSize (Stats s)"] by simp
  with sz have "?ps < 2 ^ 32" by simp
  then have ups: "unat (of_nat (ptr_size P) :: u32) = ?ps" by (simp add: unat_of_nat_u32)
  then have "(of_nat (ptr_size P) :: u32) \<le> ObjectSize (Stats s)"
    using sz by (simp add: word_le_nat_alt)
  then have u: "?u = ?os - ?ps" by (simp add: unat_sub ups)
  obtain k' where k': "k = Suc k'" using k by (cases k) simp_all
  show ?thesis
  proof (cases "DebugOn (Config s)")
    case True
    let ?al' = "if LeftAlignSize (Config s) \<noteq> 0 then ?al else 0"
    let ?m2 = "fill (fill (fill (mem s) (a + ?ps) ?al' (ALIGN_PATTERN P)) (a + ?ps + ?al') ?h 0)
               (a + ?ps + ?al' + ?h) ?pd (PAD_PATTERN P)"
    let ?p0 = "a + ?ps + ?al' + ?h + ?pd"
    let ?D = "?ps + ?u + ?pd + ?ia + ?h + ?pd"
    have S: "SetSignatures P s a = SetSignatures_blocks P s 0 (?m2, ?p0)"
      using True by (simp add: SetSignatures_def Let_def stamp_def
          del: SetSignatures_blocks.simps)
    have D: "?D + (?al - ?ia) = st" using sz ia by (simp add: u st_def)
    have "k * ?D + (?al - ?ia) \<le> k * ?D + k * (?al - ?ia)" using k' by simp
    also have "\<dots> = k * st" by (simp add: D [symmetric] add_mult_distrib2)
    finally have kD: "k * ?D + (?al - ?ia) \<le> k * st" .
    have st1: "st \<le> k * st" using k' by simp
    have m2: "?m2 x = mem s x"
    proof -
      have "?p0 \<le> a + ?ps + st" by (simp add: st_def)
      with st1 x have "x < a + ?ps \<or> ?p0 \<le> x" by linarith
      then show ?thesis by (auto simp add: fill_apply)
    qed
    from x have "SetSignatures_blocks P s 0 (?m2, ?p0) x = ?m2 x"
    proof
      assume "x < a + ?ps"
      then have "x < ?p0 + ptr_size P" by simp
      then show ?thesis by (rule blocks_debug_frame [OF True])
    next
      assume up: "a + ?ps + k * st \<le> x"
      have p0: "?p0 \<le> a + ?ps + ?al + ?h + ?pd" by simp
      have g: "?p0 + k * ?D \<le> x + (?ia + ?h + ?pd)"
        using up kD ia p0 by linarith
      have e: "unat (ObjectsPerPage (Config s)) - unat (0::u32) = k" by (simp add: k_def)
      have "?p0 + (unat (ObjectsPerPage (Config s)) - unat (0::u32)) * ?D
          \<le> x + (?ia + ?h + ?pd)"
        unfolding e by (rule g)
      then show ?thesis by (rule blocks_debug_above [OF True])
    qed
    with m2 show ?thesis by (simp only: S)
  next
    case False
    let ?m1 = "fill (mem s) (a + ?ps + ?l) ?h 0"
    let ?p1 = "a + ?ps + ?l + ?h"
    let ?dm = "?os + ?ia + ?pd + ?h"
    have S: "SetSignatures P s a = SetSignatures_blocks P s 0 (?m1, ?p1)"
      using False by (simp add: SetSignatures_def Let_def stamp_def
          del: SetSignatures_blocks.simps)
    have dm: "?dm \<le> st" using ia by (simp add: st_def)
    have "k' * ?dm \<le> k' * st" using dm by (rule mult_le_mono2)
    moreover have "?p1 \<le> a + ?ps + st" using la by (simp add: st_def)
    moreover have "k * st = st + k' * st" by (simp add: k')
    ultimately have end1: "?p1 + k' * ?dm \<le> a + ?ps + k * st" by linarith
    have m1: "?m1 x = mem s x"
    proof -
      from end1 have "?p1 \<le> a + ?ps + k * st" by simp
      with x have "x < a + ?ps + ?l \<or> ?p1 \<le> x" by linarith
      then show ?thesis by (auto simp add: fill_apply)
    qed
    have e: "unat (ObjectsPerPage (Config s)) - 1 - unat (0::u32) = k'"
      using k' by (simp add: k_def)
    have "x < ?p1 \<or> ?p1 + k' * ?dm \<le> x"
      using x end1 by linarith
    then have "x < ?p1
        \<or> ?p1 + (unat (ObjectsPerPage (Config s)) - 1 - unat (0::u32)) * ?dm \<le> x"
      unfolding e .
    then have "SetSignatures_blocks P s 0 (?m1, ?p1) x = ?m1 x"
      by (rule blocks_plain_frame [OF False])
    with m1 show ?thesis by (simp only: S)
  qed
qed

text \<open>
  Page creation writes inside the buffer only. For a pooled allocator with
  \<open>ObjectsPerPage > 0\<close>, \<open>ObjectSize \<ge> sizeof(void*)\<close>, a page footprint below \<open>2^32\<close> and
  alignment sizes not above the configured alignment, \<^verbatim>\<open>AllocatePage\<close> returns and leaves
  every byte outside the \<^verbatim>\<open>PageSize_\<close> bytes of the new buffer as it was: none of its
  stores overruns what \<^verbatim>\<open>new char[PageSize_]\<close> handed out.
\<close>

lemma AllocatePage_inside:
  assumes pool: "pool_ok P s" and sys: "sys_new s = a # rest" and a: "a \<noteq> 0"
    and la: "unat (LeftAlignSize (Config s)) \<le> unat (Alignment (Config s))"
    and ia: "unat (InterAlignSize (Config s)) \<le> unat (Alignment (Config s))"
  shows "\<exists>s'. AllocatePage P s = Some (Return (), s')
     \<and> unat (PageSize (Stats s')) = unat (ObjectsPerPage (Config s)) * stride s + ptr_size P
     \<and> (\<forall>x. x < a \<or> a + unat (PageSize (Stats s')) \<le> x \<longrightarrow> mem s' x = mem s x)"
proof -
  let ?k = "unat (ObjectsPerPage (Config s))"
  let ?ps = "ptr_size P"
  let ?g = "unat (PadBytes (Config s)) + unat (HeaderBlocks (Config s))
      + unat (Alignment (Config s))"
  let ?s3 = "page_state P s"
  from pool have lay: "layout_ok P s" and K: "0 < ObjectsPerPage (Config s)"
    and sz: "?ps \<le> unat (ObjectSize (Stats s))"
    by (simp_all add: pool_ok_def)
  from K have k: "0 < ?k" by (simp add: word_less_nat_alt)
  from AllocatePage_mem [OF lay k sys a] obtain s'
    where ap: "AllocatePage P s = Some (Return (), s')"
      and fr: "\<And>x. x < a \<or> a + ptr_size P \<le> x
          \<Longrightarrow> (\<And>i. i < ?k \<Longrightarrow> x < block_addr P s a i \<or> block_addr P s a i + ptr_size P \<le> x)
          \<Longrightarrow> mem s' x = SetSignatures P ?s3 a x"
    by blast
  have "PageSize (Stats s') = ObjectsPerPage (Config s) * ObjectSize (Stats s)
      + of_nat (ptr_size P) + ObjectsPerPage (Config s) * chunk_size s"
    by (simp add: AllocatePage_counts(4) [OF lay ap])
  then have "unat (PageSize (Stats s')) = ?k * unat (ObjectSize (Stats s)) + ?ps
      + ?k * unat (chunk_size s)"
    by (simp only: page_size_unat [OF lay])
  then have size: "unat (PageSize (Stats s')) = ?k * stride s + ?ps"
    by (simp add: layout_unat(1) [OF lay K] stride_def add_mult_distrib2)
  have b: "block_addr P s a i = a + ?ps + ?g + i * stride s" for i
    by (simp add: block_addr_eq [OF lay K])
  have gs: "?g + ?ps \<le> stride s" using sz by (simp add: stride_def)
  have c3: "Config ?s3 = Config s" "ObjectSize (Stats ?s3) = ObjectSize (Stats s)"
    by (simp_all add: page_state_frame)
  have out: "mem s' x = mem s x" if x: "x < a \<or> a + (?k * stride s + ?ps) \<le> x" for x
  proof -
    have nl: "x < block_addr P s a i \<or> block_addr P s a i + ?ps \<le> x" if "i < ?k" for i
    proof -
      from that have "Suc i * stride s \<le> ?k * stride s" by (intro mult_le_mono1) simp
      then have "i * stride s + stride s \<le> ?k * stride s" by simp
      with gs x show ?thesis unfolding b by linarith
    qed
    have "mem s' x = SetSignatures P ?s3 a x"
      using x by (intro fr nl) linarith
    also have "\<dots> = mem ?s3 x"
    proof (rule SetSignatures_frame)
      show "ptr_size P \<le> unat (ObjectSize (Stats ?s3))" using sz by (simp add: c3)
      show "0 < unat (ObjectsPerPage (Config ?s3))" using k by (simp add: c3)
      show "unat (LeftAlignSize (Config ?s3)) \<le> unat (Alignment (Config ?s3))"
        using la by (simp add: c3)
      show "unat (InterAlignSize (Config ?s3)) \<le> unat (Alignment (Config ?s3))"
        using ia by (simp add: c3)
      show "x < a + ptr_size P \<or> a + ptr_size P + unat (ObjectsPerPage (Config ?s3))
          * (unat (ObjectSize (Stats ?s3)) + 2 * unat (PadBytes (Config ?s3))
             + unat (HeaderBlocks (Config ?s3)) + unat (Alignment (Config ?s3))) \<le> x"
        using x by (simp add: c3 stride_def [symmetric]) linarith
    qed
    finally show ?thesis by (simp add: page_state_mem)
  qed
  from ap size out show ?thesis by simp
qed

text \<open>The same of the constructor, which creates the first page with both alignment
  sizes still 0.\<close>

lemma ctor_inside:
  assumes np: "\<not> UseCPPMemManager config" and fits: "page_fits P os config"
    and K: "0 < ObjectsPerPage config" and sz: "ptr_size P \<le> unat os"
    and sys: "sys = a # rest" and a: "a \<noteq> 0"
  shows "\<exists>s. ObjectAllocator_ctor P os config m0 sys = Some (Return (), s)
     \<and> (\<forall>x. x < a \<or> a + unat (PageSize (Stats s)) \<le> x \<longrightarrow> mem s x = m0 x)"
proof -
  let ?i = "ctor_init os config m0 sys"
  have pool: "pool_ok P ?i"
    using np K sz ctor_init_layout [OF fits, of m0 sys]
    by (simp add: pool_ok_def ctor_init_simps OAStats_default_def)
  have h: "sys_new ?i = a # rest"
    "unat (LeftAlignSize (Config ?i)) \<le> unat (Alignment (Config ?i))"
    "unat (InterAlignSize (Config ?i)) \<le> unat (Alignment (Config ?i))"
    by (simp_all add: ctor_init_simps sys)
  from AllocatePage_inside [OF pool h(1) a h(2,3)] obtain s1
    where ap: "AllocatePage P ?i = Some (Return (), s1)"
      and out: "\<forall>x. x < a \<or> a + unat (PageSize (Stats s1)) \<le> x \<longrightarrow> mem s1 x = mem ?i x"
    by blast
  let ?s = "s1\<lparr>Config := (Config s1)\<lparr>LeftAlignSize := Alignment (Config s1),
                   InterAlignSize := Alignment (Config s1)\<rparr>\<rparr>"
  have "ObjectAllocator_ctor P os config m0 sys = Some (Return (), ?s)"
    using np ap by (simp add: ObjectAllocator_ctor_def Let_def ctor_init_simps)
  moreover have "\<forall>x. x < a \<or> a + unat (PageSize (Stats ?s)) \<le> x \<longrightarrow> mem ?s x = m0 x"
    using out by (simp add: ctor_init_simps)
  ultimately show ?thesis by blast
qed

lemma P64_simps:
  "ptr_size P64 = 8" "UNALLOCATED_PATTERN P64 = 0xAA" "ALLOCATED_PATTERN P64 = 0xBB"
  "FREED_PATTERN P64 = 0xCC" "PAD_PATTERN P64 = 0xDD" "ALIGN_PATTERN P64 = 0xEE"
  by (simp_all add: P64_def)

lemma ctor_guarded: "ObjectAllocator_ctor P64 8 cfg_guarded (\<lambda>_. 0) [4096] = Some (Return (), S1)"
  by (simp add: ObjectAllocator_ctor_def ctor_init_def cfg_guarded_def OAConfig_default_def
      OAStats_default_def AllocatePage_def page_account_def new_char_def page_setup_def
      SetSignatures_def stamp_def populate.simps populate_body_def Let_def P64_simps
      S1_def M1_def)

lemma load_fill_other:
  "p + n \<le> a \<or> a + k \<le> p \<Longrightarrow> load_ptr k (fill m p n v) a = load_ptr k m a"
  by (rule load_ptr_cong) (auto simp: fill_apply)

lemma load_upd_other:
  "x < a \<or> a + k \<le> x \<Longrightarrow> load_ptr k (m(x := v)) a = load_ptr k m a"
  by (rule load_ptr_cong) auto

lemma pads_numeral:
  "pads_left_ok m pat p (numeral k)
     = (m (p - 1) = pat \<and> pads_left_ok m pat (p - 1) (pred_numeral k))"
  "pads_right_ok m pat p (numeral k)
     = (m p = pat \<and> pads_right_ok m pat (Suc p) (pred_numeral k))"
  by (simp_all add: numeral_eq_Suc)

lemmas read_simps = fill_apply store_ptr_outside load_store_same load_store_other
  load_fill_other load_upd_other

lemma allocate_guarded: "Allocate P64 S1 = Some (Return 4120, S2)"
  by (simp add: Allocate_def pop_block_def count_allocation_def Let_def P64_simps
      S1_def S2_def M2_def M1_def cfg_guarded_def read_simps)

lemma M2_pads: "M2 4118 = 0xDD" "M2 4119 = 0xDD" "M2 4128 = 0xDD" "M2 4129 = 0xDD"
  by (simp_all add: M2_def M1_def read_simps)

lemma validate_S2: "ValidateObject P64 S2 4120 = Some (Return ())"
  by (simp add: ValidateObject_def first_block_offset_def wrap_def
      find_page.simps Let_def P64_simps S2_def S1_def
      cfg_guarded_def M2_pads pads_numeral)

lemma free_guarded: "Free P64 S2 4120 = Some (Return (), S3)"
  by (simp add: Free_def validate_S2)
    (simp add: count_deallocation_def Let_def P64_simps S3_def S2_def S1_def M3_def
      cfg_guarded_def)

lemma M3_pads: "M3 4118 = 0xDD" "M3 4119 = 0xDD" "M3 4128 = 0xDD" "M3 4129 = 0xDD"
  by (simp_all add: M3_def M2_pads read_simps)

lemma validate_S3: "ValidateObject P64 S3 4120 = Some (Return ())"
  by (simp add: ValidateObject_def first_block_offset_def wrap_def
      find_page.simps Let_def P64_simps S3_def S2_def S1_def
      cfg_guarded_def M3_pads pads_numeral)

lemma free_again_guarded: "Free P64 S3 4120 = Some (Return (), S4)"
  by (simp add: Free_def validate_S3)
    (simp add: count_deallocation_def Let_def P64_simps S4_def S3_def S2_def S1_def M4_def
      cfg_guarded_def)

lemma dump_headers_numeral:
  "dump_headers P s (numeral k) i temp_block d =
    (let t = (if i = 0
              then wrap P (int temp_block + int (first_block_offset P s))
              else temp_block + unat (block_size s))
     in dump_headers P s (pred_numeral k) (Suc i) t
          (if mem s (wrap P (int t - int (unat (PadBytes (Config s))) - 1)) = 1
           then (fst d + 1, snd d @ [(t + unat (PadBytes (Config s)), ObjectSize (Stats s))])
           else d))"
  by (simp add: numeral_eq_Suc)

lemma M2_headers: "M2 4104 = 0" "M2 4117 = 1" "load_ptr 8 M2 4096 = 0"
  by (simp_all add: M2_def M1_def read_simps)

lemma dump_guarded: "DumpMemoryInUse P64 S2 = Some (1, [(4122, 8)])"
  by (simp add: DumpMemoryInUse_def dump_pages.simps dump_headers_numeral first_block_offset_def wrap_def
      Let_def P64_simps
      S2_def S1_def cfg_guarded_def M2_headers)





lemma setup_wrap:
  "page_setup P64 (page_state P64 (ctor_init 2147483648 cfg_wrap (\<lambda>_. 0) [4096])) 4096
     = (2147487745, W0)"
  by (simp add: page_state_def page_account_def ctor_init_def cfg_wrap_def OAConfig_default_def
      OAStats_default_def page_setup_def SetSignatures_def stamp_def Let_def P64_simps W0_def)

lemma populate_wrap:
  "populate P64 0 0 (2147487745, W0) = Some (2, W0\<lparr>Stats := (Stats W0)\<lparr>FreeObjects := 2\<rparr>\<rparr>)"
  by (simp add: populate.simps populate_body_def Let_def W0_def cfg_wrap_def
      word_le_nat_alt word_less_nat_alt)

lemma ctor_wrap:
  "ObjectAllocator_ctor P64 2147483648 cfg_wrap (\<lambda>_. 0) [4096] = Some (Return (), W1)"
proof -
  have nc: "new_char (page_account P64 (ctor_init 2147483648 cfg_wrap (\<lambda>_. 0) [4096]))
      = (4096, page_state P64 (ctor_init 2147483648 cfg_wrap (\<lambda>_. 0) [4096]))"
    by (simp add: new_char_def page_state_def page_account_frame ctor_init_simps)
  have "AllocatePage P64 (ctor_init 2147483648 cfg_wrap (\<lambda>_. 0) [4096])
      = Some (Return (), W0\<lparr>Stats := (Stats W0)\<lparr>FreeObjects := 2\<rparr>\<rparr>)"
    by (simp add: AllocatePage_def Let_def nc setup_wrap populate_wrap)
  then show ?thesis
    by (simp add: ObjectAllocator_ctor_def Let_def ctor_init_simps)
      (simp add: W1_def W0_def cfg_wrap_def)
qed

lemma allocate_wrap: "Allocate P64 W1 = Some (Return 2147487745, W2)"
  by (simp add: Allocate_def pop_block_def count_allocation_def Let_def P64_simps
      W2_def W1_def W0_def cfg_wrap_def read_simps)

lemma allocate_wrap_again: "Allocate P64 W2 = Some (Abort, W2)"
  by (simp add: Allocate_def pop_block_def Let_def W2_def W1_def W0_def cfg_wrap_def)

lemma ctor_tiny: "ObjectAllocator_ctor P64 1 cfg_tiny (\<lambda>_. 0) [4096] = Some (Return (), Y1)"
  by (simp add: ObjectAllocator_ctor_def ctor_init_def cfg_tiny_def OAConfig_default_def
      OAStats_default_def AllocatePage_def page_account_def new_char_def page_setup_def
      SetSignatures_def stamp_def populate.simps populate_body_def Let_def P64_simps
      Y1_def Y_def)

lemma load_ptr_numeral:
  "load_ptr (numeral k) m a = unat (m a) + 256 * load_ptr (pred_numeral k) m (Suc a)"
  by (simp add: numeral_eq_Suc)

lemma store_ptr_apply:
  "store_ptr n m a q x = (if a \<le> x \<and> x < a + n then of_nat (q div 256 ^ (x - a)) else m x)"
proof (induction n arbitrary: m a q)
  case 0 then show ?case by auto
next
  case (Suc n)
  show ?case
  proof (cases "x = a")
    case True then show ?thesis by (simp add: store_ptr_outside)
  next
    case False
    have "Suc a \<le> x \<Longrightarrow> q div 256 div 256 ^ (x - Suc a) = q div 256 ^ (x - a)"
    proof -
      assume "Suc a \<le> x"
      then have "x - a = Suc (x - Suc a)" by simp
      then show ?thesis by (simp add: div_mult2_eq)
    qed
    with False show ?thesis
      by (auto simp: Suc)
  qed
qed

lemma Y_reads: "load_ptr 8 Y 4107 = 4106" "load_ptr 8 Y 4106 = 1051145"
  "load_ptr 8 Y 1051145 = 0"
  by (simp_all add: Y_def load_ptr_numeral store_ptr_apply)

lemma allocate_tiny:
  "Allocate P64 Y1 = Some (Return 4107, Y2)"
  "Allocate P64 Y2 = Some (Return 4106, Y3)"
  "Allocate P64 Y3 = Some (Return 1051145, Y4)"
  "Allocate P64 Y4 = Some (Abort, Y4)"
  by (simp_all add: Allocate_def pop_block_def count_allocation_def Let_def P64_simps
      Y1_def Y2_def Y3_def Y4_def cfg_tiny_def Y_reads)

lemma chain_tiny: "\<not> free_list_is 8 Y 4107 [4107, 4106, 4105, 4104]"
  by (simp add: Y_reads)

lemma allocate_second: "Allocate P64 S2 = Some (Return 4107, S2b)"
  by (simp add: Allocate_def pop_block_def count_allocation_def Let_def P64_simps
      S2b_def S2_def S1_def M2_def M1_def cfg_guarded_def read_simps)

lemma allocate_exhausted: "Allocate P64 S2b = Some (Throw E_NO_MEMORY, S2c)"
  by (simp add: Allocate_def AllocatePage_def page_account_def new_char_def Let_def P64_simps
      S2c_def S2b_def S2_def S1_def cfg_guarded_def)

lemma allocate_reuse: "Allocate P64 S3 = Some (Return 4120, S5)"
  by (simp add: Allocate_def pop_block_def count_allocation_def Let_def P64_simps
      S5_def S3_def S2_def S1_def M3_def cfg_guarded_def read_simps)

lemma M2_at_4119: "M2 4119 = 0xDD"
  by (simp add: M2_pads)

lemma free_misaligned: "Free P64 S2 4121 = Some (Throw E_BAD_BOUNDARY, S2)"
  by (simp add: Free_def ValidateObject_def first_block_offset_def wrap_def
      find_page.simps Let_def P64_simps S2_def S1_def
      cfg_guarded_def M2_pads)

lemma page_fits_guarded: "page_fits P64 8 cfg_guarded"
  by (simp add: page_fits_def P64_simps cfg_guarded_def)

section \<open>The claims\<close>

text \<open>
  C1 (conservation of blocks), as amended. For every configuration with pass-through
  disabled whose page footprint \<open>ObjectsPerPage * (ObjectSize + 2 * PadBytes +
  HeaderBlocks + Alignment) + sizeof(void*)\<close> is below \<open>2^32\<close>: after construction and
  any sequence of calls that all returned, N of them \<^verbatim>\<open>Allocate\<close> and M of them
  \<^verbatim>\<open>Free\<close> with \<open>M \<le> N\<close>, the in-use counter holds \<open>N - M\<close> and the free counter
  holds the number of pages created times \<open>ObjectsPerPage\<close>, minus \<open>N - M\<close>. The counters
  are \<^verbatim>\<open>unsigned\<close>, so the equations are those of 32-bit words.
\<close>

theorem conservation_of_blocks:
  assumes np: "\<not> UseCPPMemManager config" and fits: "page_fits P os config"
    and ctor: "ObjectAllocator_ctor P os config m0 sys = Some (Return (), s0)"
    and run: "run P calls s0 = Some s"
    and le: "releases calls \<le> allocations calls"
  shows "ObjectsInUse (Stats s) = of_nat (allocations calls - releases calls)
    \<and> FreeObjects (Stats s)
        = of_nat (pages_created sys s) * ObjectsPerPage config
          - of_nat (allocations calls - releases calls)"
proof -
  note c = ctor_pooled [OF np fits ctor]
  from run_counts [OF c(1,2) run]
  have r: "length (sys_new s) \<le> length (sys_new s0)"
    "ObjectsInUse (Stats s) + of_nat (releases calls)
         = ObjectsInUse (Stats s0) + of_nat (allocations calls)"
    "FreeObjects (Stats s) + ObjectsInUse (Stats s)
         = FreeObjects (Stats s0) + ObjectsInUse (Stats s0)
           + of_nat (length (sys_new s0) - length (sys_new s)) * ObjectsPerPage (Config s0)"
    by simp_all
  have "length sys = Suc (length (sys_new s0))"
    using c(10) by (cases sys) (simp_all add: c(11))
  with r(1) have pc: "pages_created sys s = Suc (length (sys_new s0) - length (sys_new s))"
    by (simp add: pages_created_def)
  have iu: "ObjectsInUse (Stats s) = of_nat (allocations calls - releases calls)"
    using r(2) le by (simp add: c(7) of_nat_diff algebra_simps)
  have "FreeObjects (Stats s) + ObjectsInUse (Stats s)
      = of_nat (pages_created sys s) * ObjectsPerPage config"
    by (simp add: r(3) c pc distrib_right)
  then have "FreeObjects (Stats s)
      = of_nat (pages_created sys s) * ObjectsPerPage config - ObjectsInUse (Stats s)"
    by (simp add: algebra_simps)
  with iu show ?thesis by simp
qed

theorem conservation_of_blocks_witness:
  "\<not> UseCPPMemManager cfg_guarded \<and> page_fits P64 8 cfg_guarded
   \<and> ObjectAllocator_ctor P64 8 cfg_guarded (\<lambda>_. 0) [4096] = Some (Return (), S1)
   \<and> run P64 [CallAllocate, CallFree 4120, CallAllocate] S1 = Some S5
   \<and> ObjectsInUse (Stats S5) = 1 \<and> FreeObjects (Stats S5) = 1 * 2 - 1"
proof -
  have np: "\<not> UseCPPMemManager cfg_guarded" by (simp add: cfg_guarded_def)
  have run: "run P64 [CallAllocate, CallFree 4120, CallAllocate] S1 = Some S5"
    by (simp add: allocate_guarded free_guarded allocate_reuse)
  have "pages_created [4096] S5 = 1"
    by (simp add: pages_created_def S5_def S3_def S2_def S1_def)
  with conservation_of_blocks [OF np page_fits_guarded ctor_guarded run]
  show ?thesis
    using np ctor_guarded run page_fits_guarded by (simp add: cfg_guarded_def)
qed

theorem conservation_of_blocks_counterexample:
  "\<not> UseCPPMemManager cfg_wrap
   \<and> ObjectAllocator_ctor P64 2147483648 cfg_wrap (\<lambda>_. 0) [4096] = Some (Return (), W1)
   \<and> run P64 [] W1 = Some W1 \<and> pages_created [4096] W1 = 1
   \<and> FreeObjects (Stats W1) = 2
   \<and> FreeObjects (Stats W1)
       \<noteq> of_nat (pages_created [4096] W1) * ObjectsPerPage cfg_wrap
           - of_nat (allocations [] - releases [])"
  by (simp add: ctor_wrap) (simp add: pages_created_def W1_def W0_def cfg_wrap_def)

text \<open>
  C3 (double-free detection): the code fails the claim. With usage headers and guard
  bytes enabled and debug mode on, \<^verbatim>\<open>ValidateObject\<close> reads the byte at
  \<open>Object - PadBytes\<close>, the first guard byte, where \<^verbatim>\<open>Allocate\<close> and \<^verbatim>\<open>Free\<close> keep the
  header flag at \<open>Object - (PadBytes + 1)\<close>: the second release of the same pointer
  returns normally instead of throwing \<open>E_MULTIPLE_FREE\<close>.
\<close>

theorem second_release_is_not_detected:
  "release_twice P64 8 cfg_guarded (\<lambda>_. 0) [4096] = Some (Return ())"
  by (simp add: release_twice_def ctor_guarded allocate_guarded free_guarded
      free_again_guarded)

text \<open>
  C5 (dump accuracy): the code fails the claim. With usage headers enabled,
  \<^verbatim>\<open>DumpMemoryInUse\<close> finds the block in use but passes \<open>temp_block + PadBytes\<close> to the
  callback: with two guard bytes the block allocated at 4120 is reported at 4122.
\<close>

theorem dump_reports_shifted_address:
  "dump_after_allocate P64 8 cfg_guarded (\<lambda>_. 0) [4096] = Some (4120, 1, [(4122, 8)])"
  by (simp add: dump_after_allocate_def ctor_guarded allocate_guarded dump_guarded)

text \<open>
  C6 (release atomicity on error): a call of \<^verbatim>\<open>Free\<close> that throws, whatever the
  exception, leaves the whole state as it was: the members, the statistics and every
  byte of memory.
\<close>

theorem release_atomic_on_error:
  assumes "Free P s Object = Some (Throw e, s')"
  shows "s' = s"
proof (cases "UseCPPMemManager (Config s)")
  case True
  with assms show ?thesis by (simp add: Free_def)
next
  case False
  show ?thesis
  proof (cases "if DebugOn (Config s) then ValidateObject P s Object else Some (Return ())")
    case None
    with assms False show ?thesis by (simp add: Free_def)
  next
    case (Some r)
    with assms False show ?thesis
      by (cases r) (simp_all add: Free_def Let_def split: if_splits)
  qed
qed

theorem release_atomic_on_error_witness:
  "DebugOn (Config S2) \<and> (\<exists>s'. Free P64 S2 4121 = Some (Throw E_BAD_BOUNDARY, s') \<and> s' = S2)"
  using release_atomic_on_error [OF free_misaligned] free_misaligned
  by (simp add: S2_def S1_def cfg_guarded_def)

text \<open>
  C10 (non-atomic OutOfMemory): a call of \<^verbatim>\<open>Allocate\<close> that throws \<open>E_NO_MEMORY\<close> has
  already counted the page and recorded the page size: the state it leaves is not the
  state it found.
\<close>

theorem out_of_memory_leaves_statistics_changed:
  assumes "Allocate P s = Some (Throw E_NO_MEMORY, s')"
  shows "PagesInUse (Stats s') = PagesInUse (Stats s) + 1
    \<and> PageSize (Stats s')
        = ObjectsPerPage (Config s) * ObjectSize (Stats s) + of_nat (ptr_size P)
          + ObjectsPerPage (Config s) * chunk_size s
    \<and> s' \<noteq> s"
proof -
  have np: "\<not> UseCPPMemManager (Config s)"
    using assms by (auto simp: Allocate_def Let_def split: if_splits)
  have ap: "AllocatePage P s = Some (Throw E_NO_MEMORY, s')"
  proof (cases "FreeObjects (Stats s) = 0 \<and> PagesInUse (Stats s) \<noteq> MaxPages (Config s)")
    case False
    with assms np show ?thesis
      by (auto simp: Allocate_def pop_block_no_throw split: if_splits)
  next
    case True
    show ?thesis
    proof (cases "AllocatePage P s")
      case None
      with assms np True show ?thesis by (simp add: Allocate_def)
    next
      case (Some rs)
      obtain r s1 where rs: "rs = (r, s1)" by (cases rs)
      from assms np True Some rs show ?thesis
        by (cases r) (simp_all add: Allocate_def pop_block_no_throw)
    qed
  qed
  from AllocatePage_cases [OF ap]
  have s': "s' = (page_account P s)\<lparr>sys_new := tl (sys_new s)\<rparr>" by simp
  have pages: "PagesInUse (Stats s') = PagesInUse (Stats s) + 1"
    by (simp add: s' page_account_frame)
  moreover have "PageSize (Stats s')
        = ObjectsPerPage (Config s) * ObjectSize (Stats s) + of_nat (ptr_size P)
          + ObjectsPerPage (Config s) * chunk_size s"
    by (simp add: s' page_account_frame)
  moreover have "s' \<noteq> s"
  proof
    assume "s' = s"
    with pages have "PagesInUse (Stats s) = PagesInUse (Stats s) + 1" by simp
    then show False by simp
  qed
  ultimately show ?thesis by simp
qed

theorem out_of_memory_leaves_statistics_changed_witness:
  "Allocate P64 S2b = Some (Throw E_NO_MEMORY, S2c)
   \<and> PagesInUse (Stats S2b) = 1 \<and> PagesInUse (Stats S2c) = 2 \<and> S2c \<noteq> S2b"
  using out_of_memory_leaves_statistics_changed [OF allocate_exhausted] allocate_exhausted
  by (simp add: S2b_def S2c_def)

lemma Allocate_pass_through:
  assumes "UseCPPMemManager (Config s)" and "Allocate P s = Some (Return p, s')"
  shows "Config s' = Config s" "Stats s' = count_allocation (Stats s)"
    "page_list s' = page_list s" "free_list s' = free_list s" "mem s' = mem s"
  using assms
  by (auto simp: Allocate_def Let_def new_char_def split: if_splits list.splits)

lemma Free_pass_through:
  assumes "UseCPPMemManager (Config s)" and "Free P s p = Some (Return u, s')"
  shows "Config s' = Config s" "Stats s' = count_deallocation (Stats s)"
    "page_list s' = page_list s" "free_list s' = free_list s" "mem s' = mem s"
  using assms by (auto simp: Free_def)

lemma run_pass_through:
  assumes "UseCPPMemManager (Config s)" and "run P calls s = Some s'"
  shows "page_list s' = page_list s \<and> free_list s' = free_list s \<and> mem s' = mem s
    \<and> PagesInUse (Stats s') = PagesInUse (Stats s)
    \<and> ObjectsInUse (Stats s')
        = ObjectsInUse (Stats s) + of_nat (allocations calls) - of_nat (releases calls)
    \<and> FreeObjects (Stats s')
        = FreeObjects (Stats s) + of_nat (releases calls) - of_nat (allocations calls)
    \<and> Allocations (Stats s') = Allocations (Stats s) + of_nat (allocations calls)
    \<and> Deallocations (Stats s') = Deallocations (Stats s) + of_nat (releases calls)"
  using assms
proof (induction P calls s rule: run.induct)
  case (1 P s)
  then show ?case by simp
next
  case (2 P cs s)
  from "2.prems"(2) obtain p s1 where al: "Allocate P s = Some (Return p, s1)"
    and rest: "run P cs s1 = Some s'"
    by (auto split: option.splits outcome.splits)
  note a = Allocate_pass_through [OF "2.prems"(1) al]
  have "UseCPPMemManager (Config s1)" using "2.prems"(1) by (simp add: a)
  from "2.IH" [OF al refl refl this rest] show ?case
    by (simp add: a count_allocation_simps algebra_simps)
next
  case (3 P p cs s)
  from "3.prems"(2) obtain u s1 where fr: "Free P s p = Some (Return u, s1)"
    and rest: "run P cs s1 = Some s'"
    by (auto split: option.splits outcome.splits)
  note a = Free_pass_through [OF "3.prems"(1) fr]
  have "UseCPPMemManager (Config s1)" using "3.prems"(1) by (simp add: a)
  from "3.IH" [OF fr refl refl this rest] show ?case
    by (simp add: a count_deallocation_simps algebra_simps)
qed

lemma ctor_pass_through:
  assumes "UseCPPMemManager config"
  shows "ObjectAllocator_ctor P os config m0 sys
    = Some (Return (), (ctor_init os config m0 sys)\<lparr>Config := config\<lparr>
        LeftAlignSize := Alignment config, InterAlignSize := Alignment config\<rparr>\<rparr>)"
  using assms by (simp add: ObjectAllocator_ctor_def Let_def ctor_init_simps)

text \<open>
  C8 (pass-through frame), as amended. With pass-through enabled the constructor and every
  call of \<^verbatim>\<open>Allocate\<close> and \<^verbatim>\<open>Free\<close> leave the page list and the free list null, the page
  count zero and the memory untouched. After N calls of \<^verbatim>\<open>Allocate\<close> and M of \<^verbatim>\<open>Free\<close>
  the in-use counter holds \<open>N - M\<close>, the lifetime counters N and M, and the free counter
  \<open>M - N\<close>, all as 32-bit words: the free counter is counted down from zero, so it is
  \<open>2^32 - 1\<close> after the first allocation and not a number of free blocks.
\<close>

theorem pass_through_frame:
  assumes pt: "UseCPPMemManager config"
    and ctor: "ObjectAllocator_ctor P os config m0 sys = Some (r, s0)"
    and run: "run P calls s0 = Some s"
  shows "r = Return () \<and> page_list s0 = 0 \<and> free_list s0 = 0 \<and> PagesInUse (Stats s0) = 0
    \<and> page_list s = 0 \<and> free_list s = 0 \<and> PagesInUse (Stats s) = 0 \<and> mem s = m0
    \<and> ObjectsInUse (Stats s) = of_nat (allocations calls) - of_nat (releases calls)
    \<and> Allocations (Stats s) = of_nat (allocations calls)
    \<and> Deallocations (Stats s) = of_nat (releases calls)
    \<and> FreeObjects (Stats s) = of_nat (releases calls) - of_nat (allocations calls)"
proof -
  from ctor ctor_pass_through [OF pt, of P os m0 sys]
  have r: "r = Return ()"
    and s0: "s0 = (ctor_init os config m0 sys)\<lparr>Config := config\<lparr>
        LeftAlignSize := Alignment config, InterAlignSize := Alignment config\<rparr>\<rparr>"
    by simp_all
  have pt0: "UseCPPMemManager (Config s0)" using pt by (simp add: s0)
  from run_pass_through [OF pt0 run] r show ?thesis
    by (simp add: s0 ctor_init_simps OAStats_default_def)
qed

lemma ctor_pass: "ObjectAllocator_ctor P64 8 cfg_pass (\<lambda>_. 0) [4096] = Some (Return (), PT0)"
  by (simp add: ObjectAllocator_ctor_def ctor_init_def cfg_pass_def OAConfig_default_def
      OAStats_default_def Let_def PT0_def)

lemma allocate_pass: "Allocate P64 PT0 = Some (Return 4096, PT1)"
  by (simp add: Allocate_def new_char_def count_allocation_def Let_def PT0_def PT1_def
      cfg_pass_def)

lemma free_pass: "Free P64 PT1 4096 = Some (Return (), PT2)"
  by (simp add: Free_def count_deallocation_def PT0_def PT1_def PT2_def cfg_pass_def)

theorem pass_through_frame_witness:
  "UseCPPMemManager cfg_pass
   \<and> ObjectAllocator_ctor P64 8 cfg_pass (\<lambda>_. 0) [4096] = Some (Return (), PT0)
   \<and> run P64 [CallAllocate, CallFree 4096] PT0 = Some PT2
   \<and> page_list PT2 = 0 \<and> free_list PT2 = 0 \<and> PagesInUse (Stats PT2) = 0
   \<and> ObjectsInUse (Stats PT2) = 0 \<and> Allocations (Stats PT2) = 1
   \<and> Deallocations (Stats PT2) = 1 \<and> FreeObjects (Stats PT2) = 0"
proof -
  have pt: "UseCPPMemManager cfg_pass" by (simp add: cfg_pass_def)
  have run: "run P64 [CallAllocate, CallFree 4096] PT0 = Some PT2"
    by (simp add: allocate_pass free_pass)
  from pass_through_frame [OF pt ctor_pass run] show ?thesis
    using pt ctor_pass run by simp
qed

theorem pass_through_frame_counterexample:
  "UseCPPMemManager cfg_pass
   \<and> ObjectAllocator_ctor P64 8 cfg_pass (\<lambda>_. 0) [4096] = Some (Return (), PT0)
   \<and> run P64 [CallAllocate] PT0 = Some PT1
   \<and> page_list PT1 = 0 \<and> free_list PT1 = 0 \<and> PagesInUse (Stats PT1) = 0
   \<and> ObjectsInUse (Stats PT1) = 1 \<and> FreeObjects (Stats PT1) = 4294967295"
  by (simp add: ctor_pass allocate_pass) (simp add: PT1_def PT0_def cfg_pass_def)

lemma page_ok_bytes:
  "page_ok P s a \<longleftrightarrow>
     a \<noteq> 0 \<and> a + page_bytes P (ObjectSize (Stats s)) (Config s) \<le> 256 ^ ptr_size P"
  by (simp add: page_ok_def page_bytes_def stride_def)

lemma stride_pos: "pool_ok P s \<Longrightarrow> 0 < stride s"
  by (auto simp: pool_ok_def layout_ok_def page_fits_def stride_def)

lemma block_addr_less:
  assumes ok: "pool_ok P s" and ij: "i < j"
  shows "block_addr P s a i < block_addr P s a j"
proof -
  from ok have lay: "layout_ok P s" and K: "0 < ObjectsPerPage (Config s)"
    by (simp_all add: pool_ok_def)
  have "Suc i * stride s \<le> j * stride s"
    by (rule mult_le_mono1) (use ij in simp)
  then have "i * stride s + stride s \<le> j * stride s" by simp
  with stride_pos [OF ok] have "i * stride s < j * stride s" by linarith
  then show ?thesis
    by (simp only: block_addr_eq [OF lay K] add_less_cancel_left)
qed

lemma blocks_upto_distinct:
  assumes ok: "pool_ok P s"
  shows "distinct (blocks_upto P s a n)"
proof -
  have "inj_on (block_addr P s a) {0..<n}"
  proof (rule inj_onI)
    fix i j assume "block_addr P s a i = block_addr P s a j"
    with block_addr_less [OF ok, of i j a] block_addr_less [OF ok, of j i a]
    show "i = j" by (cases i j rule: linorder_cases) simp_all
  qed
  then show ?thesis
    unfolding blocks_upto_def by (simp add: distinct_map del: upt_Suc)
qed

lemma blocks_upto_in_page:
  assumes ok: "pool_ok P s" and b: "b \<in> set (blocks_upto P s a (unat (ObjectsPerPage (Config s))))"
  shows "a < b \<and> b + unat (ObjectSize (Stats s))
           \<le> a + page_bytes P (ObjectSize (Stats s)) (Config s)"
proof -
  let ?k = "unat (ObjectsPerPage (Config s))"
  from ok have lay: "layout_ok P s" and K: "0 < ObjectsPerPage (Config s)"
    by (simp_all add: pool_ok_def)
  from lay have ps: "0 < ptr_size P" by (simp add: layout_ok_def page_fits_def)
  from b obtain i where i: "i < ?k" "b = block_addr P s a i"
    by (auto simp: blocks_upto_mem)
  have "Suc i * stride s \<le> ?k * stride s"
    by (rule mult_le_mono1) (use i in simp)
  then have "i * stride s + stride s \<le> ?k * stride s" by simp
  moreover have "page_bytes P (ObjectSize (Stats s)) (Config s) = ?k * stride s + ptr_size P"
    by (simp add: page_bytes_def stride_def)
  moreover have "unat (ObjectSize (Stats s)) + unat (PadBytes (Config s))
      + unat (HeaderBlocks (Config s)) + unat (Alignment (Config s)) \<le> stride s"
    by (simp add: stride_def)
  ultimately show ?thesis
    using ps by (simp add: i block_addr_eq [OF lay K])
qed

text \<open>
  C7 (page-population loop), as amended. For every allocator with pass-through disabled,
  \<open>ObjectsPerPage > 0\<close>, \<open>ObjectSize\<close> at least \<^verbatim>\<open>sizeof(void*)\<close> and a page footprint below
  \<open>2^32\<close>, and every non-null buffer that lies within the address space: the loop of
  \<^verbatim>\<open>AllocatePage\<close> ends, after exactly \<open>ObjectsPerPage\<close> rounds; the free list is then the
  \<open>ObjectsPerPage\<close> blocks of the new page, all different and all inside the page, last
  block first; and the free count has grown by \<open>ObjectsPerPage\<close>.
\<close>

theorem page_population:
  assumes np: "\<not> UseCPPMemManager (Config s)" and lay: "layout_ok P s"
    and K: "0 < ObjectsPerPage (Config s)"
    and os: "ptr_size P \<le> unat (ObjectSize (Stats s))"
    and sys: "sys_new s = a # rest" and a: "a \<noteq> 0"
    and range: "a + page_bytes P (ObjectSize (Stats s)) (Config s) \<le> 256 ^ ptr_size P"
  shows "\<exists>s'. populate P 0 0 (page_setup P (page_state P s) a)
                = Some (ObjectsPerPage (Config s), s')
    \<and> AllocatePage P s = Some (Return (), s')
    \<and> FreeObjects (Stats s') = FreeObjects (Stats s) + ObjectsPerPage (Config s)
    \<and> free_list_is (ptr_size P) (mem s') (free_list s')
         (blocks_upto P s a (unat (ObjectsPerPage (Config s))))
    \<and> length (blocks_upto P s a (unat (ObjectsPerPage (Config s))))
         = unat (ObjectsPerPage (Config s))
    \<and> distinct (blocks_upto P s a (unat (ObjectsPerPage (Config s))))
    \<and> (\<forall>b \<in> set (blocks_upto P s a (unat (ObjectsPerPage (Config s)))).
          a < b \<and> b + unat (ObjectSize (Stats s))
            \<le> a + page_bytes P (ObjectSize (Stats s)) (Config s))"
proof -
  have ok: "pool_ok P s" using np lay K os by (simp add: pool_ok_def)
  have pg: "page_ok P s a" using a range by (simp add: page_ok_bytes)
  from AllocatePage_chain [OF ok sys pg] obtain s'
    where ap: "AllocatePage P s = Some (Return (), s')"
      and pop: "populate P 0 0 (page_setup P (page_state P s) a)
                = Some (ObjectsPerPage (Config s), s')"
      and ch: "free_list_is (ptr_size P) (mem s') (free_list s')
         (blocks_upto P s a (unat (ObjectsPerPage (Config s))))"
    by blast
  note f = AllocatePage_counts [OF lay ap]
  have "FreeObjects (Stats s') = FreeObjects (Stats s) + ObjectsPerPage (Config s)"
    by (simp add: f(4))
  moreover have "length (blocks_upto P s a (unat (ObjectsPerPage (Config s))))
         = unat (ObjectsPerPage (Config s))"
    by (simp add: blocks_upto_def)
  ultimately show ?thesis
    using ap pop ch blocks_upto_distinct [OF ok] blocks_upto_in_page [OF ok]
    by (intro exI [of _ s']) simp
qed

lemma layout_guarded: "layout_ok P64 (ctor_init 8 cfg_guarded (\<lambda>_. 0) [4096])"
  by (rule ctor_init_layout [OF page_fits_guarded])

theorem page_population_witness:
  "\<exists>s'. populate P64 0 0
            (page_setup P64 (page_state P64 (ctor_init 8 cfg_guarded (\<lambda>_. 0) [4096])) 4096)
          = Some (2, s')
    \<and> AllocatePage P64 (ctor_init 8 cfg_guarded (\<lambda>_. 0) [4096]) = Some (Return (), s')
    \<and> FreeObjects (Stats s') = 2
    \<and> free_list_is 8 (mem s') (free_list s')
         (blocks_upto P64 (ctor_init 8 cfg_guarded (\<lambda>_. 0) [4096]) 4096 2)"
proof -
  let ?i = "ctor_init 8 cfg_guarded (\<lambda>_. 0) [4096]"
  have h: "\<not> UseCPPMemManager (Config ?i)" "0 < ObjectsPerPage (Config ?i)"
    "ptr_size P64 \<le> unat (ObjectSize (Stats ?i))" "sys_new ?i = 4096 # []" "(4096::nat) \<noteq> 0"
    "4096 + page_bytes P64 (ObjectSize (Stats ?i)) (Config ?i) \<le> 256 ^ ptr_size P64"
    by (simp_all add: ctor_init_simps cfg_guarded_def P64_simps page_bytes_def
        OAStats_default_def)
  from page_population [OF h(1) layout_guarded h(2-6)] obtain s'
    where p: "populate P64 0 0 (page_setup P64 (page_state P64 ?i) 4096)
                = Some (ObjectsPerPage (Config ?i), s')"
      "AllocatePage P64 ?i = Some (Return (), s')"
      "FreeObjects (Stats s') = FreeObjects (Stats ?i) + ObjectsPerPage (Config ?i)"
      "free_list_is (ptr_size P64) (mem s') (free_list s')
         (blocks_upto P64 ?i 4096 (unat (ObjectsPerPage (Config ?i))))"
    by blast
  have v: "ObjectsPerPage (Config ?i) = 2" "FreeObjects (Stats ?i) = 0" "ptr_size P64 = 8"
    by (simp_all add: ctor_init_simps cfg_guarded_def P64_simps OAStats_default_def)
  have "unat (2::u32) = 2" by simp
  with p show ?thesis
    unfolding v by (intro exI [of _ s']) simp
qed

lemma blocks_tiny: "blocks_upto P64 Y1 4096 4 = [4107, 4106, 4105, 4104]"
  by (simp add: blocks_upto_def block_addr_def upt_rec Y1_def cfg_tiny_def P64_simps)

theorem page_population_counterexample:
  "page_setup P64 (page_state P64 (ctor_init 2147483648 cfg_wrap (\<lambda>_. 0) [4096])) 4096
     = (2147487745, W0)
   \<and> ObjectsPerPage (Config W0) = 1 \<and> FreeObjects (Stats W0) = 0
   \<and> populate P64 0 0 (2147487745, W0)
       = Some (2, W0\<lparr>Stats := (Stats W0)\<lparr>FreeObjects := 2\<rparr>\<rparr>)
   \<and> ObjectAllocator_ctor P64 1 cfg_tiny (\<lambda>_. 0) [4096] = Some (Return (), Y1)
   \<and> ObjectsPerPage (Config Y1) = 4
   \<and> blocks_upto P64 Y1 4096 4 = [4107, 4106, 4105, 4104]
   \<and> \<not> free_list_is 8 (mem Y1) (free_list Y1) (blocks_upto P64 Y1 4096 4)"
  using chain_tiny
  by (simp add: setup_wrap populate_wrap ctor_tiny blocks_tiny)
    (simp add: W0_def cfg_wrap_def Y1_def cfg_tiny_def)

lemma exhaust_pages:
  assumes np: "\<not> UseCPPMemManager config" and fits: "page_fits P os config"
    and K: "0 < ObjectsPerPage config" and os: "ptr_size P \<le> unat os"
    and C: "1 \<le> C" "C \<le> length sys"
    and avail: "\<And>i. i < C \<Longrightarrow>
        sys ! i \<noteq> 0 \<and> sys ! i + page_bytes P os config \<le> 256 ^ ptr_size P"
    and below: "\<And>c. 1 \<le> c \<Longrightarrow> c < C \<Longrightarrow> of_nat c \<noteq> MaxPages config"
  shows "\<exists>s0. ObjectAllocator_ctor P os config m0 sys = Some (Return (), s0)
    \<and> (\<forall>n \<le> C * unat (ObjectsPerPage config).
          \<exists>s. run P (replicate n CallAllocate) s0 = Some s)
    \<and> (\<exists>s. run P (replicate (C * unat (ObjectsPerPage config)) CallAllocate) s0 = Some s
          \<and> \<not> UseCPPMemManager (Config s) \<and> FreeObjects (Stats s) = 0
          \<and> PagesInUse (Stats s) = of_nat C \<and> MaxPages (Config s) = MaxPages config)"
proof -
  let ?k = "unat (ObjectsPerPage config)"
  from C obtain a rest where sys: "sys = a # rest" by (cases sys) auto
  from avail [of 0] C sys have a: "a \<noteq> 0"
    and range: "a + page_bytes P os config \<le> 256 ^ ptr_size P" by simp_all
  from range have range': "a + (?k * (unat os + 2 * unat (PadBytes config)
      + unat (HeaderBlocks config) + unat (Alignment config)) + ptr_size P) \<le> 256 ^ ptr_size P"
    by (simp add: page_bytes_def)
  from ctor_alloc_inv [OF np fits K os sys a range', of m0] obtain s0
    where ctor: "ObjectAllocator_ctor P os config m0 sys = Some (Return (), s0)"
      and ok: "pool_ok P s0" and inv: "alloc_inv P sys s0 1 ?k s0"
      and cfg: "Config s0 = config\<lparr>LeftAlignSize := Alignment config,
          InterAlignSize := Alignment config\<rparr>"
      and obj: "ObjectSize (Stats s0) = os"
    by blast
  have k0: "unat (ObjectsPerPage (Config s0)) = ?k" by (simp add: cfg)
  have pb: "page_bytes P (ObjectSize (Stats s0)) (Config s0) = page_bytes P os config"
    by (simp add: page_bytes_def cfg obj)
  have mp0: "MaxPages (Config s0) = MaxPages config" by (simp add: cfg)
  have av: "of_nat c' \<noteq> MaxPages (Config s0) \<and> c' < length sys \<and> page_ok P s0 (sys ! c')"
    if "1 \<le> c'" "c' < C" for c'
    using that below [OF that] avail [of c'] C(2) by (simp add: page_ok_bytes pb mp0)
  have many: "\<exists>s c' f'. run P (replicate n CallAllocate) s0 = Some s
      \<and> alloc_inv P sys s0 c' f' s \<and> c' \<le> C \<and> c' * ?k - f' = n"
    if "n \<le> C * ?k" for n
  proof -
    have "1 * unat (ObjectsPerPage (Config s0)) - ?k + n
        \<le> C * unat (ObjectsPerPage (Config s0))"
      using that by (simp add: k0)
    from alloc_many [OF ok av inv C(1) this] show ?thesis
      by (simp add: k0)
  qed
  from many [of "C * ?k"] obtain s c' f'
    where run: "run P (replicate (C * ?k) CallAllocate) s0 = Some s"
      and invs: "alloc_inv P sys s0 c' f' s" and cC: "c' \<le> C" and used: "c' * ?k - f' = C * ?k"
    by blast
  from K have k: "0 < ?k" by (simp add: word_less_nat_alt)
  have "c' * ?k \<le> C * ?k" by (rule mult_le_mono1) (rule cC)
  with used have eq: "c' * ?k = C * ?k" and f0: "f' = 0 \<or> c' * ?k \<le> f'" by linarith+
  from eq k have cc: "c' = C" by simp
  have f'0: "f' = 0"
  proof (rule ccontr)
    assume "f' \<noteq> 0"
    with f0 have "c' * ?k \<le> f'" by simp
    with used have "C * ?k = 0" by simp
    with k C(1) show False by simp
  qed
  from invs have "Config s = Config s0" "PagesInUse (Stats s) = of_nat c'"
    "FreeObjects (Stats s) = of_nat f'"
    by (simp_all add: alloc_inv_def)
  then have fin: "\<not> UseCPPMemManager (Config s)" "FreeObjects (Stats s) = 0"
    "PagesInUse (Stats s) = of_nat C" "MaxPages (Config s) = MaxPages config"
    using np by (simp_all add: cfg cc f'0)
  have "\<forall>n \<le> C * ?k. \<exists>s. run P (replicate n CallAllocate) s0 = Some s"
    using many by blast
  with ctor run fin show ?thesis by blast
qed

text \<open>
  C2 (capacity limit), as amended. Let pass-through be disabled, \<open>ObjectsPerPage = K > 0\<close>,
  \<open>ObjectSize\<close> at least \<^verbatim>\<open>sizeof(void*)\<close> and the page footprint below \<open>2^32\<close>, and let
  the system hand out non-null buffers that lie within the address space. With
  \<open>MaxPages = P > 0\<close> and at least P buffers to hand out, the constructor returns, the
  first \<open>P * K\<close> calls of \<^verbatim>\<open>Allocate\<close> return, and the next one throws \<open>E_NO_PAGES\<close>
  and changes nothing. With \<open>MaxPages = 0\<close> no call of \<^verbatim>\<open>Allocate\<close> throws
  \<open>E_NO_PAGES\<close> while fewer than \<open>2^32\<close> pages have been created.
\<close>

theorem capacity_limit:
  assumes np: "\<not> UseCPPMemManager config" and fits: "page_fits P os config"
    and K: "0 < ObjectsPerPage config" and os: "ptr_size P \<le> unat os"
    and avail: "\<forall>i < length sys.
        sys ! i \<noteq> 0 \<and> sys ! i + page_bytes P os config \<le> 256 ^ ptr_size P"
  shows "(0 < MaxPages config \<and> unat (MaxPages config) \<le> length sys \<longrightarrow>
           (\<exists>s0. ObjectAllocator_ctor P os config m0 sys = Some (Return (), s0)
             \<and> (\<forall>n \<le> unat (MaxPages config) * unat (ObjectsPerPage config).
                  \<exists>s. run P (replicate n CallAllocate) s0 = Some s)
             \<and> (\<exists>s. run P (replicate (unat (MaxPages config) * unat (ObjectsPerPage config))
                          CallAllocate) s0 = Some s
                  \<and> Allocate P s = Some (Throw E_NO_PAGES, s))))
       \<and> (MaxPages config = 0 \<longrightarrow>
           (\<forall>s0 calls s s'. ObjectAllocator_ctor P os config m0 sys = Some (Return (), s0)
              \<and> run P calls s0 = Some s \<and> pages_created sys s < 2 ^ 32
              \<longrightarrow> Allocate P s \<noteq> Some (Throw E_NO_PAGES, s')))"
proof (intro conjI impI allI)
  assume P: "0 < MaxPages config \<and> unat (MaxPages config) \<le> length sys"
  let ?C = "unat (MaxPages config)"
  from P have C: "1 \<le> ?C" "?C \<le> length sys" by (simp_all add: word_less_nat_alt)
  have av: "sys ! i \<noteq> 0 \<and> sys ! i + page_bytes P os config \<le> 256 ^ ptr_size P"
    if "i < ?C" for i
    using that C(2) avail by simp
  have below: "of_nat c \<noteq> MaxPages config" if "1 \<le> c" "c < ?C" for c
  proof
    assume "of_nat c = MaxPages config"
    then have "unat (of_nat c :: u32) = ?C" by simp
    moreover have "?C < 2 ^ 32" using unsigned_less [of "MaxPages config"] by simp
    ultimately show False using that by (simp add: unat_of_nat_u32)
  qed
  from exhaust_pages [OF np fits K os C av below, of m0] obtain s0 s
    where ctor: "ObjectAllocator_ctor P os config m0 sys = Some (Return (), s0)"
      and all: "\<forall>n \<le> ?C * unat (ObjectsPerPage config).
          \<exists>s. run P (replicate n CallAllocate) s0 = Some s"
      and run: "run P (replicate (?C * unat (ObjectsPerPage config)) CallAllocate) s0 = Some s"
      and fin: "\<not> UseCPPMemManager (Config s)" "FreeObjects (Stats s) = 0"
        "PagesInUse (Stats s) = of_nat ?C" "MaxPages (Config s) = MaxPages config"
    by blast
  from fin have "Allocate P s = Some (Throw E_NO_PAGES, s)"
    by (intro Allocate_page_limit) simp_all
  with ctor all run
  show "\<exists>s0. ObjectAllocator_ctor P os config m0 sys = Some (Return (), s0)
             \<and> (\<forall>n \<le> ?C * unat (ObjectsPerPage config).
                  \<exists>s. run P (replicate n CallAllocate) s0 = Some s)
             \<and> (\<exists>s. run P (replicate (?C * unat (ObjectsPerPage config))
                          CallAllocate) s0 = Some s
                  \<and> Allocate P s = Some (Throw E_NO_PAGES, s))"
    by blast
next
  fix s0 calls s s'
  assume mp: "MaxPages config = 0"
    and h: "ObjectAllocator_ctor P os config m0 sys = Some (Return (), s0)
              \<and> run P calls s0 = Some s \<and> pages_created sys s < 2 ^ 32"
  then have ctor: "ObjectAllocator_ctor P os config m0 sys = Some (Return (), s0)"
    and run: "run P calls s0 = Some s" and lt: "pages_created sys s < 2 ^ 32"
    by simp_all
  note c = ctor_pooled [OF np fits ctor]
  from run_counts [OF c(1,2) run]
  have r: "Config s = Config s0" "length (sys_new s) \<le> length (sys_new s0)"
    "PagesInUse (Stats s)
         = PagesInUse (Stats s0) + of_nat (length (sys_new s0) - length (sys_new s))"
    by simp_all
  have "length sys = Suc (length (sys_new s0))"
    using c(10) by (cases sys) (simp_all add: c(11))
  with r(2) have pc: "pages_created sys s = Suc (length (sys_new s0) - length (sys_new s))"
    by (simp add: pages_created_def)
  have pu: "PagesInUse (Stats s) = of_nat (pages_created sys s)"
    by (simp add: r(3) c(5) pc)
  have "unat (PagesInUse (Stats s)) = pages_created sys s"
    unfolding pu using lt by (rule unat_of_nat_u32)
  with pc have "PagesInUse (Stats s) \<noteq> 0" by auto
  then have ne: "PagesInUse (Stats s) \<noteq> MaxPages (Config s)"
    by (simp add: r(1) c(4) mp)
  show "Allocate P s \<noteq> Some (Throw E_NO_PAGES, s')"
  proof
    assume "Allocate P s = Some (Throw E_NO_PAGES, s')"
    from Allocate_page_limit_only [OF this] ne show False by simp
  qed
qed

lemma sys_many_length: "length sys_many = 2 ^ 32"
  by (simp only: sys_many_def length_map length_upt diff_zero)

lemma sys_many_nth: "i < 2 ^ 32 \<Longrightarrow> sys_many ! i = 4096 + 16 * i"
  by (simp only: sys_many_def length_upt diff_zero nth_map nth_upt add_0)

lemma page_fits_many: "page_fits P64 8 cfg_many"
  by (simp add: page_fits_def P64_simps cfg_many_def)

lemma page_bytes_many: "page_bytes P64 8 cfg_many = 16"
  by (simp add: page_bytes_def P64_simps cfg_many_def)

lemma counter_wraps:
  "\<exists>s0 s. ObjectAllocator_ctor P64 8 cfg_many (\<lambda>_. 0) sys_many = Some (Return (), s0)
     \<and> run P64 (replicate (2 ^ 32) CallAllocate) s0 = Some s
     \<and> Allocate P64 s = Some (Throw E_NO_PAGES, s)"
proof -
  have np: "\<not> UseCPPMemManager cfg_many" and K: "0 < ObjectsPerPage cfg_many"
    and os: "ptr_size P64 \<le> unat (8::u32)"
    by (simp_all add: cfg_many_def P64_simps)
  have C: "1 \<le> (2::nat) ^ 32" "(2::nat) ^ 32 \<le> length sys_many"
    by (simp_all add: sys_many_length)
  have av: "sys_many ! i \<noteq> 0
      \<and> sys_many ! i + page_bytes P64 8 cfg_many \<le> 256 ^ ptr_size P64"
    if "i < 2 ^ 32" for i
    using that by (simp add: sys_many_nth page_bytes_many P64_simps)
  have below: "of_nat c \<noteq> MaxPages cfg_many" if "1 \<le> c" "c < 2 ^ 32" for c
  proof
    assume "of_nat c = MaxPages cfg_many"
    then have "unat (of_nat c :: u32) = 0" by (simp add: cfg_many_def)
    with that show False by (simp add: unat_of_nat_u32)
  qed
  have k1: "unat (ObjectsPerPage cfg_many) = 1" by (simp add: cfg_many_def)
  from exhaust_pages [OF np page_fits_many K os C av below, of "\<lambda>_. 0"] obtain s0 s
    where ctor: "ObjectAllocator_ctor P64 8 cfg_many (\<lambda>_. 0) sys_many = Some (Return (), s0)"
      and run: "run P64 (replicate (2 ^ 32 * unat (ObjectsPerPage cfg_many)) CallAllocate) s0
          = Some s"
      and fin: "\<not> UseCPPMemManager (Config s)" "FreeObjects (Stats s) = 0"
        "PagesInUse (Stats s) = of_nat (2 ^ 32)" "MaxPages (Config s) = MaxPages cfg_many"
    by blast
  have "(of_nat (2 ^ 32) :: u32) = 0" by simp
  with fin have "Allocate P64 s = Some (Throw E_NO_PAGES, s)"
    by (intro Allocate_page_limit) (simp_all add: cfg_many_def)
  moreover from run have "run P64 (replicate (2 ^ 32) CallAllocate) s0 = Some s"
    by (simp only: k1 mult_1_right)
  ultimately show ?thesis using ctor by blast
qed

theorem capacity_limit_counterexample:
  "ObjectAllocator_ctor P64 2147483648 cfg_wrap (\<lambda>_. 0) [4096] = Some (Return (), W1)
   \<and> MaxPages cfg_wrap = 1 \<and> ObjectsPerPage cfg_wrap = 1
   \<and> run P64 [CallAllocate] W1 = Some W2 \<and> Allocate P64 W2 = Some (Abort, W2)
   \<and> ObjectAllocator_ctor P64 1 cfg_tiny (\<lambda>_. 0) [4096] = Some (Return (), Y1)
   \<and> MaxPages cfg_tiny = 1 \<and> ObjectsPerPage cfg_tiny = 4
   \<and> run P64 [CallAllocate, CallAllocate, CallAllocate] Y1 = Some Y4
   \<and> Allocate P64 Y4 = Some (Abort, Y4)
   \<and> MaxPages cfg_many = 0
   \<and> (\<exists>s0 s. ObjectAllocator_ctor P64 8 cfg_many (\<lambda>_. 0) sys_many = Some (Return (), s0)
         \<and> run P64 (replicate (2 ^ 32) CallAllocate) s0 = Some s
         \<and> Allocate P64 s = Some (Throw E_NO_PAGES, s))"
proof -
  have "run P64 [CallAllocate] W1 = Some W2"
    by (simp add: allocate_wrap)
  moreover have "run P64 [CallAllocate, CallAllocate, CallAllocate] Y1 = Some Y4"
    by (simp add: allocate_tiny)
  moreover have "MaxPages cfg_wrap = 1" "ObjectsPerPage cfg_wrap = 1" "MaxPages cfg_tiny = 1"
    "ObjectsPerPage cfg_tiny = 4" "MaxPages cfg_many = 0"
    by (simp_all add: cfg_wrap_def cfg_tiny_def cfg_many_def)
  ultimately show ?thesis
    using ctor_wrap ctor_tiny allocate_wrap_again allocate_tiny(4) counter_wraps
    by (simp only: simp_thms)
qed

theorem capacity_limit_witness:
  "\<not> UseCPPMemManager cfg_guarded \<and> page_fits P64 8 cfg_guarded
   \<and> 0 < ObjectsPerPage cfg_guarded \<and> ptr_size P64 \<le> unat (8::u32)
   \<and> MaxPages cfg_guarded = 2 \<and> ObjectsPerPage cfg_guarded = 2
   \<and> (\<exists>s0 s. ObjectAllocator_ctor P64 8 cfg_guarded (\<lambda>_. 0) [4096, 8192]
                  = Some (Return (), s0)
         \<and> run P64 (replicate 4 CallAllocate) s0 = Some s
         \<and> Allocate P64 s = Some (Throw E_NO_PAGES, s))
   \<and> \<not> UseCPPMemManager cfg_many \<and> page_fits P64 8 cfg_many \<and> MaxPages cfg_many = 0
   \<and> (\<exists>s0. ObjectAllocator_ctor P64 8 cfg_many (\<lambda>_. 0) [4096] = Some (Return (), s0)
         \<and> run P64 [] s0 = Some s0 \<and> pages_created [4096] s0 < 2 ^ 32
         \<and> Allocate P64 s0 \<noteq> Some (Throw E_NO_PAGES, s0))"
proof -
  have np: "\<not> UseCPPMemManager cfg_guarded" and K: "0 < ObjectsPerPage cfg_guarded"
    and os: "ptr_size P64 \<le> unat (8::u32)"
    and v: "MaxPages cfg_guarded = 2" "ObjectsPerPage cfg_guarded = 2"
    by (simp_all add: cfg_guarded_def P64_simps)
  have av: "\<forall>i < length [4096, 8192::nat].
      [4096, 8192::nat] ! i \<noteq> 0
      \<and> [4096, 8192::nat] ! i + page_bytes P64 8 cfg_guarded \<le> 256 ^ ptr_size P64"
    by (auto simp: less_Suc_eq page_bytes_def P64_simps cfg_guarded_def)
  have g: "0 < MaxPages cfg_guarded \<and> unat (MaxPages cfg_guarded) \<le> length [4096, 8192::nat]"
    by (simp add: cfg_guarded_def)
  from capacity_limit [OF np page_fits_guarded K os av, of "\<lambda>_. 0"] g
  obtain s0 s where
    "ObjectAllocator_ctor P64 8 cfg_guarded (\<lambda>_. 0) [4096, 8192] = Some (Return (), s0)"
    "run P64 (replicate (unat (MaxPages cfg_guarded) * unat (ObjectsPerPage cfg_guarded))
        CallAllocate) s0 = Some s"
    "Allocate P64 s = Some (Throw E_NO_PAGES, s)"
    by blast
  moreover have "unat (MaxPages cfg_guarded) * unat (ObjectsPerPage cfg_guarded) = 4"
    by (simp add: cfg_guarded_def)
  ultimately have part1: "\<exists>s0 s. ObjectAllocator_ctor P64 8 cfg_guarded (\<lambda>_. 0) [4096, 8192]
                  = Some (Return (), s0)
         \<and> run P64 (replicate 4 CallAllocate) s0 = Some s
         \<and> Allocate P64 s = Some (Throw E_NO_PAGES, s)"
    by (simp only:) blast
  have npm: "\<not> UseCPPMemManager cfg_many" and Km: "0 < ObjectsPerPage cfg_many"
    and mpm: "MaxPages cfg_many = 0"
    by (simp_all add: cfg_many_def)
  have avm: "\<forall>i < length [4096::nat].
      [4096::nat] ! i \<noteq> 0 \<and> [4096::nat] ! i + page_bytes P64 8 cfg_many \<le> 256 ^ ptr_size P64"
    by (simp add: page_bytes_many P64_simps)
  have rg: "(4096::nat) + (unat (ObjectsPerPage cfg_many)
        * (unat (8::u32) + 2 * unat (PadBytes cfg_many) + unat (HeaderBlocks cfg_many)
           + unat (Alignment cfg_many)) + ptr_size P64) \<le> 256 ^ ptr_size P64"
    by (simp add: cfg_many_def P64_simps)
  from ctor_alloc_inv [where sys = "[4096]" and a = 4096 and rest = "[]" and ?m0.0 = "\<lambda>_. 0",
      OF npm page_fits_many Km os refl _ rg] obtain s0
    where ctor: "ObjectAllocator_ctor P64 8 cfg_many (\<lambda>_. 0) [4096] = Some (Return (), s0)"
    by auto
  have pc: "pages_created [4096] s0 < 2 ^ 32"
    by (simp add: pages_created_def)
  from capacity_limit [OF npm page_fits_many Km os avm, of "\<lambda>_. 0"] mpm
  have imp: "ObjectAllocator_ctor P64 8 cfg_many (\<lambda>_. 0) [4096] = Some (Return (), s0')
      \<Longrightarrow> run P64 calls s0' = Some s \<Longrightarrow> pages_created [4096] s < 2 ^ 32
      \<Longrightarrow> Allocate P64 s \<noteq> Some (Throw E_NO_PAGES, s')" for s0' calls s s'
    by blast
  have "run P64 [] s0 = Some s0" by simp
  from imp [OF ctor this pc]
  have "Allocate P64 s0 \<noteq> Some (Throw E_NO_PAGES, s0)" .
  with ctor pc have part2: "\<exists>s0. ObjectAllocator_ctor P64 8 cfg_many (\<lambda>_. 0) [4096]
           = Some (Return (), s0)
         \<and> run P64 [] s0 = Some s0 \<and> pages_created [4096] s0 < 2 ^ 32
         \<and> Allocate P64 s0 \<noteq> Some (Throw E_NO_PAGES, s0)"
    by auto
  show ?thesis
    using np page_fits_guarded K os v part1 npm page_fits_many mpm part2
    by (simp only: simp_thms)
qed











text \<open>
  C9 (eager first page), as amended. With pass-through disabled and a page footprint
  below \<open>2^32\<close>, a constructor that returns has created the first page: the page count
  is 1, the page list is the buffer the system handed out, not null, and the free count
  is \<open>ObjectsPerPage\<close>. The constructor does return when the system hands out a
  buffer, \<open>ObjectsPerPage\<close> is not 0 and \<open>ObjectSize\<close> is at least \<open>sizeof(void*)\<close>, and
  then it has written nothing outside the \<^verbatim>\<open>PageSize_\<close> bytes of that buffer. Below
  \<open>sizeof(void*)\<close> the debug stamping of \<^verbatim>\<open>SetSignatures\<close> computes
  \<open>ObjectSize - sizeof(void*)\<close> in \<^verbatim>\<open>unsigned\<close> and runs some \<open>2^32\<close> bytes past the
  buffer, so nothing is promised there.
\<close>

theorem eager_first_page:
  assumes np: "\<not> UseCPPMemManager config" and fits: "page_fits P os config"
  shows "(ObjectAllocator_ctor P os config m0 sys = Some (Return (), s) \<longrightarrow>
           PagesInUse (Stats s) = 1 \<and> page_list s \<noteq> 0 \<and> page_list s = hd sys
           \<and> FreeObjects (Stats s) = ObjectsPerPage config)
       \<and> (sys \<noteq> [] \<and> hd sys \<noteq> 0 \<and> 0 < ObjectsPerPage config \<and> ptr_size P \<le> unat os \<longrightarrow>
           (\<exists>s'. ObjectAllocator_ctor P os config m0 sys = Some (Return (), s')
              \<and> (\<forall>x. x < hd sys \<or> hd sys + unat (PageSize (Stats s')) \<le> x
                    \<longrightarrow> mem s' x = m0 x)))"
proof (intro conjI impI)
  assume ret: "ObjectAllocator_ctor P os config m0 sys = Some (Return (), s)"
  note c = ctor_pooled [OF np fits ret]
  show "PagesInUse (Stats s) = 1" "page_list s \<noteq> 0" "page_list s = hd sys"
    "FreeObjects (Stats s) = ObjectsPerPage config"
    by (simp_all add: c)
next
  assume "sys \<noteq> [] \<and> hd sys \<noteq> 0 \<and> 0 < ObjectsPerPage config \<and> ptr_size P \<le> unat os"
  then obtain a rest where sys: "sys = a # rest" and a: "a \<noteq> 0"
    and K: "0 < ObjectsPerPage config" and sz: "ptr_size P \<le> unat os"
    by (cases sys) auto
  from ctor_inside [OF np fits K sz sys a, of m0]
  show "\<exists>s'. ObjectAllocator_ctor P os config m0 sys = Some (Return (), s')
      \<and> (\<forall>x. x < hd sys \<or> hd sys + unat (PageSize (Stats s')) \<le> x \<longrightarrow> mem s' x = m0 x)"
    by (simp add: sys)
qed

theorem eager_first_page_witness:
  "\<not> UseCPPMemManager cfg_guarded \<and> page_fits P64 8 cfg_guarded
   \<and> 0 < ObjectsPerPage cfg_guarded \<and> ptr_size P64 \<le> unat (8::u32)
   \<and> ObjectAllocator_ctor P64 8 cfg_guarded (\<lambda>_. 0) [4096] = Some (Return (), S1)
   \<and> PagesInUse (Stats S1) = 1 \<and> page_list S1 = 4096
   \<and> FreeObjects (Stats S1) = ObjectsPerPage cfg_guarded
   \<and> mem S1 4095 = 0 \<and> mem S1 (4096 + unat (PageSize (Stats S1))) = 0"
proof -
  have np: "\<not> UseCPPMemManager cfg_guarded" by (simp add: cfg_guarded_def)
  have k: "0 < ObjectsPerPage cfg_guarded" "ptr_size P64 \<le> unat (8::u32)"
    by (simp_all add: cfg_guarded_def P64_simps)
  note t = eager_first_page [OF np page_fits_guarded, of "\<lambda>_. 0" "[4096]" S1]
  from t k have "\<forall>x. x < 4096 \<or> 4096 + unat (PageSize (Stats S1)) \<le> x \<longrightarrow> mem S1 x = 0"
    by (simp add: ctor_guarded)
  then have "mem S1 4095 = 0" "mem S1 (4096 + unat (PageSize (Stats S1))) = 0"
    by simp_all
  with t show ?thesis
    using np page_fits_guarded k by (simp add: ctor_guarded)
qed

theorem eager_first_page_counterexample:
  "\<not> UseCPPMemManager cfg_wrap
   \<and> ObjectAllocator_ctor P64 2147483648 cfg_wrap (\<lambda>_. 0) [4096] = Some (Return (), W1)
   \<and> ObjectsPerPage cfg_wrap = 1 \<and> FreeObjects (Stats W1) = 2"
  by (simp add: ctor_wrap) (simp add: W1_def W0_def cfg_wrap_def)

end
